(* ===== verification/Prelude.thy ===== *)
theory Prelude
  imports Complex_Main
begin

text \<open>
  Shared vocabulary of the development. The Python code of \<open>tap_salesforce/sync.py\<close>
  mutates a state dictionary in place, writes messages to standard output and raises
  exceptions. Every statement of it is modelled as a function from the current world to
  a pair: a result that is either an exception (\<open>Inl\<close>) or a value (\<open>Inr\<close>), and the
  world after the statement, so that what a statement did before it raised stays visible.
  \<open>exc_bind\<close> sequences two such statements as Python does: an exception skips the rest.
  The theory also holds the generic list lemmas the loop proofs share.
\<close>

named_theorems exc_simps "equations that evaluate sequenced statements of the model"
named_theorems eval_defs "definitions unfolded to evaluate the model on concrete inputs"

type_synonym ('e, 'a, 's) exc = "('e + 'a) \<times> 's"

definition exc_bind :: "('e, 'a, 's) exc \<Rightarrow> ('a \<Rightarrow> 's \<Rightarrow> ('e, 'b, 's) exc) \<Rightarrow> ('e, 'b, 's) exc" where
  "exc_bind m f = (case m of (Inl e, s) \<Rightarrow> (Inl e, s) | (Inr a, s) \<Rightarrow> f a s)"

lemma exc_bind_Inl [simp, exc_simps]: "exc_bind (Inl e, s) f = (Inl e, s)"
  by (simp add: exc_bind_def)

lemma exc_bind_Inr [simp, exc_simps]: "exc_bind (Inr a, s) f = f a s"
  by (simp add: exc_bind_def)

lemma exc_bind_assoc [simp]:
  "exc_bind (exc_bind m f) g = exc_bind m (\<lambda>a s. exc_bind (f a s) g)"
  by (cases m; cases "fst m") (auto simp: exc_bind_def)

lemma exc_bind_Inr_iff:
  "exc_bind m f = (Inr b, s') \<longleftrightarrow> (\<exists>a s. m = (Inr a, s) \<and> f a s = (Inr b, s'))"
  by (cases m; cases "fst m") (auto simp: exc_bind_def)

lemma exc_bind_Inl_iff:
  "exc_bind m f = (Inl e, s') \<longleftrightarrow>
     m = (Inl e, s') \<or> (\<exists>a s. m = (Inr a, s) \<and> f a s = (Inl e, s'))"
  by (cases m; cases "fst m") (auto simp: exc_bind_def)

text \<open>
  Python's \<open>list.remove(x)\<close> deletes the first occurrence, which is \<open>remove1\<close>. Removing,
  one by one, the first \<open>k\<close> elements of a copy of a list from the list itself leaves
  its suffix: this is how the batch loop shortens the persisted batch list.
\<close>

lemma fold_remove1_take [simp]: "fold remove1 (take k xs) xs = drop k xs"
proof (induction xs arbitrary: k)
  case Nil
  then show ?case by simp
next
  case (Cons x xs)
  then show ?case by (cases k) simp_all
qed

lemma fold_remove1_self [simp]: "fold remove1 xs xs = []"
  using fold_remove1_take [of "length xs" xs] by simp

lemma remove1_hd_drop: "k < length xs \<Longrightarrow> remove1 (xs ! k) (drop k xs) = drop (Suc k) xs"
  by (simp add: Cons_nth_drop_Suc [symmetric])

lemma map_filter_append [simp]:
  "List.map_filter f (xs @ ys) = List.map_filter f xs @ List.map_filter f ys"
  by (simp add: List.map_filter_def)

lemma last_Cons_append: "last (c # xs @ ys) = last (last (c # xs) # ys)"
  by (cases ys rule: rev_cases) auto

lemma map_of_filter_key [simp]:
  "map_of (filter (\<lambda>(k, v). P k) d) x = (if P x then map_of d x else None)"
  by (induction d) auto

end
