(* ===== verification/Values.thy ===== *)
theory Values
  imports Prelude "HOL-Library.Sublist"
begin

text \<open>
  The data the sync code handles: JSON-like Python values (records are dicts of field
  name to value, bookmarks and schemas are nested dicts), Python's truthiness of them,
  subscript and \<open>dict.get\<close> with their errors, and the exceptions the code raises or
  lets through. A Python \<open>dict\<close> is an association list in insertion order, as
  \<open>dict.items()\<close> iterates it. Python floats are kept as the exact rational value of
  their decimal literal (IEEE rounding is not modelled) or one of the three special
  values.
\<close>

datatype pyfloat = Fin rat | PosInf | NegInf | NaN

datatype pyval =
    VNull
  | VBool bool
  | VInt int
  | VFloat pyfloat
  | VStr string
  | VList "pyval list"
  | VObj "(string \<times> pyval) list"

type_synonym dict = "(string \<times> pyval) list"

text \<open>Python's \<open>bool(x)\<close>, used by \<open>x or y\<close>, \<open>x and y\<close> and \<open>if x:\<close>.\<close>

fun truthy :: "pyval \<Rightarrow> bool" where
  "truthy VNull = False"
| "truthy (VBool b) = b"
| "truthy (VInt i) = (i \<noteq> 0)"
| "truthy (VFloat (Fin r)) = (r \<noteq> 0)"
| "truthy (VFloat _) = True"
| "truthy (VStr s) = (s \<noteq> [])"
| "truthy (VList xs) = (xs \<noteq> [])"
| "truthy (VObj d) = (d \<noteq> [])"

text \<open>
  Exceptions by class. The three \<open>TapSalesforce\<close> classes are the domain errors of
  \<open>tap_salesforce/salesforce/exceptions.py\<close> (the quota and bulk-API classes subclass
  the first); \<open>OtherError\<close> is any other \<open>Exception\<close> subclass raised by a
  collaborator (an HTTP error, a schema mismatch of the transformer), named by its class;
  \<open>PlainException\<close> is Python's bare \<open>Exception\<close>. An exception carries its message
  and its explicit cause (\<open>raise ... from ex\<close>).
\<close>

datatype exn_kind =
    TapSalesforceException
  | TapSalesforceQuotaExceededException
  | TapSalesforceBulkAPIDisabledException
  | KeyError
  | TypeError
  | ValueError
  | AttributeError
  | OtherError string
  | PlainException

datatype exn = Exn (exn_class: exn_kind) (exn_msg: string) (exn_cause: "exn option")

definition raise :: "exn_kind \<Rightarrow> string \<Rightarrow> exn" where
  "raise k msg = Exn k msg None"

fun is_tap_exception :: "exn_kind \<Rightarrow> bool" where
  "is_tap_exception TapSalesforceException = True"
| "is_tap_exception TapSalesforceQuotaExceededException = True"
| "is_tap_exception TapSalesforceBulkAPIDisabledException = True"
| "is_tap_exception _ = False"

text \<open>\<open>d[k]\<close> on a value: a dict raises \<open>KeyError\<close> on a missing key, anything else
  raises \<open>TypeError\<close> for a string subscript.\<close>

fun py_getitem :: "pyval \<Rightarrow> string \<Rightarrow> exn + pyval" where
  "py_getitem (VObj d) k = (case map_of d k of None \<Rightarrow> Inl (raise KeyError k) | Some v \<Rightarrow> Inr v)"
| "py_getitem _ k = Inl (raise TypeError ''indices must be integers'')"

text \<open>\<open>d.get(k)\<close>: \<open>None\<close> for a missing key; only dicts have \<open>get\<close>.\<close>

fun py_get :: "pyval \<Rightarrow> string \<Rightarrow> exn + pyval" where
  "py_get (VObj d) k = Inr (case map_of d k of None \<Rightarrow> VNull | Some v \<Rightarrow> v)"
| "py_get _ k = Inl (raise AttributeError ''get'')"

text \<open>\<open>x in c\<close> for a string \<open>x\<close>: substring test on a string, membership on a list,
  key test on a dict; other containers raise \<open>TypeError\<close>.\<close>

fun py_str_in :: "string \<Rightarrow> pyval \<Rightarrow> exn + bool" where
  "py_str_in x (VStr s) = Inr (sublist x s)"
| "py_str_in x (VList vs) = Inr (VStr x \<in> set vs)"
| "py_str_in x (VObj d) = Inr (x \<in> set (map fst d))"
| "py_str_in x _ = Inl (raise TypeError ''argument is not iterable'')"

lemma py_getitem_Inr_iff [simp]:
  "py_getitem v k = Inr w \<longleftrightarrow> (\<exists>d. v = VObj d \<and> map_of d k = Some w)"
  by (cases v) (auto split: option.splits)

declare raise_def [eval_defs] Let_def [eval_defs]

end
