(* ===== verification/Bookmarks.thy ===== *)
theory Bookmarks
  imports Values
begin

text \<open>
  The Bookmark Store and the message stream, as the singer library provides them to
  \<open>sync.py\<close> (modelled from the spec, since singer is not part of this repository).
  The state is \<open>state['bookmarks'][tap_stream_id][key]\<close>: a map from stream id to a
  map from field name to a value. \<open>get_bookmark\<close> answers \<open>None\<close> for a missing
  stream or key; \<open>write_bookmark\<close> creates the stream's entry when it is missing.
  Every message the tap writes goes, in order, to standard output; \<open>write_state\<close>
  writes a \<open>STATE\<close> message holding a snapshot of the whole state, and that message
  is the only durable record of progress: after the process is killed, the next run
  starts from the last \<open>STATE\<close> message written.
\<close>

type_synonym bookmarks = "string \<rightharpoonup> (string \<rightharpoonup> pyval)"

definition get_bookmark :: "bookmarks \<Rightarrow> string \<Rightarrow> string \<Rightarrow> pyval" where
  "get_bookmark st sid key =
     (case st sid of None \<Rightarrow> VNull | Some m \<Rightarrow> (case m key of None \<Rightarrow> VNull | Some v \<Rightarrow> v))"

definition write_bookmark :: "bookmarks \<Rightarrow> string \<Rightarrow> string \<Rightarrow> pyval \<Rightarrow> bookmarks" where
  "write_bookmark st sid key v =
     st(sid \<mapsto> (case st sid of None \<Rightarrow> Map.empty | Some m \<Rightarrow> m)(key \<mapsto> v))"

datatype 'ts message =
    RecordMessage (msg_stream: string) (msg_record: dict) (msg_version: pyval) (msg_time: 'ts)
  | ActivateVersionMessage string pyval
  | StateMessage bookmarks

text \<open>
  The world a sync pass acts on: the state dictionary (shared with the caller and
  mutated in place), the messages written so far, and the record counter of
  \<open>metrics.record_counter\<close>.
\<close>

record 'ts pass =
  bm :: bookmarks
  out :: "'ts message list"
  count :: nat

definition write_message :: "'ts message \<Rightarrow> 'ts pass \<Rightarrow> 'ts pass" where
  "write_message m p = p\<lparr>out := out p @ [m]\<rparr>"

definition write_state :: "'ts pass \<Rightarrow> 'ts pass" where
  "write_state p = write_message (StateMessage (bm p)) p"

definition set_bookmark :: "string \<Rightarrow> string \<Rightarrow> pyval \<Rightarrow> 'ts pass \<Rightarrow> 'ts pass" where
  "set_bookmark sid key v p = p\<lparr>bm := write_bookmark (bm p) sid key v\<rparr>"

subsection \<open>What a crash leaves behind\<close>

text \<open>
  A process killed after it wrote the messages \<open>ms\<close> leaves the state of the last
  \<open>STATE\<close> message among them, and has delivered the records among them.
\<close>

fun last_state :: "'ts message list \<Rightarrow> bookmarks option" where
  "last_state [] = None"
| "last_state (m # ms) =
     (case last_state ms of
        Some b \<Rightarrow> Some b
      | None \<Rightarrow> (case m of StateMessage b \<Rightarrow> Some b | _ \<Rightarrow> None))"

fun records_of :: "'ts message list \<Rightarrow> dict list" where
  "records_of [] = []"
| "records_of (RecordMessage s r v t # ms) = r # records_of ms"
| "records_of (_ # ms) = records_of ms"

fun states_of :: "'ts message list \<Rightarrow> bookmarks list" where
  "states_of [] = []"
| "states_of (StateMessage b # ms) = b # states_of ms"
| "states_of (_ # ms) = states_of ms"

text \<open>The messages up to and including the last \<open>STATE\<close> message: what a crash after
  \<open>ms\<close> leaves delivered and recorded.\<close>

fun upto_last_state :: "'ts message list \<Rightarrow> 'ts message list" where
  "upto_last_state [] = []"
| "upto_last_state (m # ms) =
     (case last_state ms of
        Some _ \<Rightarrow> m # upto_last_state ms
      | None \<Rightarrow> (case m of StateMessage b \<Rightarrow> [m] | _ \<Rightarrow> []))"

subsection \<open>Lemmas\<close>

lemma get_bookmark_empty [simp]: "get_bookmark Map.empty sid key = VNull"
  by (simp add: get_bookmark_def)

lemma get_write_bookmark_same [simp]: "get_bookmark (write_bookmark st sid key v) sid key = v"
  by (simp add: get_bookmark_def write_bookmark_def)

lemma get_write_bookmark_other [simp]:
  "(sid', key') \<noteq> (sid, key) \<Longrightarrow>
   get_bookmark (write_bookmark st sid key v) sid' key' = get_bookmark st sid' key'"
  by (auto simp: get_bookmark_def write_bookmark_def split: option.splits)

lemma get_write_bookmark:
  "get_bookmark (write_bookmark st sid key v) sid' key' =
     (if sid' = sid \<and> key' = key then v else get_bookmark st sid' key')"
  by simp

lemma pass_updates [simp]:
  "bm (write_message m p) = bm p" "out (write_message m p) = out p @ [m]"
  "count (write_message m p) = count p"
  "bm (write_state p) = bm p" "out (write_state p) = out p @ [StateMessage (bm p)]"
  "count (write_state p) = count p"
  "bm (set_bookmark sid key v p) = write_bookmark (bm p) sid key v"
  "out (set_bookmark sid key v p) = out p" "count (set_bookmark sid key v p) = count p"
  by (simp_all add: write_message_def write_state_def set_bookmark_def)

lemma last_state_append:
  "last_state (ms @ ms') = (case last_state ms' of None \<Rightarrow> last_state ms | Some b \<Rightarrow> Some b)"
  by (induction ms) (auto split: option.splits)

lemma last_state_snoc_state [simp]: "last_state (ms @ [StateMessage b]) = Some b"
  by (simp add: last_state_append)

lemma records_of_append [simp]: "records_of (ms @ ms') = records_of ms @ records_of ms'"
  by (induction ms rule: records_of.induct) auto

lemma states_of_append [simp]: "states_of (ms @ ms') = states_of ms @ states_of ms'"
  by (induction ms rule: states_of.induct) auto

lemma records_of_record_messages [simp]: "records_of (map (\<lambda>r. RecordMessage s r v t) rs) = rs"
  by (induction rs) auto

lemma states_of_record_messages [simp]: "states_of (map (\<lambda>r. RecordMessage s r v t) rs) = []"
  by (induction rs) auto

lemma last_state_record_messages [simp]: "last_state (map (\<lambda>r. RecordMessage s r v t) rs) = None"
  by (induction rs) auto

lemma last_state_Some_nth:
  "last_state ms = Some b \<Longrightarrow> \<exists>i < length ms. ms ! i = StateMessage b"
proof (induction ms)
  case Nil
  then show ?case by simp
next
  case (Cons m ms)
  show ?case
  proof (cases "last_state ms")
    case None
    with Cons.prems show ?thesis by (auto split: message.splits)
  next
    case (Some b')
    with Cons.prems Cons.IH show ?thesis by fastforce
  qed
qed

lemma upto_last_state_None: "last_state ms = None \<Longrightarrow> upto_last_state ms = []"
  by (induction ms) (auto split: option.splits message.splits)

lemma upto_last_state_Some:
  "last_state ms = Some b \<Longrightarrow> \<exists>i < length ms. ms ! i = StateMessage b \<and> upto_last_state ms = take (Suc i) ms"
proof (induction ms)
  case Nil
  then show ?case by simp
next
  case (Cons m ms)
  show ?case
  proof (cases "last_state ms")
    case None
    with Cons.prems show ?thesis by (auto split: message.splits)
  next
    case (Some b')
    with Cons.prems Cons.IH obtain i where "i < length ms" "ms ! i = StateMessage b"
      "upto_last_state ms = take (Suc i) ms"
      by auto
    with Some show ?thesis by (intro exI [of _ "Suc i"]) simp
  qed
qed

lemma states_of_member: "StateMessage b \<in> set ms \<Longrightarrow> b \<in> set (states_of ms)"
  by (induction ms rule: states_of.induct) auto

declare get_bookmark_def [eval_defs] write_bookmark_def [eval_defs]
  write_message_def [eval_defs] write_state_def [eval_defs] set_bookmark_def [eval_defs]

end
