(* ===== verification/PostProcess.thy ===== *)
theory PostProcess
  imports Values
begin

text \<open>
  The Record Post-Processor of \<open>sync.py\<close>: \<open>BLACKLISTED_FIELDS\<close>,
  \<open>remove_blacklisted_fields\<close> and \<open>transform_bulk_data_hook\<close> (lines 11--28), the
  pre-hook the singer \<open>Transformer\<close> calls on every value it transforms, and
  \<open>fix_record_anytype\<close> (lines 163--185), the repair of fields whose schema has no
  \<open>type\<close> (Salesforce \<open>anyType\<close>). \<open>fix_record_anytype\<close> calls Python's
  \<open>int()\<close> and \<open>float()\<close>; their conversion of strings (surrounding whitespace, an
  optional sign, decimal digits with single underscores between them, a fraction and an
  exponent for \<open>float\<close>, and the words \<open>inf\<close>, \<open>infinity\<close>, \<open>nan\<close> in any case)
  is modelled first, on ASCII.
\<close>

subsection \<open>Python's \<open>int()\<close> and \<open>float()\<close> on values\<close>

definition is_digit :: "char \<Rightarrow> bool" where
  "is_digit c \<longleftrightarrow> c \<in> set ''0123456789''"

definition is_py_space :: "char \<Rightarrow> bool" where
  "is_py_space c \<longleftrightarrow> of_char c \<in> ({9..13} \<union> {28..32} :: nat set)"

definition py_strip :: "string \<Rightarrow> string" where
  "py_strip s = rev (dropWhile is_py_space (rev (dropWhile is_py_space s)))"

definition to_lower :: "char \<Rightarrow> char" where
  "to_lower c = (if of_char c \<in> ({65..90} :: nat set) then char_of (of_char c + (32::nat)) else c)"

text \<open>A \<open>digitpart\<close> of Python's grammar: digits, single underscores between them.\<close>

fun digitpart :: "string \<Rightarrow> bool" where
  "digitpart [] = False"
| "digitpart (c # s) =
     (is_digit c \<and> (case s of [] \<Rightarrow> True
                   | d # s' \<Rightarrow> (if d = CHR ''_'' then digitpart s' else digitpart s)))"

definition digits_nat :: "string \<Rightarrow> nat" where
  "digits_nat s = foldl (\<lambda>n c. 10 * n + (of_char c - 48)) 0 (filter is_digit s)"

definition split_sign :: "string \<Rightarrow> bool \<times> string" where
  "split_sign s = (case s of c # u \<Rightarrow>
       if c = CHR ''-'' then (True, u) else if c = CHR ''+'' then (False, u) else (False, s)
     | [] \<Rightarrow> (False, []))"

definition is_digit_us :: "char \<Rightarrow> bool" where
  "is_digit_us c \<longleftrightarrow> is_digit c \<or> c = CHR ''_''"

definition py_int_str :: "string \<Rightarrow> exn + int" where
  "py_int_str s =
     (let (neg, u) = split_sign (py_strip s)
      in if digitpart u then Inr ((if neg then -1 else 1) * int (digits_nat u))
         else Inl (raise ValueError ''invalid literal for int() with base 10''))"

text \<open>The exponent part of a float literal, after the mantissa: empty, or \<open>e\<close>/\<open>E\<close>,
  an optional sign and a digitpart.\<close>

definition float_exponent :: "string \<Rightarrow> int option" where
  "float_exponent r =
     (case r of [] \<Rightarrow> Some 0
      | e # r' \<Rightarrow> (if e = CHR ''e'' \<or> e = CHR ''E'' then
                     (let (neg, u) = split_sign r'
                      in if digitpart u then Some ((if neg then -1 else 1) * int (digits_nat u)) else None)
                   else None))"

definition scale10 :: "nat \<Rightarrow> int \<Rightarrow> rat" where
  "scale10 m e = (if 0 \<le> e then of_nat m * 10 ^ nat e else of_nat m / 10 ^ nat (- e))"

definition parse_decimal :: "string \<Rightarrow> rat option" where
  "parse_decimal u =
     (let ip = takeWhile is_digit_us u; r1 = dropWhile is_digit_us u in
      case r1 of
        c # r1' \<Rightarrow>
          (if c = CHR ''.'' then
             (let fp = takeWhile is_digit_us r1'; r2 = dropWhile is_digit_us r1' in
              if (ip = [] \<or> digitpart ip) \<and> (fp = [] \<or> digitpart fp) \<and> (ip \<noteq> [] \<or> fp \<noteq> []) then
                map_option (\<lambda>e. scale10 (digits_nat (ip @ fp)) (e - int (length (filter is_digit fp))))
                  (float_exponent r2)
              else None)
           else if digitpart ip then map_option (scale10 (digits_nat ip)) (float_exponent r1)
           else None)
      | [] \<Rightarrow> (if digitpart ip then Some (of_nat (digits_nat ip)) else None))"

definition py_float_str :: "string \<Rightarrow> exn + pyfloat" where
  "py_float_str s =
     (let (neg, u) = split_sign (py_strip s); lu = map to_lower u in
      if lu = ''inf'' \<or> lu = ''infinity'' then Inr (if neg then NegInf else PosInf)
      else if lu = ''nan'' then Inr NaN
      else (case parse_decimal u of
              None \<Rightarrow> Inl (raise ValueError ''could not convert string to float'')
            | Some r \<Rightarrow> Inr (Fin (if neg then - r else r))))"

fun py_int :: "pyval \<Rightarrow> exn + int" where
  "py_int (VStr s) = py_int_str s"
| "py_int (VInt i) = Inr i"
| "py_int (VBool b) = Inr (if b then 1 else 0)"
| "py_int (VFloat (Fin r)) = Inr (if 0 \<le> r then \<lfloor>r\<rfloor> else \<lceil>r\<rceil>)"
| "py_int (VFloat NaN) = Inl (raise ValueError ''cannot convert float NaN to integer'')"
| "py_int (VFloat _) = Inl (raise (OtherError ''OverflowError'') ''cannot convert float infinity to integer'')"
| "py_int _ = Inl (raise TypeError ''int() argument must be a string, a bytes-like object or a real number'')"

fun py_float :: "pyval \<Rightarrow> exn + pyfloat" where
  "py_float (VStr s) = py_float_str s"
| "py_float (VInt i) = Inr (Fin (of_int i))"
| "py_float (VBool b) = Inr (Fin (if b then 1 else 0))"
| "py_float (VFloat f) = Inr f"
| "py_float _ = Inl (raise TypeError ''float() argument must be a string or a real number'')"

subsection \<open>The transformer pre-hook\<close>

definition BLACKLISTED_FIELDS :: "string list" where
  "BLACKLISTED_FIELDS = [''attributes'']"

definition remove_blacklisted_fields :: "dict \<Rightarrow> dict" where
  "remove_blacklisted_fields d = filter (\<lambda>(k, v). k \<notin> set BLACKLISTED_FIELDS) d"

text \<open>\<open>data == "" and "null" in schema['type']\<close>: the subscript is only evaluated
  for the empty string, and raises when the schema has no \<open>type\<close>.\<close>

definition transform_bulk_data_hook :: "pyval \<Rightarrow> string \<Rightarrow> pyval \<Rightarrow> exn + pyval" where
  "transform_bulk_data_hook data typ sch =
     (let result = (case data of VObj d \<Rightarrow> VObj (remove_blacklisted_fields d) | _ \<Rightarrow> data) in
      if data = VStr [] then
        (case py_getitem sch ''type'' of
           Inl e \<Rightarrow> Inl e
         | Inr t \<Rightarrow> (case py_str_in ''null'' t of
                      Inl e \<Rightarrow> Inl e
                    | Inr b \<Rightarrow> Inr (if b then VNull else result)))
      else Inr result)"

subsection \<open>Repair of untyped fields\<close>

text \<open>\<open>try_cast(val, coercion)\<close>: the coerced value, or the value itself when the
  coercion raises (any \<open>BaseException\<close> is caught).\<close>

definition try_cast :: "pyval \<Rightarrow> (pyval \<Rightarrow> exn + pyval) \<Rightarrow> pyval" where
  "try_cast v coercion = (case coercion v of Inl _ \<Rightarrow> v | Inr w \<Rightarrow> w)"

definition int_coercion :: "pyval \<Rightarrow> exn + pyval" where
  "int_coercion v = map_sum id VInt (py_int v)"

definition float_coercion :: "pyval \<Rightarrow> exn + pyval" where
  "float_coercion v = map_sum id VFloat (py_float v)"

text \<open>The body of the loop of lines 174--183 for one untyped field with value \<open>v\<close>:
  each assignment to \<open>val\<close> in the order of the source.\<close>

definition fix_anytype_value :: "pyval \<Rightarrow> pyval" where
  "fix_anytype_value v =
     (let val = v;
          val = try_cast v int_coercion;
          val = try_cast v float_coercion;
          val = (if v \<in> {VStr ''true'', VStr ''false''} then VBool (v = VStr ''true'') else val);
          val = (if v = VStr [] then VNull else val)
      in val)"

text \<open>\<open>schema['properties'][k].get("type") is None\<close>, with its errors.\<close>

definition field_untyped :: "pyval \<Rightarrow> string \<Rightarrow> exn + bool" where
  "field_untyped sch k =
     (case py_getitem sch ''properties'' of
        Inl e \<Rightarrow> Inl e
      | Inr props \<Rightarrow> (case py_getitem props k of
          Inl e \<Rightarrow> Inl e
        | Inr fs \<Rightarrow> (case py_get fs ''type'' of
            Inl e \<Rightarrow> Inl e
          | Inr t \<Rightarrow> Inr (t = VNull))))"

fun fix_record_anytype :: "dict \<Rightarrow> pyval \<Rightarrow> exn + dict" where
  "fix_record_anytype [] sch = Inr []"
| "fix_record_anytype ((k, v) # kvs) sch =
     (case field_untyped sch k of
        Inl e \<Rightarrow> Inl e
      | Inr untyped \<Rightarrow>
          (case fix_record_anytype kvs sch of
             Inl e \<Rightarrow> Inl e
           | Inr kvs' \<Rightarrow> Inr ((k, if untyped then fix_anytype_value v else v) # kvs')))"

subsection \<open>What the repair promises\<close>

text \<open>A reference for the repair of one value, read as a decision table in which the
  last rule of the source that applies wins: the empty string becomes null, the two
  boolean words become booleans, and anything else is the float it converts to, or is
  kept when it does not convert.\<close>

definition fix_anytype_ref :: "pyval \<Rightarrow> pyval" where
  "fix_anytype_ref v =
     (if v = VStr [] then VNull
      else if v = VStr ''true'' then VBool True
      else if v = VStr ''false'' then VBool False
      else (case py_float v of Inr f \<Rightarrow> VFloat f | Inl _ \<Rightarrow> v))"

declare is_digit_def [eval_defs] is_py_space_def [eval_defs] py_strip_def [eval_defs]
  to_lower_def [eval_defs] digits_nat_def [eval_defs] split_sign_def [eval_defs]
  is_digit_us_def [eval_defs] py_int_str_def [eval_defs] float_exponent_def [eval_defs]
  scale10_def [eval_defs] parse_decimal_def [eval_defs] py_float_str_def [eval_defs]
  BLACKLISTED_FIELDS_def [eval_defs] remove_blacklisted_fields_def [eval_defs]
  transform_bulk_data_hook_def [eval_defs] try_cast_def [eval_defs] int_coercion_def [eval_defs]
  float_coercion_def [eval_defs] fix_anytype_value_def [eval_defs] field_untyped_def [eval_defs]

subsection \<open>Lemmas\<close>

lemma fix_anytype_value_eq:
  "fix_anytype_value v =
     (if v = VStr [] then VNull
      else if v = VStr ''true'' then VBool True
      else if v = VStr ''false'' then VBool False
      else (case py_float v of Inr f \<Rightarrow> VFloat f | Inl _ \<Rightarrow> v))"
  by (cases "py_float v") (auto simp: fix_anytype_value_def try_cast_def float_coercion_def)

lemma fix_record_anytype_Inr:
  "fix_record_anytype rec sch = Inr rec' \<longleftrightarrow>
     (\<forall>k \<in> set (map fst rec). \<exists>b. field_untyped sch k = Inr b) \<and>
     rec' = map (\<lambda>(k, v). (k, if field_untyped sch k = Inr True then fix_anytype_value v else v)) rec"
proof (induction rec arbitrary: rec')
  case Nil
  then show ?case by auto
next
  case (Cons kv kvs)
  obtain k v where kv: "kv = (k, v)" by fastforce
  show ?case
  proof (cases "field_untyped sch k")
    case (Inl e)
    with kv show ?thesis by auto
  next
    case (Inr b)
    with kv Cons.IH show ?thesis
      by (cases "fix_record_anytype kvs sch") (auto split: if_splits)
  qed
qed

lemma fix_anytype_value_twice:
  "fix_anytype_value (fix_anytype_value v) =
     (case fix_anytype_value v of VBool b \<Rightarrow> VFloat (Fin (if b then 1 else 0)) | w \<Rightarrow> w)"
  by (cases v) (auto simp: fix_anytype_value_eq split: sum.splits)

subsection \<open>Properties of the repair\<close>

text \<open>C17: the repair of an untyped field never yields an integer: the result of
  \<open>try_cast(v, int)\<close> on line 175 is overwritten on line 176 by the float cast of the
  original value, so a numeric string becomes a float and even an integer becomes one.\<close>

theorem fix_anytype_value_never_int: "fix_anytype_value v \<noteq> VInt i"
  by (cases v) (auto simp: fix_anytype_value_eq split: sum.splits)

text \<open>C18: the sequence of assignments of lines 174--181 computes the decision table
  \<open>fix_anytype_ref\<close>; in particular the integer cast of line 175 has no effect.\<close>

theorem fix_anytype_value_equiv: "fix_anytype_value = fix_anytype_ref"
  by (rule ext) (simp add: fix_anytype_value_eq fix_anytype_ref_def)

text \<open>C19: the repair is not idempotent. Repairing a record it has already repaired changes
  exactly the untyped fields it made booleans: \<open>try_cast(v, float)\<close> of line 176 converts
  \<open>True\<close> and \<open>False\<close> to \<open>1.0\<close> and \<open>0.0\<close>, and the boolean rule of lines 177--178 only
  recognises the strings \<open>"true"\<close> and \<open>"false"\<close>; floats, null and the values the
  repair kept stay as they are.\<close>

theorem fix_record_anytype_twice:
  assumes "fix_record_anytype rec sch = Inr rec'"
  shows "fix_record_anytype rec' sch =
    Inr (map (\<lambda>(k, v). (k, if field_untyped sch k = Inr True
                            then (case v of VBool b \<Rightarrow> VFloat (Fin (if b then 1 else 0)) | _ \<Rightarrow> v)
                            else v)) rec')"
proof -
  from assms have keys: "\<forall>k \<in> set (map fst rec). \<exists>b. field_untyped sch k = Inr b"
    and r': "rec' = map (\<lambda>(k, v). (k, if field_untyped sch k = Inr True then fix_anytype_value v else v)) rec"
    by (simp_all add: fix_record_anytype_Inr)
  from r' have "map fst rec' = map fst rec" by (auto simp: comp_def split: prod.splits)
  with keys r' show ?thesis
    by (auto simp: fix_record_anytype_Inr fix_anytype_value_twice comp_def split: prod.splits pyval.splits)
qed

text \<open>C20: the repair raises exactly when some field of the record has no usable entry in
  \<open>schema['properties']\<close> (it relies on the transformer having dropped the fields the
  schema does not know).\<close>

theorem fix_record_anytype_raises_iff:
  "(\<exists>e. fix_record_anytype rec sch = Inl e) \<longleftrightarrow> (\<exists>k \<in> set (map fst rec). \<exists>e. field_untyped sch k = Inl e)"
proof -
  have "(\<exists>e. fix_record_anytype rec sch = Inl e) \<longleftrightarrow> \<not> (\<exists>rec'. fix_record_anytype rec sch = Inr rec')"
    by (cases "fix_record_anytype rec sch") auto
  moreover have "(\<exists>b. field_untyped sch k = Inr b) \<longleftrightarrow> \<not> (\<exists>e. field_untyped sch k = Inl e)" for k
    by (cases "field_untyped sch k") auto
  ultimately show ?thesis by (auto simp: fix_record_anytype_Inr)
qed

text \<open>C21: a repaired record has the fields of the original in the same order; a field
  with a declared type keeps its value and an untyped one gets the repaired value.\<close>

theorem fix_record_anytype_shape:
  assumes "fix_record_anytype rec sch = Inr rec'"
  shows "map fst rec' = map fst rec \<and>
    (\<forall>i < length rec. snd (rec' ! i) =
       (if field_untyped sch (fst (rec ! i)) = Inr True then fix_anytype_value (snd (rec ! i)) else snd (rec ! i)))"
  using assms by (auto simp: fix_record_anytype_Inr split: prod.splits)

text \<open>C22: the pre-hook removes exactly the blacklisted \<open>attributes\<close> field from a
  dict and never raises on one; the empty string becomes null exactly when the field's
  type list admits null; any other value passes unchanged.\<close>

theorem transform_bulk_data_hook_spec:
  "(\<exists>d'. transform_bulk_data_hook (VObj d) tp sch = Inr (VObj d') \<and>
        (\<forall>k. map_of d' k = (if k = ''attributes'' then None else map_of d k))) \<and>
   transform_bulk_data_hook (VStr []) tp (VObj [(''type'', VList ts)]) =
     Inr (if VStr ''null'' \<in> set ts then VNull else VStr []) \<and>
   (v \<noteq> VStr [] \<longrightarrow> (\<forall>d. v \<noteq> VObj d) \<longrightarrow> transform_bulk_data_hook v tp sch = Inr v)"
  by (cases v) (auto simp: transform_bulk_data_hook_def remove_blacklisted_fields_def
      BLACKLISTED_FIELDS_def)

end
