(* ===== verification/SyncEnv.thy ===== *)
theory SyncEnv
  imports Bookmarks PostProcess
begin

text \<open>
  What both sync drivers of \<open>sync.py\<close> share: the catalog entry of a stream, the
  external collaborators of a pass, and the per-record pipeline of lines 57--66 and
  114--123 (count, transform with the pre-hook, repair untyped fields, emit), with the
  read of the replication-key value of lines 69 and 125.

  The collaborators are the fields of an \<open>env\<close> record, so every theorem holds for
  any behaviour of them: the clock (\<open>singer_utils.now()\<close>, \<open>time.time()\<close>), the flag
  \<open>sf.pk_chunking\<close>, the configured start date, singer's timestamp parser and
  formatter (\<open>strptime_with_tz\<close>, \<open>strftime\<close>, over any linearly ordered type of
  instants \<open>'ts\<close>), the singer \<open>Transformer\<close>, and the Salesforce query engine
  (\<open>sf.query\<close>, \<open>Bulk.get_batch_results\<close>), each of which yields a finite list of
  records and then either ends or raises.
\<close>

record catalog_entry =
  tap_stream_id :: string
  stream :: string
  stream_alias :: "string option"
  replication_key :: "string option"
  schema :: pyval

record 'ts env =
  start_time :: 'ts
  now_ms :: int
  pk_chunking :: bool
  default_start_date :: string
  strptime_with_tz :: "string \<Rightarrow> 'ts option"
  strftime :: "'ts \<Rightarrow> string"
  transform :: "dict \<Rightarrow> pyval \<Rightarrow> exn + dict"
  query :: "bookmarks \<Rightarrow> dict list \<times> exn option"
  get_batch_results :: "string \<Rightarrow> pyval \<Rightarrow> dict list \<times> exn option"

text \<open>\<open>stream_alias or stream\<close>\<close>

definition stream_name :: "catalog_entry \<Rightarrow> string" where
  "stream_name ce =
     (case stream_alias ce of Some a \<Rightarrow> if a \<noteq> [] then a else stream ce | None \<Rightarrow> stream ce)"

text \<open>\<open>catalog_entry.get('replication_key')\<close> where the code tests its truth: an
  absent or empty key is no key.\<close>

definition rep_key :: "catalog_entry \<Rightarrow> string option" where
  "rep_key ce = (case replication_key ce of Some k \<Rightarrow> if k = [] then None else Some k | None \<Rightarrow> None)"

text \<open>
  \<open>sf.get_start_date(state, catalog_entry)\<close> of \<open>tap_salesforce/salesforce/__init__.py\<close>
  (not under \<open>src/\<close>; modelled from the spec): the stream's cursor bookmark if it is set,
  else the configured start date.
\<close>

definition get_start_date :: "'ts env \<Rightarrow> bookmarks \<Rightarrow> catalog_entry \<Rightarrow> pyval" where
  "get_start_date env st ce =
     (let b = (case rep_key ce of Some k \<Rightarrow> get_bookmark st (tap_stream_id ce) k | None \<Rightarrow> VNull)
      in if truthy b then b else VStr (default_start_date env))"

text \<open>\<open>singer_utils.strptime_with_tz(v)\<close>: a string is parsed (\<open>ValueError\<close> when it
  is not a date), anything else raises \<open>TypeError\<close>.\<close>

definition parse_ts :: "'ts env \<Rightarrow> pyval \<Rightarrow> exn + 'ts" where
  "parse_ts env v =
     (case v of
        VStr s \<Rightarrow> (case strptime_with_tz env s of
                     None \<Rightarrow> Inl (raise ValueError ''Unknown string format'')
                   | Some t \<Rightarrow> Inr t)
      | _ \<Rightarrow> Inl (raise TypeError ''Parser must be a string or character stream''))"

text \<open>What a record becomes on emission (lines 58--59 and 115--116): the transformer,
  then the repair of untyped fields.\<close>

definition process_record :: "'ts env \<Rightarrow> catalog_entry \<Rightarrow> dict \<Rightarrow> exn + dict" where
  "process_record env ce rec =
     (case transform env rec (schema ce) of
        Inl e \<Rightarrow> Inl e
      | Inr r1 \<Rightarrow> fix_record_anytype r1 (schema ce))"

text \<open>The message line 117 (and 60) writes for an emitted record.\<close>

abbreviation record_message :: "'ts env \<Rightarrow> catalog_entry \<Rightarrow> pyval \<Rightarrow> dict \<Rightarrow> 'ts message" where
  "record_message env ce version r \<equiv> RecordMessage (stream_name ce) r version (start_time env)"

text \<open>
  One record through lines 57--66 (and 114--123): the counter is incremented first, so
  a record that fails the transformer or the repair is counted but not emitted.
\<close>

definition emit_record ::
  "'ts env \<Rightarrow> catalog_entry \<Rightarrow> pyval \<Rightarrow> dict \<Rightarrow> 'ts pass \<Rightarrow> (exn, dict, 'ts pass) exc" where
  "emit_record env ce version rec p =
     (let p1 = p\<lparr>count := Suc (count p)\<rparr> in
      case process_record env ce rec of
        Inl e \<Rightarrow> (Inl e, p1)
      | Inr r \<Rightarrow> (Inr r, write_message (RecordMessage (stream_name ce) r version (start_time env)) p1))"

text \<open>
  \<open>replication_key and singer_utils.strptime_with_tz(rec[replication_key])\<close>: no
  value when the stream has no key, else the key, the raw field value and its parse. A missing
  field raises \<open>KeyError\<close>, a null or unparsable one raises.
\<close>

definition replication_key_value ::
  "'ts env \<Rightarrow> catalog_entry \<Rightarrow> dict \<Rightarrow> exn + (string \<times> pyval \<times> 'ts) option" where
  "replication_key_value env ce rec =
     (case rep_key ce of
        None \<Rightarrow> Inr None
      | Some k \<Rightarrow> (case map_of rec k of
          None \<Rightarrow> Inl (raise KeyError k)
        | Some v \<Rightarrow> (case parse_ts env v of Inl e \<Rightarrow> Inl e | Inr t \<Rightarrow> Inr (Some (k, v, t)))))"

text \<open>A record the pipeline accepts: it transforms and repairs, and the replication-key
  value of the result, when the stream has a key, is present and parses.\<close>

definition record_ok :: "'ts env \<Rightarrow> catalog_entry \<Rightarrow> dict \<Rightarrow> bool" where
  "record_ok env ce r \<longleftrightarrow>
     (case process_record env ce r of
        Inl _ \<Rightarrow> False
      | Inr r' \<Rightarrow> (case replication_key_value env ce r' of Inl _ \<Rightarrow> False | Inr _ \<Rightarrow> True))"

subsection \<open>Facts shared by the drivers\<close>

lemma emit_record_Inr:
  "emit_record env ce version rec p = (Inr r, p') \<longleftrightarrow>
     process_record env ce rec = Inr r \<and>
        p' = p\<lparr>count := Suc (count p), out := out p @ [RecordMessage (stream_name ce) r version (start_time env)]\<rparr>"
  by (auto simp: emit_record_def Let_def write_message_def split: sum.splits)

lemma emit_record_Inl:
  "emit_record env ce version rec p = (Inl e, p') \<Longrightarrow> p' = p\<lparr>count := Suc (count p)\<rparr>"
  by (auto simp: emit_record_def Let_def write_message_def split: sum.splits)

lemma emit_record_bm [simp]: "bm (snd (emit_record env ce version rec p)) = bm p"
  by (simp add: emit_record_def Let_def write_message_def split: sum.splits)

lemma emit_record_count [simp]: "count (snd (emit_record env ce version rec p)) = Suc (count p)"
  by (simp add: emit_record_def Let_def write_message_def split: sum.splits)

lemma replication_key_value_Some:
  "replication_key_value env ce rec = Inr (Some (k, v, t)) \<Longrightarrow>
     \<exists>s. rep_key ce = Some k \<and> map_of rec k = Some v \<and> v = VStr s \<and> strptime_with_tz env s = Some t"
  by (auto simp: replication_key_value_def parse_ts_def split: option.splits sum.splits pyval.splits)

lemma parse_ts_Inr: "parse_ts env v = Inr t \<Longrightarrow> \<exists>s. v = VStr s \<and> strptime_with_tz env s = Some t"
  by (auto simp: parse_ts_def split: pyval.splits option.splits)

lemma replication_key_value_no_key [simp]:
  "rep_key ce = None \<Longrightarrow> replication_key_value env ce rec = Inr None"
  by (simp add: replication_key_value_def)

declare stream_name_def [eval_defs] rep_key_def [eval_defs] get_start_date_def [eval_defs]
  parse_ts_def [eval_defs] process_record_def [eval_defs] emit_record_def [eval_defs] replication_key_value_def [eval_defs]
  record_ok_def [eval_defs]

end
