(* ===== verification/StreamVersion.thy ===== *)
theory StreamVersion
  imports SyncEnv
begin

text \<open>
  The Stream Version Assigner, \<open>get_stream_version\<close> (\<open>sync.py\<close> lines 30--38). A
  stream with a replication key keeps the version bookmarked for it, if any, so that a
  resumed pass tags its records with the same version; otherwise, and always for a
  stream without a key, the version is the wall clock in milliseconds. The assigner
  never writes the version bookmark; only the end of a keyless pass touches it
  (\<open>SyncRecords\<close>).
\<close>

definition get_stream_version :: "'ts env \<Rightarrow> catalog_entry \<Rightarrow> bookmarks \<Rightarrow> pyval" where
  "get_stream_version env ce st =
     (let stream_version =
            (let b = get_bookmark st (tap_stream_id ce) ''version''
             in if truthy b then b else VInt (now_ms env))
      in if rep_key ce \<noteq> None then stream_version else VInt (now_ms env))"

declare get_stream_version_def [eval_defs]

subsection \<open>Properties of the assigner\<close>

text \<open>C23: for a stream with a replication key and an integer version \<open>v\<close> in its
  bookmarks, the pass reuses \<open>v\<close> whatever the clock says, except that the version
  \<open>0\<close>, being falsy for \<open>or\<close>, is replaced by the clock; a stream without a key always
  gets the clock.\<close>

theorem get_stream_version_keyed:
  assumes "get_bookmark st (tap_stream_id ce) ''version'' = VInt v"
  shows "get_stream_version env ce st =
    (if rep_key ce \<noteq> None \<and> v \<noteq> 0 then VInt v else VInt (now_ms env))"
  using assms by (simp add: get_stream_version_def)

end
