(* ===== verification/SyncRecords.thy ===== *)
theory SyncRecords
  imports StreamVersion
begin

text \<open>
  The Simple Sync Driver, \<open>sync_records\<close> (\<open>sync.py\<close> lines 99--161): one pass over the
  records of \<open>sf.query\<close>. Each record is counted, transformed, repaired and emitted;
  then its replication-key value decides the bookmark update (lines 125--145):
  \<^item> with \<open>sf.pk_chunking\<close> set, a value at or before the pass start and after the
    highest one seen so far becomes the new high-watermark, written as
    \<open>JobHighestBookmarkSeen\<close> and flushed;
  \<^item> otherwise a value at or before the pass start is written as the cursor bookmark
    under the replication key, and flushed.
  At the end (lines 147--161) a stream without a key gets an \<open>ACTIVATE_VERSION\<close>
  message and its version bookmark cleared; a chunked pass then evaluates
  \<open>singer_utils.strptime(chunked_bookmark)\<close> on a \<open>datetime\<close>, which raises
  \<open>TypeError\<close> before the watermark is written as the cursor.
\<close>

definition JHBS :: string where
  "JHBS = ''JobHighestBookmarkSeen''"

text \<open>Lines 127--145, given the replication-key value of the emitted record and the
  highest chunked bookmark seen so far; the result is the new chunked bookmark.\<close>

definition sync_record_bookmark ::
  "'ts::linorder env \<Rightarrow> catalog_entry \<Rightarrow> (string \<times> pyval \<times> 'ts) option \<Rightarrow> 'ts \<Rightarrow> 'ts pass \<Rightarrow> 'ts \<times> 'ts pass" where
  "sync_record_bookmark env ce rkv chunked_bookmark p =
     (case rkv of
        None \<Rightarrow> (chunked_bookmark, p)
      | Some (k, v, t) \<Rightarrow>
          (if pk_chunking env then
             (if t \<le> start_time env \<and> chunked_bookmark < t then
                (t, write_state (set_bookmark (tap_stream_id ce) JHBS (VStr (strftime env t)) p))
              else (chunked_bookmark, p))
           else if t \<le> start_time env then
             (chunked_bookmark, write_state (set_bookmark (tap_stream_id ce) k v p))
           else (chunked_bookmark, p)))"

text \<open>One iteration of the loop of line 113.\<close>

definition sync_record_step ::
  "'ts::linorder env \<Rightarrow> catalog_entry \<Rightarrow> pyval \<Rightarrow> 'ts \<Rightarrow> dict \<Rightarrow> 'ts pass \<Rightarrow> (exn, 'ts, 'ts pass) exc" where
  "sync_record_step env ce version chunked_bookmark rec p =
     exc_bind (emit_record env ce version rec p) (\<lambda>r p1.
       case replication_key_value env ce r of
         Inl e \<Rightarrow> (Inl e, p1)
       | Inr rkv \<Rightarrow> (let (cb, p2) = sync_record_bookmark env ce rkv chunked_bookmark p1 in (Inr cb, p2)))"

fun sync_loop ::
  "'ts::linorder env \<Rightarrow> catalog_entry \<Rightarrow> pyval \<Rightarrow> dict list \<Rightarrow> 'ts \<Rightarrow> 'ts pass \<Rightarrow> (exn, 'ts, 'ts pass) exc" where
  "sync_loop env ce version [] chunked_bookmark p = (Inr chunked_bookmark, p)"
| "sync_loop env ce version (rec # recs) chunked_bookmark p =
     exc_bind (sync_record_step env ce version chunked_bookmark rec p)
       (\<lambda>cb p'. sync_loop env ce version recs cb p')"

text \<open>Lines 147--161, after the loop. \<open>singer_utils.strptime\<close> is
  \<open>datetime.strptime(dtime, DATETIME_PARSE)\<close>, which rejects a \<open>datetime\<close> argument.\<close>

definition sync_records_finish ::
  "'ts env \<Rightarrow> catalog_entry \<Rightarrow> pyval \<Rightarrow> 'ts pass \<Rightarrow> (exn, unit, 'ts pass) exc" where
  "sync_records_finish env ce version p =
     (let p1 = (if rep_key ce = None then
                  set_bookmark (tap_stream_id ce) ''version'' VNull
                    (write_message (ActivateVersionMessage (stream_name ce) version) p)
                else p)
      in if pk_chunking env then
           (Inl (raise TypeError ''strptime() argument 1 must be str, not datetime.datetime''), p1)
         else (Inr (), p1))"

definition sync_records :: "'ts::linorder env \<Rightarrow> catalog_entry \<Rightarrow> 'ts pass \<Rightarrow> (exn, unit, 'ts pass) exc" where
  "sync_records env ce p =
     (case parse_ts env (get_start_date env (bm p) ce) of
        Inl e \<Rightarrow> (Inl e, p)
      | Inr chunked_bookmark \<Rightarrow>
          (let version = get_stream_version env ce (bm p);
               (recs, failure) = query env (bm p)
           in exc_bind (sync_loop env ce version recs chunked_bookmark p) (\<lambda>cb p'.
                case failure of
                  Some e \<Rightarrow> (Inl e, p')
                | None \<Rightarrow> sync_records_finish env ce version p')))"

subsection \<open>What the driver promises\<close>

text \<open>
  The cursor a record vouches for: its replication-key value, when that is a string
  that parses to an instant at or before the pass start. A flush is backed when the
  cursor it persists is the cursor the pass started from or the value vouched for by a
  record already emitted before it; a pass is backed when every flush it wrote and its
  current state are.
\<close>

definition cursor_value :: "'ts::linorder env \<Rightarrow> string \<Rightarrow> dict \<Rightarrow> pyval option" where
  "cursor_value env k r =
     (case map_of r k of
        Some (VStr s) \<Rightarrow> (case strptime_with_tz env s of
                            Some t \<Rightarrow> if t \<le> start_time env then Some (VStr s) else None
                          | None \<Rightarrow> None)
      | _ \<Rightarrow> None)"

definition cursor_backed ::
  "'ts::linorder env \<Rightarrow> catalog_entry \<Rightarrow> string \<Rightarrow> pyval \<Rightarrow> 'ts message list \<Rightarrow> bookmarks \<Rightarrow> bool" where
  "cursor_backed env ce k c0 ms b \<longleftrightarrow>
     get_bookmark b (tap_stream_id ce) k \<in> set (c0 # List.map_filter (cursor_value env k) (records_of ms))"

definition flushes_backed ::
  "'ts::linorder env \<Rightarrow> catalog_entry \<Rightarrow> string \<Rightarrow> pyval \<Rightarrow> 'ts message list \<Rightarrow> bool" where
  "flushes_backed env ce k c0 ms \<longleftrightarrow>
     (\<forall>i < length ms. \<forall>b. ms ! i = StateMessage b \<longrightarrow> cursor_backed env ce k c0 (take i ms) b)"

definition pass_backed :: "'ts::linorder env \<Rightarrow> catalog_entry \<Rightarrow> string \<Rightarrow> pyval \<Rightarrow> 'ts pass \<Rightarrow> bool" where
  "pass_backed env ce k c0 p \<longleftrightarrow> flushes_backed env ce k c0 (out p) \<and> cursor_backed env ce k c0 (out p) (bm p)"

text \<open>The instant a record's cursor value stands for.\<close>

definition cursor_instant :: "'ts::linorder env \<Rightarrow> string \<Rightarrow> dict \<Rightarrow> 'ts option" where
  "cursor_instant env k r =
     (case cursor_value env k r of Some (VStr s) \<Rightarrow> strptime_with_tz env s | _ \<Rightarrow> None)"

declare JHBS_def [eval_defs] sync_record_bookmark_def [eval_defs] sync_record_step_def [eval_defs]
  sync_records_finish_def [eval_defs] sync_records_def [eval_defs] cursor_instant_def [eval_defs]


subsection \<open>Steps of the loop\<close>

lemma sync_record_step_Inr:
  "sync_record_step env ce version cb rec p = (Inr cb', p') \<longleftrightarrow>
     (\<exists>r rkv. process_record env ce rec = Inr r \<and> replication_key_value env ce r = Inr rkv \<and>
        sync_record_bookmark env ce rkv cb
          (p\<lparr>count := Suc (count p), out := out p @ [RecordMessage (stream_name ce) r version (start_time env)]\<rparr>)
        = (cb', p'))"
proof (cases "process_record env ce rec")
  case (Inl e)
  then show ?thesis by (simp add: sync_record_step_def emit_record_def)
next
  case (Inr r)
  then show ?thesis
    by (cases "replication_key_value env ce r")
       (auto simp: sync_record_step_def emit_record_def write_message_def split: prod.splits)
qed

lemma sync_record_step_Inl:
  assumes "sync_record_step env ce version cb rec p = (Inl e, p')"
  shows "p' = p\<lparr>count := Suc (count p)\<rparr> \<or>
     (\<exists>r. process_record env ce rec = Inr r \<and>
        p' = p\<lparr>count := Suc (count p), out := out p @ [RecordMessage (stream_name ce) r version (start_time env)]\<rparr>)"
proof (cases "process_record env ce rec")
  case (Inl e')
  with assms show ?thesis by (simp add: sync_record_step_def emit_record_def)
next
  case (Inr r)
  with assms show ?thesis
    by (cases "replication_key_value env ce r")
       (auto simp: sync_record_step_def emit_record_def write_message_def split: prod.splits)
qed

lemma sync_record_bookmark_cases:
  assumes "sync_record_bookmark env ce rkv cb p = (cb', p')"
  shows "(cb' = cb \<and> p' = p) \<or>
    (\<exists>k v t. rkv = Some (k, v, t) \<and> t \<le> start_time env \<and>
      (if pk_chunking env
       then cb < t \<and> cb' = t \<and> p' = write_state (set_bookmark (tap_stream_id ce) JHBS (VStr (strftime env t)) p)
       else cb' = cb \<and> p' = write_state (set_bookmark (tap_stream_id ce) k v p)))"
  using assms by (auto simp: sync_record_bookmark_def split: option.splits if_splits)

lemma sync_record_bookmark_frame:
  assumes "sync_record_bookmark env ce rkv cb p = (cb', p')"
  shows "count p' = count p \<and> (out p' = out p \<or> out p' = out p @ [StateMessage (bm p')])"
  using sync_record_bookmark_cases [OF assms] by (auto split: if_splits)

lemma sync_record_step_Inr_out:
  assumes "sync_record_step env ce version cb rec p = (Inr cb', p')"
  obtains r where "process_record env ce rec = Inr r"
    and "out p' = out p @ [RecordMessage (stream_name ce) r version (start_time env)] \<or>
         out p' = out p @ [RecordMessage (stream_name ce) r version (start_time env), StateMessage (bm p')]"
    and "count p' = Suc (count p)"
  using assms by (auto simp: sync_record_step_Inr dest!: sync_record_bookmark_frame)

lemma sync_loop_out_prefix:
  "sync_loop env ce version recs cb p = (res, p') \<Longrightarrow> \<exists>ms. out p' = out p @ ms"
proof (induction recs arbitrary: cb p)
  case Nil
  then show ?case by simp
next
  case (Cons r rs)
  show ?case
  proof (cases "sync_record_step env ce version cb r p")
    case (Pair res1 p1)
    show ?thesis
    proof (cases res1)
      case (Inl e)
      with Pair Cons.prems show ?thesis
        by (auto dest!: sync_record_step_Inl)
    next
      case (Inr cb1)
      with Pair Cons.prems have "sync_loop env ce version rs cb1 p1 = (res, p')" by simp
      then obtain ms where "out p' = out p1 @ ms" using Cons.IH by blast
      moreover from Pair Inr obtain ms1 where "out p1 = out p @ ms1"
        by (auto elim!: sync_record_step_Inr_out)
      ultimately show ?thesis by auto
    qed
  qed
qed

lemma sync_loop_Inr_records:
  "sync_loop env ce version recs cb p = (Inr cb', p') \<Longrightarrow>
     \<exists>ms. out p' = out p @ ms \<and> map Inr (records_of ms) = map (process_record env ce) recs \<and>
        count p' = count p + length recs"
proof (induction recs arbitrary: cb p)
  case Nil
  then show ?case by simp
next
  case (Cons r rs)
  from Cons.prems obtain cb1 p1 where
    step: "sync_record_step env ce version cb r p = (Inr cb1, p1)" and
    rest: "sync_loop env ce version rs cb1 p1 = (Inr cb', p')"
    by (auto simp: exc_bind_Inr_iff)
  from rest obtain ms where "out p' = out p1 @ ms"
    and "map Inr (records_of ms) = map (process_record env ce) rs" and "count p' = count p1 + length rs"
    using Cons.IH by blast
  moreover from step obtain r' where "process_record env ce r = Inr r'"
    and "out p1 = out p @ [RecordMessage (stream_name ce) r' version (start_time env)] \<or>
         out p1 = out p @ [RecordMessage (stream_name ce) r' version (start_time env), StateMessage (bm p1)]"
    and "count p1 = Suc (count p)"
    by (rule sync_record_step_Inr_out)
  ultimately show ?case by auto
qed

lemma replication_key_value_cursor:
  assumes "replication_key_value env ce r = Inr rkv" and "rep_key ce = Some k"
  obtains v t where "rkv = Some (k, v, t)" and "map_of r k = Some v"
    and "cursor_value env k r = (if t \<le> start_time env then Some v else None)"
  using assms
  by (auto simp: replication_key_value_def parse_ts_def cursor_value_def
           split: option.splits sum.splits pyval.splits)

lemma sync_record_step_cursor:
  assumes "\<not> pk_chunking env" and "rep_key ce = Some k"
    and "sync_record_step env ce version cb rec p = (Inr cb', p')"
  shows "\<exists>ms. out p' = out p @ ms \<and>
    get_bookmark (bm p') (tap_stream_id ce) k =
      last (get_bookmark (bm p) (tap_stream_id ce) k # List.map_filter (cursor_value env k) (records_of ms))"
proof -
  from assms(3) obtain r rkv where pr: "process_record env ce rec = Inr r"
    and rk: "replication_key_value env ce r = Inr rkv"
    and bk: "sync_record_bookmark env ce rkv cb
          (p\<lparr>count := Suc (count p), out := out p @ [RecordMessage (stream_name ce) r version (start_time env)]\<rparr>)
        = (cb', p')"
    by (auto simp: sync_record_step_Inr)
  from rk assms(2) obtain v t where "rkv = Some (k, v, t)"
    and "cursor_value env k r = (if t \<le> start_time env then Some v else None)"
    by (rule replication_key_value_cursor)
  with bk assms(1) show ?thesis
    by (auto simp: sync_record_bookmark_def split: if_splits)
qed

lemma sync_loop_cursor:
  assumes "\<not> pk_chunking env" and "rep_key ce = Some k"
  shows "sync_loop env ce version recs cb p = (Inr cb', p') \<Longrightarrow> \<exists>ms. out p' = out p @ ms \<and>
    get_bookmark (bm p') (tap_stream_id ce) k =
      last (get_bookmark (bm p) (tap_stream_id ce) k # List.map_filter (cursor_value env k) (records_of ms))"
proof (induction recs arbitrary: cb p)
  case Nil
  then show ?case by simp
next
  case (Cons r rs)
  from Cons.prems obtain cb1 p1 where
    step: "sync_record_step env ce version cb r p = (Inr cb1, p1)" and
    rest: "sync_loop env ce version rs cb1 p1 = (Inr cb', p')"
    by (auto simp: exc_bind_Inr_iff)
  from sync_record_step_cursor [OF assms step] Cons.IH [OF rest] show ?case
    by (auto simp: last_Cons_append [symmetric])
qed

lemma cursor_backed_mono:
  "cursor_backed env ce k c0 ms b \<Longrightarrow> cursor_backed env ce k c0 (ms @ ms') b"
  by (auto simp: cursor_backed_def)

lemma flushes_backed_Nil [simp]: "flushes_backed env ce k c0 []"
  by (simp add: flushes_backed_def)

lemma flushes_backed_snoc:
  "flushes_backed env ce k c0 (ms @ [m]) \<longleftrightarrow>
     flushes_backed env ce k c0 ms \<and> (\<forall>b. m = StateMessage b \<longrightarrow> cursor_backed env ce k c0 ms b)"
  by (auto simp: flushes_backed_def nth_append less_Suc_eq)

lemma flushes_backed_record_state:
  assumes "flushes_backed env ce k c0 ms" and "cursor_backed env ce k c0 (ms @ [RecordMessage s r v t]) b"
  shows "flushes_backed env ce k c0 (ms @ [RecordMessage s r v t, StateMessage b])"
  using assms flushes_backed_snoc [of env ce k c0 "ms @ [RecordMessage s r v t]"] by (simp add: flushes_backed_snoc)

lemma sync_record_step_backed:
  assumes "rep_key ce = Some k" and "k \<noteq> JHBS" and "pass_backed env ce k c0 p"
    and "sync_record_step env ce version cb rec p = (res, p')"
  shows "pass_backed env ce k c0 p'"
proof (cases res)
  case (Inl e)
  with assms(3,4) show ?thesis
    by (auto simp: pass_backed_def flushes_backed_snoc dest!: sync_record_step_Inl intro: cursor_backed_mono)
next
  case (Inr cb')
  with assms(4) obtain r rkv where pr: "process_record env ce rec = Inr r"
    and rk: "replication_key_value env ce r = Inr rkv"
    and bk: "sync_record_bookmark env ce rkv cb
          (p\<lparr>count := Suc (count p), out := out p @ [RecordMessage (stream_name ce) r version (start_time env)]\<rparr>)
        = (cb', p')"
    by (auto simp: sync_record_step_Inr)
  from rk assms(1) obtain v t where "rkv = Some (k, v, t)"
    and cv: "cursor_value env k r = (if t \<le> start_time env then Some v else None)"
    by (rule replication_key_value_cursor)
  with bk assms(2,3) show ?thesis
    by (auto simp: sync_record_bookmark_def pass_backed_def cursor_backed_def get_write_bookmark flushes_backed_snoc
             intro!: flushes_backed_record_state split: if_splits)
qed

lemma sync_loop_backed:
  assumes "rep_key ce = Some k" and "k \<noteq> JHBS"
  shows "pass_backed env ce k c0 p \<Longrightarrow> sync_loop env ce version recs cb p = (res, p') \<Longrightarrow>
    pass_backed env ce k c0 p'"
proof (induction recs arbitrary: cb p)
  case Nil
  then show ?case by simp
next
  case (Cons r rs)
  obtain res1 p1 where step: "sync_record_step env ce version cb r p = (res1, p1)"
    by fastforce
  from assms Cons.prems(1) step have "pass_backed env ce k c0 p1"
    by (rule sync_record_step_backed)
  with Cons step show ?case
    by (cases res1) auto
qed

lemma sync_record_step_chunked:
  assumes "pk_chunking env" and "sync_record_step env ce version cb rec p = (res, p')"
  shows "\<exists>ms. out p' = out p @ ms \<and>
    (\<forall>sid k. (sid, k) \<noteq> (tap_stream_id ce, JHBS) \<longrightarrow> get_bookmark (bm p') sid k = get_bookmark (bm p) sid k) \<and>
    (\<forall>b \<in> set (states_of ms). b = bm p') \<and>
    (case res of
       Inl e \<Rightarrow> states_of ms = []
     | Inr c \<Rightarrow> (states_of ms = [] \<and> c = cb) \<or>
         (states_of ms = [bm p'] \<and> cb < c \<and> c \<le> start_time env \<and>
          get_bookmark (bm p') (tap_stream_id ce) JHBS = VStr (strftime env c)))"
proof (cases res)
  case (Inl e)
  with assms(2) show ?thesis by (auto dest!: sync_record_step_Inl)
next
  case (Inr c)
  with assms(2) obtain r rkv where
    bk: "sync_record_bookmark env ce rkv cb
          (p\<lparr>count := Suc (count p), out := out p @ [RecordMessage (stream_name ce) r version (start_time env)]\<rparr>)
        = (c, p')"
    by (auto simp: sync_record_step_Inr)
  with assms(1) Inr show ?thesis
    by (auto simp: sync_record_bookmark_def get_write_bookmark split: if_splits option.splits)
qed

lemma sync_loop_chunked:
  assumes "pk_chunking env"
  shows "sync_loop env ce version recs cb p = (res, p') \<Longrightarrow>
    \<exists>ms ts. out p' = out p @ ms \<and>
      (\<forall>sid k. (sid, k) \<noteq> (tap_stream_id ce, JHBS) \<longrightarrow> get_bookmark (bm p') sid k = get_bookmark (bm p) sid k) \<and>
      (\<forall>b \<in> set (states_of ms). \<forall>sid k. (sid, k) \<noteq> (tap_stream_id ce, JHBS) \<longrightarrow>
         get_bookmark b sid k = get_bookmark (bm p) sid k) \<and>
      map (\<lambda>b. get_bookmark b (tap_stream_id ce) JHBS) (states_of ms) = map (\<lambda>t. VStr (strftime env t)) ts \<and>
      sorted_wrt (<) (cb # ts) \<and> (\<forall>t \<in> set ts. t \<le> start_time env) \<and>
      (\<forall>c. res = Inr c \<longrightarrow> c = last (cb # ts))"
proof (induction recs arbitrary: cb p)
  case Nil
  then show ?case by (intro exI [of _ "[]"]) auto
next
  case (Cons r rs)
  obtain res1 p1 where step: "sync_record_step env ce version cb r p = (res1, p1)"
    by fastforce
  from sync_record_step_chunked [OF assms step] obtain ms1 where
    o1: "out p1 = out p @ ms1" and
    f1: "\<forall>sid k. (sid, k) \<noteq> (tap_stream_id ce, JHBS) \<longrightarrow> get_bookmark (bm p1) sid k = get_bookmark (bm p) sid k" and
    s1: "\<forall>b \<in> set (states_of ms1). b = bm p1" and
    w1: "case res1 of Inl e \<Rightarrow> states_of ms1 = []
         | Inr c \<Rightarrow> (states_of ms1 = [] \<and> c = cb) \<or>
             (states_of ms1 = [bm p1] \<and> cb < c \<and> c \<le> start_time env \<and>
              get_bookmark (bm p1) (tap_stream_id ce) JHBS = VStr (strftime env c))"
    by blast
  show ?case
  proof (cases res1)
    case (Inl e)
    with Cons.prems step o1 f1 s1 w1 show ?thesis
      by (intro exI [of _ ms1] exI [of _ "[]"]) auto
  next
    case (Inr c1)
    with Cons.prems step have rest: "sync_loop env ce version rs c1 p1 = (res, p')" by simp
    from Cons.IH [OF rest] obtain ms ts where
      i1: "out p' = out p1 @ ms" and
      i2: "\<forall>sid k. (sid, k) \<noteq> (tap_stream_id ce, JHBS) \<longrightarrow> get_bookmark (bm p') sid k = get_bookmark (bm p1) sid k" and
      i3: "\<forall>b \<in> set (states_of ms). \<forall>sid k. (sid, k) \<noteq> (tap_stream_id ce, JHBS) \<longrightarrow>
         get_bookmark b sid k = get_bookmark (bm p1) sid k" and
      i4: "map (\<lambda>b. get_bookmark b (tap_stream_id ce) JHBS) (states_of ms) = map (\<lambda>t. VStr (strftime env t)) ts" and
      i5: "sorted_wrt (<) (c1 # ts)" and i6: "\<forall>t \<in> set ts. t \<le> start_time env" and
      i7: "\<forall>c. res = Inr c \<longrightarrow> c = last (c1 # ts)"
      by blast
    from w1 Inr consider (same) "states_of ms1 = []" "c1 = cb"
      | (adv) "states_of ms1 = [bm p1]" "cb < c1" "c1 \<le> start_time env"
          "get_bookmark (bm p1) (tap_stream_id ce) JHBS = VStr (strftime env c1)"
      by auto
    then show ?thesis
    proof cases
      case same
      with o1 f1 i1 i2 i3 i4 i5 i6 i7 show ?thesis
        by (intro exI [of _ "ms1 @ ms"] exI [of _ ts]) auto
    next
      case adv
      with i5 have "sorted_wrt (<) (cb # c1 # ts)"
        by (auto intro: less_trans)
      with adv o1 f1 i1 i2 i3 i4 i6 i7 show ?thesis
        by (intro exI [of _ "ms1 @ ms"] exI [of _ "c1 # ts"]) auto
    qed
  qed
qed

subsection \<open>Properties of a pass\<close>

lemma sync_records_run:
  assumes "sync_records env ce p = (res, p')"
  obtains (start_failed) e where "parse_ts env (get_start_date env (bm p) ce) = Inl e" "res = Inl e" "p' = p"
  | (looped) cb recs failure res1 p1 where "parse_ts env (get_start_date env (bm p) ce) = Inr cb"
      "query env (bm p) = (recs, failure)"
      "sync_loop env ce (get_stream_version env ce (bm p)) recs cb p = (res1, p1)"
      "case res1 of
         Inl e \<Rightarrow> res = Inl e \<and> p' = p1
       | Inr _ \<Rightarrow> (case failure of
           Some e \<Rightarrow> res = Inl e \<and> p' = p1
         | None \<Rightarrow> sync_records_finish env ce (get_stream_version env ce (bm p)) p1 = (res, p'))"
proof (cases "parse_ts env (get_start_date env (bm p) ce)")
  case (Inl e)
  with assms show ?thesis by (intro start_failed) (auto simp: sync_records_def)
next
  case (Inr cb)
  obtain recs failure where q: "query env (bm p) = (recs, failure)" by fastforce
  obtain res1 p1 where l: "sync_loop env ce (get_stream_version env ce (bm p)) recs cb p = (res1, p1)"
    by fastforce
  from assms Inr q l show ?thesis
    by (intro looped [OF Inr q l]) (auto simp: sync_records_def split: sum.splits option.splits)
qed

lemma sync_records_finish_keyed:
  "sync_records_finish env ce version p = (res, p') \<Longrightarrow> rep_key ce \<noteq> None \<Longrightarrow> p' = p"
  by (auto simp: sync_records_finish_def split: if_splits)

lemma sync_records_finish_Inr:
  "sync_records_finish env ce version p = (Inr u, p') \<longleftrightarrow>
     \<not> pk_chunking env \<and>
     p' = (if rep_key ce = None then
             set_bookmark (tap_stream_id ce) ''version'' VNull
               (write_message (ActivateVersionMessage (stream_name ce) version) p)
           else p)"
  by (auto simp: sync_records_finish_def Let_def)

lemma sync_records_Inr:
  assumes "sync_records env ce p = (Inr u, p')"
  obtains cb recs cb' p1 where "parse_ts env (get_start_date env (bm p) ce) = Inr cb"
    "query env (bm p) = (recs, None)"
    "sync_loop env ce (get_stream_version env ce (bm p)) recs cb p = (Inr cb', p1)"
    "sync_records_finish env ce (get_stream_version env ce (bm p)) p1 = (Inr u, p')"
  using assms by (cases rule: sync_records_run) (auto split: sum.splits option.splits)

lemma sync_records_keyed_loop:
  assumes "\<not> pk_chunking env" and "rep_key ce = Some k"
    and "sync_records env ce p = (Inr (), p')"
  shows "\<exists>cb recs cb'. sync_loop env ce (get_stream_version env ce (bm p)) recs cb p = (Inr cb', p')"
proof -
  from assms(3) obtain cb recs cb' p1 where
    loop: "sync_loop env ce (get_stream_version env ce (bm p)) recs cb p = (Inr cb', p1)" and
    fin: "sync_records_finish env ce (get_stream_version env ce (bm p)) p1 = (Inr (), p')"
    by (rule sync_records_Inr)
  from fin assms(2) have "p' = p1" by (auto dest: sync_records_finish_keyed)
  with loop show ?thesis by blast
qed

lemma parse_last_cursor:
  "parse_ts env c0 = Inr t0 \<Longrightarrow>
   parse_ts env (last (c0 # List.map_filter (cursor_value env k) rs)) =
     Inr (last (t0 # List.map_filter (cursor_instant env k) rs))"
proof (induction rs arbitrary: c0 t0)
  case Nil
  then show ?case by simp
next
  case (Cons r rs)
  show ?case
  proof (cases "cursor_value env k r")
    case None
    with Cons show ?thesis by (simp add: List.map_filter_def cursor_instant_def)
  next
    case (Some v)
    then obtain s t where v: "v = VStr s" "strptime_with_tz env s = Some t"
      by (auto simp: cursor_value_def split: option.splits pyval.splits if_splits)
    with Some have "parse_ts env v = Inr t" "cursor_instant env k r = Some t"
      by (simp_all add: parse_ts_def cursor_instant_def)
    from Cons.IH [OF this(1)] Some this(2) show ?thesis
      by (simp add: List.map_filter_def)
  qed
qed

lemma sorted_last_Max: "sorted (x # xs) \<Longrightarrow> last (x # xs) = Max (set (x # xs))"
proof (induction xs arbitrary: x)
  case Nil
  then show ?case by simp
next
  case (Cons y ys)
  then have xy: "x \<le> y" and l: "last (y # ys) = Max (set (y # ys))" by simp_all
  have "y \<le> Max (set (y # ys))" by simp
  with xy have "x \<le> Max (set (y # ys))" by (rule order_trans)
  then have "Max (set (x # y # ys)) = Max (set (y # ys))" by (simp add: max_absorb2)
  with l show ?case by simp
qed

lemma sync_loop_total:
  "\<forall>r \<in> set recs. record_ok env ce r \<Longrightarrow> \<exists>cb' p'. sync_loop env ce version recs cb p = (Inr cb', p')"
proof (induction recs arbitrary: cb p)
  case Nil
  then show ?case by simp
next
  case (Cons r recs)
  then obtain r' rkv where "process_record env ce r = Inr r'" "replication_key_value env ce r' = Inr rkv"
    by (auto simp: record_ok_def split: sum.splits)
  moreover obtain c1 p1 where "sync_record_bookmark env ce rkv cb
      (p\<lparr>count := Suc (count p), out := out p @ [RecordMessage (stream_name ce) r' version (start_time env)]\<rparr>) = (c1, p1)"
    by fastforce
  ultimately have "sync_record_step env ce version cb r p = (Inr c1, p1)"
    by (auto simp: sync_record_step_Inr)
  moreover have "\<forall>r \<in> set recs. record_ok env ce r" using Cons.prems by simp
  from Cons.IH [OF this, of c1 p1] obtain cb' p' where "sync_loop env ce version recs c1 p1 = (Inr cb', p')"
    by blast
  ultimately show ?case by auto
qed

lemma sync_loop_count:
  "sync_loop env ce version recs cb p = (res, p') \<Longrightarrow>
   \<exists>ms. out p' = out p @ ms \<and> count p + length (records_of ms) \<le> count p' \<and> count p' \<le> count p + length recs"
proof (induction recs arbitrary: cb p)
  case Nil
  then show ?case by simp
next
  case (Cons r recs)
  obtain res1 p1 where step: "sync_record_step env ce version cb r p = (res1, p1)" by fastforce
  show ?case
  proof (cases res1)
    case (Inl e)
    with step Cons.prems have "sync_record_step env ce version cb r p = (Inl e, p')" by simp
    then have "p' = p\<lparr>count := Suc (count p)\<rparr> \<or>
      (\<exists>r'. p' = p\<lparr>count := Suc (count p), out := out p @ [RecordMessage (stream_name ce) r' version (start_time env)]\<rparr>)"
      by (blast dest: sync_record_step_Inl)
    then show ?thesis by (elim disjE exE) (auto intro: exI [of _ "[]"] exI [of _ "[_]"])
  next
    case (Inr c1)
    with step Cons.prems have rest: "sync_loop env ce version recs c1 p1 = (res, p')" by simp
    from step Inr obtain r' where
      o1: "out p1 = out p @ [RecordMessage (stream_name ce) r' version (start_time env)] \<or>
           out p1 = out p @ [RecordMessage (stream_name ce) r' version (start_time env), StateMessage (bm p1)]"
      and c1: "count p1 = Suc (count p)"
      by (blast elim: sync_record_step_Inr_out)
    from Cons.IH [OF rest] obtain ms where
      "out p' = out p1 @ ms" "count p1 + length (records_of ms) \<le> count p'" "count p' \<le> count p1 + length recs"
      by blast
    with o1 c1 show ?thesis by (elim disjE) (auto intro: exI [of _ "_ @ ms"])
  qed
qed

text \<open>C1: In a pass without primary-key chunking over a stream with a replication key, the cursor
  bookmark at the end of a successful pass is the value vouched for by the last emitted record
  whose cursor lies at or before the pass start, or the cursor the pass started from when no
  emitted record qualifies.\<close>

theorem sync_records_cursor_last:
  assumes "\<not> pk_chunking env" and "rep_key ce = Some k"
    and "sync_records env ce p = (Inr (), p')"
  shows "get_bookmark (bm p') (tap_stream_id ce) k =
           last (get_bookmark (bm p) (tap_stream_id ce) k #
                 List.map_filter (cursor_value env k) (records_of (drop (length (out p)) (out p'))))"
proof -
  from sync_records_keyed_loop [OF assms] obtain cb recs cb' where
    "sync_loop env ce (get_stream_version env ce (bm p)) recs cb p = (Inr cb', p')" by blast
  from sync_loop_cursor [OF assms(1,2) this] obtain ms where
    "out p' = out p @ ms" "get_bookmark (bm p') (tap_stream_id ce) k =
      last (get_bookmark (bm p) (tap_stream_id ce) k # List.map_filter (cursor_value env k) (records_of ms))"
    by blast
  then show ?thesis by simp
qed

text \<open>C31: when the records of a pass without chunking arrive in non-decreasing order of
  their eligible cursor instants, starting from the persisted cursor, the cursor the pass
  leaves is the maximum of the starting cursor and the replication-key instants at or
  before the pass start of all emitted records, as section 8 of the specification states.\<close>

theorem sync_records_cursor_max:
  assumes "\<not> pk_chunking env" and "rep_key ce = Some k"
    and "sync_records env ce p = (Inr (), p')"
    and "parse_ts env (get_bookmark (bm p) (tap_stream_id ce) k) = Inr tc"
    and "sorted (tc # List.map_filter (cursor_instant env k) (records_of (drop (length (out p)) (out p'))))"
  shows "parse_ts env (get_bookmark (bm p') (tap_stream_id ce) k) =
    Inr (Max (set (tc # List.map_filter (cursor_instant env k) (records_of (drop (length (out p)) (out p'))))))"
proof -
  from sync_records_keyed_loop [OF assms(1-3)] obtain cb recs cb' where
    "sync_loop env ce (get_stream_version env ce (bm p)) recs cb p = (Inr cb', p')" by blast
  from sync_loop_cursor [OF assms(1,2) this] obtain ms where
    "out p' = out p @ ms" "get_bookmark (bm p') (tap_stream_id ce) k =
      last (get_bookmark (bm p) (tap_stream_id ce) k # List.map_filter (cursor_value env k) (records_of ms))"
    by blast
  with parse_last_cursor [OF assms(4)] sorted_last_Max [OF assms(5)] show ?thesis by simp
qed


lemma replication_key_value_Inl_cursor:
  "replication_key_value env ce r = Inl e \<Longrightarrow> rep_key ce = Some k \<Longrightarrow> cursor_value env k r = None"
  by (auto simp: replication_key_value_def parse_ts_def cursor_value_def split: option.splits pyval.splits)

lemma sync_record_step_flushes:
  assumes "\<not> pk_chunking env" and "rep_key ce = Some k"
    and "sync_record_step env ce version cb rec p = (res, p')"
  shows "\<exists>ms. out p' = out p @ ms \<and>
    map (\<lambda>b. get_bookmark b (tap_stream_id ce) k) (states_of ms) = List.map_filter (cursor_value env k) (records_of ms)"
proof (cases "process_record env ce rec")
  case (Inl e)
  with assms(3) show ?thesis by (auto simp: sync_record_step_def emit_record_def)
next
  case (Inr r)
  show ?thesis
  proof (cases "replication_key_value env ce r")
    case (Inl e)
    with Inr assms(2,3) show ?thesis
      by (auto simp: sync_record_step_def emit_record_def write_message_def
               dest: replication_key_value_Inl_cursor)
  next
    case (Inr rkv)
    from this assms(2) obtain v t where "rkv = Some (k, v, t)"
      and "cursor_value env k r = (if t \<le> start_time env then Some v else None)"
      by (rule replication_key_value_cursor)
    with Inr \<open>process_record env ce rec = Inr r\<close> assms(1,3) show ?thesis
      by (auto simp: sync_record_step_def emit_record_def write_message_def sync_record_bookmark_def split: if_splits)
  qed
qed

lemma sync_loop_flushes:
  assumes "\<not> pk_chunking env" and "rep_key ce = Some k"
  shows "sync_loop env ce version recs cb p = (res, p') \<Longrightarrow> \<exists>ms. out p' = out p @ ms \<and>
    map (\<lambda>b. get_bookmark b (tap_stream_id ce) k) (states_of ms) = List.map_filter (cursor_value env k) (records_of ms)"
proof (induction recs arbitrary: cb p)
  case Nil
  then show ?case by simp
next
  case (Cons r rs)
  obtain res1 p1 where step: "sync_record_step env ce version cb r p = (res1, p1)" by fastforce
  from sync_record_step_flushes [OF assms step] obtain ms1 where m1: "out p1 = out p @ ms1"
    "map (\<lambda>b. get_bookmark b (tap_stream_id ce) k) (states_of ms1) = List.map_filter (cursor_value env k) (records_of ms1)"
    by blast
  show ?case
  proof (cases res1)
    case (Inl e)
    with step Cons.prems m1 show ?thesis by auto
  next
    case (Inr c)
    with step Cons.prems have "sync_loop env ce version rs c p1 = (res, p')" by simp
    from Cons.IH [OF this] m1 show ?thesis by auto
  qed
qed

text \<open>C32: in a pass without chunking over a keyed stream, whatever its outcome, the cursors
  the successive STATE messages persist are exactly the replication-key values of the
  emitted records that lie at or before the pass start, in the order the records were
  emitted: the code flushes the value of each such record as it comes, whether or not it
  is above the cursor already flushed, so the persisted cursor follows the arrival order
  and moves backwards whenever an earlier value arrives after a later one.\<close>

theorem sync_records_cursor_flushes:
  assumes "\<not> pk_chunking env" and "rep_key ce = Some k"
    and "sync_records env ce p = (res, p')"
  shows "map (\<lambda>b. get_bookmark b (tap_stream_id ce) k) (states_of (drop (length (out p)) (out p'))) =
    List.map_filter (cursor_value env k) (records_of (drop (length (out p)) (out p')))"
  using assms(3)
proof (cases rule: sync_records_run)
  case start_failed
  then show ?thesis by simp
next
  case (looped cb recs failure res1 p1)
  from sync_loop_flushes [OF assms(1,2) looped(3)] obtain ms where "out p1 = out p @ ms"
    "map (\<lambda>b. get_bookmark b (tap_stream_id ce) k) (states_of ms) = List.map_filter (cursor_value env k) (records_of ms)"
    by blast
  moreover from looped(4) assms(2) have "p' = p1"
    by (auto split: sum.splits option.splits dest: sync_records_finish_keyed)
  ultimately show ?thesis by simp
qed


lemma flushes_backed_last_state:
  assumes "flushes_backed env ce k c0 ms" and "last_state (take n ms) = Some b"
  shows "cursor_backed env ce k c0 (take n ms) b"
proof -
  from last_state_Some_nth [OF assms(2)] obtain i where
    i: "i < length (take n ms)" and m: "take n ms ! i = StateMessage b" by blast
  from i m assms(1) have "cursor_backed env ce k c0 (take i ms) b"
    by (auto simp: flushes_backed_def)
  then have "cursor_backed env ce k c0 (take i ms @ drop i (take n ms)) b"
    by (rule cursor_backed_mono)
  moreover from i have "take i (take n ms) = take i ms" by (simp add: min_def split: if_splits)
  then have "take i ms @ drop i (take n ms) = take n ms"
    by (metis append_take_drop_id)
  ultimately show ?thesis by simp
qed

text \<open>C2: Whatever the outcome of a pass over a keyed stream, at every point where the process may be
  killed, the cursor of the last STATE message written so far is the starting cursor or the
  value vouched for by a record emitted before that point: progress is never recorded for a
  record that was not delivered.\<close>

theorem sync_records_crash_safe:
  assumes "rep_key ce = Some k" and "k \<noteq> JHBS" and "out p = []"
    and "sync_records env ce p = (res, p')"
    and "last_state (take n (out p')) = Some b"
  shows "get_bookmark b (tap_stream_id ce) k \<in>
           set (get_bookmark (bm p) (tap_stream_id ce) k #
                List.map_filter (cursor_value env k) (records_of (take n (out p'))))"
proof -
  let ?c0 = "get_bookmark (bm p) (tap_stream_id ce) k"
  have init: "pass_backed env ce k ?c0 p"
    using assms(3) by (simp add: pass_backed_def cursor_backed_def)
  have "pass_backed env ce k ?c0 p'"
    using assms(4)
  proof (cases rule: sync_records_run)
    case start_failed
    with init show ?thesis by simp
  next
    case (looped cb recs failure res1 p1)
    from sync_loop_backed [OF assms(1,2) init looped(3)] have "pass_backed env ce k ?c0 p1" .
    with looped(4) assms(1) show ?thesis
      by (auto split: sum.splits option.splits dest: sync_records_finish_keyed)
  qed
  then have "flushes_backed env ce k ?c0 (out p')" by (simp add: pass_backed_def)
  from flushes_backed_last_state [OF this assms(5)] show ?thesis
    by (simp add: cursor_backed_def)
qed

lemma sync_loop_messages:
  "sync_loop env ce version recs cb p = (res, p') \<Longrightarrow>
     \<exists>ms. out p' = out p @ ms \<and>
       (\<forall>m \<in> set ms. (\<exists>r. m = RecordMessage (stream_name ce) r version (start_time env)) \<or> (\<exists>b. m = StateMessage b))"
proof (induction recs arbitrary: cb p)
  case Nil
  then show ?case by simp
next
  case (Cons r rs)
  obtain res1 p1 where step: "sync_record_step env ce version cb r p = (res1, p1)"
    by fastforce
  have "\<exists>ms. out p1 = out p @ ms \<and>
       (\<forall>m \<in> set ms. (\<exists>r. m = RecordMessage (stream_name ce) r version (start_time env)) \<or> (\<exists>b. m = StateMessage b))"
  proof (cases res1)
    case (Inl e)
    with step show ?thesis by (auto dest!: sync_record_step_Inl)
  next
    case (Inr c)
    with step show ?thesis by (auto elim!: sync_record_step_Inr_out)
  qed
  with Cons step show ?case
    by (cases res1) fastforce+
qed

text \<open>C3: In a chunked pass over a keyed stream, no bookmark field other than the high-watermark
  JobHighestBookmarkSeen of the stream changes, neither in the final state nor in any STATE
  message written during the pass: in particular the cursor is never advanced mid-pass.\<close>

theorem sync_records_chunked_frame:
  assumes "pk_chunking env" and "rep_key ce \<noteq> None"
    and "(sid, k) \<noteq> (tap_stream_id ce, JHBS)"
    and "sync_records env ce p = (res, p')"
  shows "get_bookmark (bm p') sid k = get_bookmark (bm p) sid k \<and>
    (\<forall>b \<in> set (states_of (drop (length (out p)) (out p'))). get_bookmark b sid k = get_bookmark (bm p) sid k)"
  using assms(4)
proof (cases rule: sync_records_run)
  case start_failed
  then show ?thesis by simp
next
  case (looped cb recs failure res1 p1)
  from sync_loop_chunked [OF assms(1) looped(3)] obtain ms where
    o1: "out p1 = out p @ ms" and
    f1: "\<forall>sid k. (sid, k) \<noteq> (tap_stream_id ce, JHBS) \<longrightarrow> get_bookmark (bm p1) sid k = get_bookmark (bm p) sid k" and
    f2: "\<forall>b \<in> set (states_of ms). \<forall>sid k. (sid, k) \<noteq> (tap_stream_id ce, JHBS) \<longrightarrow>
         get_bookmark b sid k = get_bookmark (bm p) sid k"
    by (elim exE conjE) (rule that)
  have "p' = p1"
  proof (cases res1)
    case (Inl e)
    with looped(4) show ?thesis by simp
  next
    case (Inr c)
    with looped(4) assms(2) show ?thesis
      by (cases failure) (auto dest: sync_records_finish_keyed)
  qed
  with o1 f1 f2 assms(3) show ?thesis by simp
qed

text \<open>C4: In a chunked pass, the watermarks flushed in successive STATE messages are the formatted
  forms of strictly increasing instants, all after the seed the pass started from and none
  after the pass start.\<close>

theorem sync_records_chunked_watermark:
  assumes "pk_chunking env"
    and "parse_ts env (get_start_date env (bm p) ce) = Inr seed"
    and "sync_records env ce p = (res, p')"
  shows "\<exists>ts. map (\<lambda>b. get_bookmark b (tap_stream_id ce) JHBS) (states_of (drop (length (out p)) (out p')))
              = map (\<lambda>t. VStr (strftime env t)) ts \<and>
            sorted_wrt (<) (seed # ts) \<and> (\<forall>t \<in> set ts. t \<le> start_time env)"
  using assms(3)
proof (cases rule: sync_records_run)
  case start_failed
  with assms(2) show ?thesis by simp
next
  case (looped cb recs failure res1 p1)
  with assms(2) have "cb = seed" by simp
  with looped(3) have loop: "sync_loop env ce (get_stream_version env ce (bm p)) recs seed p = (res1, p1)"
    by simp
  from sync_loop_chunked [OF assms(1) loop] obtain ms ts where
    o1: "out p1 = out p @ ms" and
    w: "map (\<lambda>b. get_bookmark b (tap_stream_id ce) JHBS) (states_of ms) = map (\<lambda>t. VStr (strftime env t)) ts"
    and s1: "sorted_wrt (<) (seed # ts)" and s2: "\<forall>t \<in> set ts. t \<le> start_time env"
    by (elim exE conjE) (rule that)
  from looped(4) have "out p' = out p1 \<or> (\<exists>m. out p' = out p1 @ [ActivateVersionMessage (stream_name ce) m])"
    by (auto simp: sync_records_finish_def Let_def split: sum.splits option.splits if_splits)
  with o1 have st: "states_of (drop (length (out p)) (out p')) = states_of ms"
    by (elim disjE exE) simp_all
  show ?thesis unfolding st using w s1 s2 by blast
qed

text \<open>C5: A chunked pass never completes normally: after its loop, line 161 calls
  singer_utils.strptime on a datetime and raises, so the watermark is never promoted to the
  cursor by sync_records.\<close>

theorem sync_records_chunked_never_completes:
  assumes "pk_chunking env"
  shows "fst (sync_records env ce p) \<noteq> Inr ()"
proof
  assume "fst (sync_records env ce p) = Inr ()"
  then obtain p' where "sync_records env ce p = (Inr (), p')"
    by (metis prod.collapse)
  then obtain p1 where "sync_records_finish env ce (get_stream_version env ce (bm p)) p1 = (Inr (), p')"
    by (rule sync_records_Inr)
  with assms show False by (simp add: sync_records_finish_Inr)
qed

lemma sync_records_Inr_loop:
  assumes "sync_records env ce p = (Inr (), p')"
  obtains cb' p1 where
    "sync_loop env ce (get_stream_version env ce (bm p)) (fst (query env (bm p)))
        (projr (parse_ts env (get_start_date env (bm p) ce))) p = (Inr cb', p1)"
    "\<not> pk_chunking env"
    "p' = (if rep_key ce = None then
             set_bookmark (tap_stream_id ce) ''version'' VNull
               (write_message (ActivateVersionMessage (stream_name ce) (get_stream_version env ce (bm p))) p1)
           else p1)"
proof -
  from assms obtain cb recs cb' p1 where
    "parse_ts env (get_start_date env (bm p) ce) = Inr cb" "query env (bm p) = (recs, None)"
    "sync_loop env ce (get_stream_version env ce (bm p)) recs cb p = (Inr cb', p1)"
    "sync_records_finish env ce (get_stream_version env ce (bm p)) p1 = (Inr (), p')"
    by (rule sync_records_Inr)
  with that show ?thesis by (simp add: sync_records_finish_Inr)
qed

lemma sync_records_Inr_records:
  assumes "sync_records env ce p = (Inr (), p')"
  shows "count p' = count p + length (fst (query env (bm p))) \<and> length (out p) \<le> length (out p') \<and>
    map Inr (records_of (drop (length (out p)) (out p'))) = map (process_record env ce) (fst (query env (bm p)))"
proof -
  from assms obtain cb' p1 where
    loop: "sync_loop env ce (get_stream_version env ce (bm p)) (fst (query env (bm p)))
        (projr (parse_ts env (get_start_date env (bm p) ce))) p = (Inr cb', p1)" and
    fin: "p' = (if rep_key ce = None then
             set_bookmark (tap_stream_id ce) ''version'' VNull
               (write_message (ActivateVersionMessage (stream_name ce) (get_stream_version env ce (bm p))) p1)
           else p1)"
    by (rule sync_records_Inr_loop)
  from sync_loop_Inr_records [OF loop] fin show ?thesis by auto
qed

text \<open>C7: A successful pass increments the record counter once per record the query yields.\<close>

theorem sync_records_count:
  assumes "sync_records env ce p = (Inr (), p')"
  shows "count p' = count p + length (fst (query env (bm p)))"
  using sync_records_Inr_records [OF assms] by simp

text \<open>C6: A successful pass emits, in order and exactly once, the transformed and repaired form of
  every record the query yields.\<close>

theorem sync_records_emits_processed:
  assumes "sync_records env ce p = (Inr (), p')"
  shows "map Inr (records_of (drop (length (out p)) (out p'))) = map (process_record env ce) (fst (query env (bm p)))"
  using sync_records_Inr_records [OF assms] by simp

text \<open>C8: Every record message a pass writes is tagged with the stream's name, the version assigned
  for the pass and the pass start time.\<close>

theorem sync_records_tags:
  assumes "sync_records env ce p = (res, p')"
    and "RecordMessage s r v t \<in> set (drop (length (out p)) (out p'))"
  shows "s = stream_name ce \<and> v = get_stream_version env ce (bm p) \<and> t = start_time env"
  using assms(1)
proof (cases rule: sync_records_run)
  case start_failed
  with assms(2) show ?thesis by simp
next
  case (looped cb recs failure res1 p1)
  from sync_loop_messages [OF looped(3)] obtain ms where o1: "out p1 = out p @ ms" and
    ms: "\<forall>m \<in> set ms. (\<exists>r. m = RecordMessage (stream_name ce) r (get_stream_version env ce (bm p)) (start_time env))
              \<or> (\<exists>b. m = StateMessage b)"
    by (elim exE conjE) (rule that)
  from looped(4) have "out p' = out p1 \<or> (\<exists>m. out p' = out p1 @ [ActivateVersionMessage (stream_name ce) m])"
    by (auto simp: sync_records_finish_def Let_def split: sum.splits option.splits if_splits)
  with o1 have "drop (length (out p)) (out p') = ms \<or>
      (\<exists>m. drop (length (out p)) (out p') = ms @ [ActivateVersionMessage (stream_name ce) m])"
    by auto
  with assms(2) have "RecordMessage s r v t \<in> set ms" by auto
  from ms [rule_format, OF this] show ?thesis by simp
qed

lemma sync_loop_keyless:
  "rep_key ce = None \<Longrightarrow> sync_loop env ce version recs cb p = (Inr cb', p') \<Longrightarrow>
     \<exists>rs. out p' = out p @ map (record_message env ce version) rs \<and> bm p' = bm p"
proof (induction recs arbitrary: cb p)
  case Nil
  then show ?case by (intro exI [of _ "[]"]) simp
next
  case (Cons r0 rs0)
  from Cons.prems(2) obtain c1 p1 where
    step: "sync_record_step env ce version cb r0 p = (Inr c1, p1)" and
    rest: "sync_loop env ce version rs0 c1 p1 = (Inr cb', p')"
    by (auto simp: exc_bind_Inr_iff)
  from step Cons.prems(1) obtain r where
    p1: "p1 = p\<lparr>count := Suc (count p), out := out p @ [record_message env ce version r]\<rparr>"
    by (auto simp: sync_record_step_Inr sync_record_bookmark_def)
  from Cons.IH [OF Cons.prems(1) rest] p1 show ?case
    by (auto intro: exI [of _ "r # _"])
qed

lemma sync_records_keyless_Inr:
  assumes "rep_key ce = None" and "sync_records env ce p = (Inr (), p')"
  shows "\<exists>rs. out p' = out p @ map (record_message env ce (VInt (now_ms env))) rs @
             [ActivateVersionMessage (stream_name ce) (VInt (now_ms env))] \<and>
           get_bookmark (bm p') (tap_stream_id ce) ''version'' = VNull"
proof -
  from assms(2) obtain cb' p1 where
    loop: "sync_loop env ce (get_stream_version env ce (bm p)) (fst (query env (bm p)))
        (projr (parse_ts env (get_start_date env (bm p) ce))) p = (Inr cb', p1)" and
    fin: "p' = (if rep_key ce = None then
             set_bookmark (tap_stream_id ce) ''version'' VNull
               (write_message (ActivateVersionMessage (stream_name ce) (get_stream_version env ce (bm p))) p1)
           else p1)"
    by (rule sync_records_Inr_loop)
  from sync_loop_keyless [OF assms(1) loop] fin assms(1) show ?thesis
    by (auto simp: get_stream_version_def)
qed

text \<open>C9: A successful pass over a stream without a replication key ends with an ACTIVATE_VERSION
  message carrying the freshly minted version, and leaves the version bookmark cleared.\<close>

theorem sync_records_keyless_activates:
  assumes "rep_key ce = None" and "sync_records env ce p = (Inr (), p')"
  shows "last (out p') = ActivateVersionMessage (stream_name ce) (VInt (now_ms env)) \<and>
         get_bookmark (bm p') (tap_stream_id ce) ''version'' = VNull"
  using sync_records_keyless_Inr [OF assms] by auto

text \<open>C33: a pass without chunking completes normally whenever nothing it calls fails:
  the start date parses, the query ends without raising, and every record transforms,
  repairs and has a parsable replication-key value. (With chunking it never does, C5.)\<close>

theorem sync_records_completes:
  assumes "\<not> pk_chunking env"
    and "parse_ts env (get_start_date env (bm p) ce) = Inr cb"
    and "snd (query env (bm p)) = None"
    and "\<forall>r \<in> set (fst (query env (bm p))). record_ok env ce r"
  shows "\<exists>p'. sync_records env ce p = (Inr (), p')"
proof -
  obtain recs where q: "query env (bm p) = (recs, None)"
    using assms(3) by (cases "query env (bm p)") auto
  from sync_loop_total [of "fst (query env (bm p))"] assms(4) q obtain cb' p' where
    "sync_loop env ce (get_stream_version env ce (bm p)) recs cb p = (Inr cb', p')" by fastforce
  with assms(1,2) q show ?thesis by (auto simp: sync_records_def sync_records_finish_def Let_def)
qed

text \<open>C34: whatever the outcome of a pass, the record counter grows by at least the number of
  records emitted and by at most the number of records the query yielded: every emitted
  record is counted, and nothing is counted twice.\<close>

theorem sync_records_count_bounds:
  assumes "sync_records env ce p = (res, p')"
  shows "count p + length (records_of (drop (length (out p)) (out p'))) \<le> count p' \<and>
    count p' \<le> count p + length (fst (query env (bm p)))"
  using assms
proof (cases rule: sync_records_run)
  case start_failed
  then show ?thesis by simp
next
  case (looped cb recs failure res1 p1)
  from sync_loop_count [OF looped(3)] obtain ms where
    m: "out p1 = out p @ ms" "count p + length (records_of ms) \<le> count p1" "count p1 \<le> count p + length recs"
    by blast
  from looped(4) have "p' = p1 \<or> (\<exists>u. sync_records_finish env ce (get_stream_version env ce (bm p)) p1 = (u, p'))"
    by (auto split: sum.splits option.splits)
  then have "count p' = count p1 \<and> (\<exists>ms'. out p' = out p1 @ ms' \<and> records_of ms' = [])"
    by (auto simp: sync_records_finish_def Let_def split: if_splits intro: exI [of _ "[]"] exI [of _ "[_]"])
  with m looped(2) show ?thesis by auto
qed

end
