(* ===== verification/ResumeBulk.thy ===== *)
theory ResumeBulk
  imports SyncRecords
begin

text \<open>
  The Resumable Batch-Job Driver, \<open>resume_syncing_bulk_query\<close> (\<open>sync.py\<close> lines
  40--80). The high-watermark is read back from \<open>JobHighestBookmarkSeen\<close> (else the
  start date) and the pending batches from \<open>BatchIDs\<close>. The loop runs over a copy of
  that list (\<open>batch_ids[:]\<close>); each batch's records go through the same pipeline as
  in \<open>sync_records\<close>, raising the watermark on values after it and at or before the
  pass start; after a batch is drained the watermark is written, the batch id is removed
  from the persisted list (\<open>list.remove\<close>, first occurrence, on the very list object
  held by the state) and the state is flushed. The watermark is never written as the
  cursor.
\<close>

definition BATCH_IDS :: string where
  "BATCH_IDS = ''BatchIDs''"

text \<open>\<open>batch_ids[:]\<close>: a list is copied, a string slices to itself and iterates by
  character; \<open>None\<close> and the other values raise \<open>TypeError\<close>.\<close>

fun batch_ids_copy :: "pyval \<Rightarrow> exn + pyval list" where
  "batch_ids_copy (VList xs) = Inr xs"
| "batch_ids_copy (VStr s) = Inr (map (\<lambda>c. VStr [c]) s)"
| "batch_ids_copy (VObj d) = Inl (raise TypeError ''unhashable type: slice'')"
| "batch_ids_copy _ = Inl (raise TypeError ''object is not subscriptable'')"

text \<open>\<open>batch_ids.remove(batch_id)\<close>: only a list has \<open>remove\<close>; a missing element
  raises \<open>ValueError\<close>.\<close>

fun batch_ids_remove :: "pyval \<Rightarrow> pyval \<Rightarrow> exn + pyval" where
  "batch_ids_remove (VList xs) b =
     (if b \<in> set xs then Inr (VList (remove1 b xs))
      else Inl (raise ValueError ''list.remove(x): x not in list''))"
| "batch_ids_remove _ b = Inl (raise AttributeError ''object has no attribute remove'')"

text \<open>One record of a batch, lines 57--71: the watermark after it.\<close>

definition resume_record_step ::
  "'ts::linorder env \<Rightarrow> catalog_entry \<Rightarrow> pyval \<Rightarrow> 'ts \<Rightarrow> dict \<Rightarrow> 'ts pass \<Rightarrow> (exn, 'ts, 'ts pass) exc" where
  "resume_record_step env ce version current_bookmark rec p =
     exc_bind (emit_record env ce version rec p) (\<lambda>r p1.
       case replication_key_value env ce r of
         Inl e \<Rightarrow> (Inl e, p1)
       | Inr rkv \<Rightarrow>
           (Inr (case rkv of
                   Some (k, v, t) \<Rightarrow>
                     if t \<le> start_time env \<and> current_bookmark < t then t else current_bookmark
                 | None \<Rightarrow> current_bookmark), p1))"

fun resume_records ::
  "'ts::linorder env \<Rightarrow> catalog_entry \<Rightarrow> pyval \<Rightarrow> dict list \<Rightarrow> 'ts \<Rightarrow> 'ts pass \<Rightarrow> (exn, 'ts, 'ts pass) exc" where
  "resume_records env ce version [] cur p = (Inr cur, p)"
| "resume_records env ce version (rec # recs) cur p =
     exc_bind (resume_record_step env ce version cur rec p)
       (\<lambda>cur' p'. resume_records env ce version recs cur' p')"

text \<open>One batch, lines 56--78: drain it, write the watermark, remove the batch id from
  the persisted list, flush.\<close>

definition resume_batch ::
  "'ts::linorder env \<Rightarrow> catalog_entry \<Rightarrow> string \<Rightarrow> pyval \<Rightarrow> 'ts \<Rightarrow> pyval \<Rightarrow> 'ts pass \<Rightarrow> (exn, 'ts, 'ts pass) exc" where
  "resume_batch env ce job_id version cur batch_id p =
     (let (recs, failure) = get_batch_results env job_id batch_id in
      exc_bind (resume_records env ce version recs cur p) (\<lambda>cur' p1.
        case failure of
          Some e \<Rightarrow> (Inl e, p1)
        | None \<Rightarrow>
            (let p2 = set_bookmark (tap_stream_id ce) JHBS (VStr (strftime env cur')) p1 in
             case batch_ids_remove (get_bookmark (bm p2) (tap_stream_id ce) BATCH_IDS) batch_id of
               Inl e \<Rightarrow> (Inl e, p2)
             | Inr ids \<Rightarrow> (Inr cur', write_state (set_bookmark (tap_stream_id ce) BATCH_IDS ids p2)))))"

fun resume_batches ::
  "'ts::linorder env \<Rightarrow> catalog_entry \<Rightarrow> string \<Rightarrow> pyval \<Rightarrow> pyval list \<Rightarrow> 'ts \<Rightarrow> 'ts pass \<Rightarrow> (exn, 'ts, 'ts pass) exc" where
  "resume_batches env ce job_id version [] cur p = (Inr cur, p)"
| "resume_batches env ce job_id version (b # bs) cur p =
     exc_bind (resume_batch env ce job_id version cur b p)
       (\<lambda>cur' p'. resume_batches env ce job_id version bs cur' p')"

text \<open>The resume point of line 42: the bookmarked high-watermark if it is set, else the
  start date.\<close>

definition resume_seed :: "'ts env \<Rightarrow> catalog_entry \<Rightarrow> bookmarks \<Rightarrow> pyval" where
  "resume_seed env ce st =
     (let seen = get_bookmark st (tap_stream_id ce) JHBS
      in if truthy seen then seen else get_start_date env st ce)"

text \<open>The whole function; it returns the counter.\<close>

definition resume_syncing_bulk_query ::
  "'ts::linorder env \<Rightarrow> catalog_entry \<Rightarrow> string \<Rightarrow> 'ts pass \<Rightarrow> (exn, nat, 'ts pass) exc" where
  "resume_syncing_bulk_query env ce job_id p =
     (case parse_ts env (resume_seed env ce (bm p)) of
        Inl e \<Rightarrow> (Inl e, p)
      | Inr current_bookmark \<Rightarrow>
          (let batch_ids = get_bookmark (bm p) (tap_stream_id ce) BATCH_IDS;
               version = get_stream_version env ce (bm p)
           in case batch_ids_copy batch_ids of
                Inl e \<Rightarrow> (Inl e, p)
              | Inr bids \<Rightarrow>
                  exc_bind (resume_batches env ce job_id version bids current_bookmark p)
                    (\<lambda>_ p'. (Inr (count p'), p'))))"

subsection \<open>What the driver promises\<close>

text \<open>An instant the parser produced, at or before the pass start: what the watermark
  may advance to.\<close>

abbreviation parsed_before_start :: "'ts::linorder env \<Rightarrow> 'ts \<Rightarrow> bool" where
  "parsed_before_start env t \<equiv> t \<le> start_time env \<and> (\<exists>s. strptime_with_tz env s = Some t)"

text \<open>The records the batches \<open>bs\<close> of a job hold, in order.\<close>

definition pending_records :: "'ts env \<Rightarrow> string \<Rightarrow> pyval list \<Rightarrow> dict list" where
  "pending_records env job_id bs = concat (map (\<lambda>b. fst (get_batch_results env job_id b)) bs)"

declare BATCH_IDS_def [eval_defs] resume_record_step_def [eval_defs] resume_batch_def [eval_defs]
  resume_seed_def [eval_defs] resume_syncing_bulk_query_def [eval_defs] pending_records_def [eval_defs]

subsection \<open>Draining one batch\<close>



lemma pending_records_simps [simp]:
  "pending_records env job_id [] = []"
  "pending_records env job_id (b # bs) = fst (get_batch_results env job_id b) @ pending_records env job_id bs"
  by (simp_all add: pending_records_def)

lemma resume_record_step_Inr:
  "resume_record_step env ce version cur rec p = (Inr cur', p') \<longleftrightarrow>
     (\<exists>r rkv. process_record env ce rec = Inr r \<and> replication_key_value env ce r = Inr rkv \<and>
        cur' = (case rkv of Some (k, v, t) \<Rightarrow> if t \<le> start_time env \<and> cur < t then t else cur | None \<Rightarrow> cur) \<and>
        p' = p\<lparr>count := Suc (count p), out := out p @ [record_message env ce version r]\<rparr>)"
proof (cases "process_record env ce rec")
  case (Inl e)
  then show ?thesis by (simp add: resume_record_step_def emit_record_def)
next
  case (Inr r)
  then show ?thesis
    by (cases "replication_key_value env ce r")
       (auto simp: resume_record_step_def emit_record_def write_message_def)
qed

lemma resume_record_step_Inl:
  assumes "resume_record_step env ce version cur rec p = (Inl e, p')"
  shows "p' = p\<lparr>count := Suc (count p)\<rparr> \<or>
     (\<exists>r. process_record env ce rec = Inr r \<and>
        p' = p\<lparr>count := Suc (count p), out := out p @ [record_message env ce version r]\<rparr>)"
proof (cases "process_record env ce rec")
  case (Inl e')
  with assms show ?thesis by (simp add: resume_record_step_def emit_record_def)
next
  case (Inr r)
  with assms show ?thesis
    by (cases "replication_key_value env ce r")
       (auto simp: resume_record_step_def emit_record_def write_message_def)
qed

lemma resume_record_step_watermark:
  "resume_record_step env ce version cur rec p = (Inr cur', p') \<Longrightarrow>
     cur \<le> cur' \<and> (cur' = cur \<or> parsed_before_start env cur')"
proof -
  assume "resume_record_step env ce version cur rec p = (Inr cur', p')"
  then obtain r rkv where rkv: "replication_key_value env ce r = Inr rkv" and
    c: "cur' = (case rkv of Some (k, v, t) \<Rightarrow> if t \<le> start_time env \<and> cur < t then t else cur | None \<Rightarrow> cur)"
    by (auto simp: resume_record_step_Inr)
  show ?thesis
  proof (cases rkv)
    case None
    with c show ?thesis by simp
  next
    case (Some kvt)
    then obtain k v t where kvt: "rkv = Some (k, v, t)" by (cases kvt) auto
    with rkv have "\<exists>s. strptime_with_tz env s = Some t" by (auto dest: replication_key_value_Some)
    with c kvt show ?thesis by auto
  qed
qed

text \<open>Draining the records of one batch: only record messages, no bookmark write.\<close>

lemma resume_records_frame:
  "resume_records env ce version recs cur p = (res, p') \<Longrightarrow>
     bm p' = bm p \<and> (\<exists>rs. out p' = out p @ map (record_message env ce version) rs \<and>
        prefix (map Inr rs) (map (process_record env ce) recs) \<and>
        (\<forall>cur'. res = Inr cur' \<longrightarrow> map Inr rs = map (process_record env ce) recs \<and>
           count p' = count p + length recs \<and> cur \<le> cur' \<and> (cur' = cur \<or> parsed_before_start env cur')))"
proof (induction recs arbitrary: cur p)
  case Nil
  then show ?case by (intro conjI exI [of _ "[]"]) auto
next
  case (Cons r rs)
  obtain res1 p1 where step: "resume_record_step env ce version cur r p = (res1, p1)"
    by fastforce
  show ?case
  proof (cases res1)
    case (Inl e)
    with step Cons.prems show ?thesis
      by (auto dest!: resume_record_step_Inl intro: exI [of _ "[]"] exI [of _ "[_]"])
  next
    case (Inr c1)
    with step Cons.prems have rest: "resume_records env ce version rs c1 p1 = (res, p')" by simp
    from step Inr obtain r' where pr: "process_record env ce r = Inr r'"
      and p1: "p1 = p\<lparr>count := Suc (count p), out := out p @ [record_message env ce version r']\<rparr>"
      by (auto simp: resume_record_step_Inr)
    from step Inr have w: "cur \<le> c1 \<and> (c1 = cur \<or> parsed_before_start env c1)"
      by (auto dest: resume_record_step_watermark)
    from Cons.IH [OF rest] obtain xs where
      "bm p' = bm p1" "out p' = out p1 @ map (record_message env ce version) xs"
      "prefix (map Inr xs) (map (process_record env ce) rs)"
      "\<forall>cur'. res = Inr cur' \<longrightarrow> map Inr xs = map (process_record env ce) rs \<and>
           count p' = count p1 + length rs \<and> c1 \<le> cur' \<and> (cur' = c1 \<or> parsed_before_start env cur')"
      by (elim exE conjE) (rule that)
    with pr p1 w show ?thesis
      by (intro conjI exI [of _ "r' # xs"]) (auto intro: order_trans)
  qed
qed

lemma JHBS_ne_BATCH_IDS [simp]: "JHBS \<noteq> BATCH_IDS" "BATCH_IDS \<noteq> JHBS"
  by (simp_all add: JHBS_def BATCH_IDS_def)

lemma resume_batch_eq:
  assumes "get_batch_results env job_id b = (recs, failure)"
  shows "resume_batch env ce job_id version cur b p =
    exc_bind (resume_records env ce version recs cur p) (\<lambda>cur' p1.
      case failure of
        Some e \<Rightarrow> (Inl e, p1)
      | None \<Rightarrow>
          (case batch_ids_remove (get_bookmark (bm p1) (tap_stream_id ce) BATCH_IDS) b of
             Inl e \<Rightarrow> (Inl e, set_bookmark (tap_stream_id ce) JHBS (VStr (strftime env cur')) p1)
           | Inr ids \<Rightarrow> (Inr cur', write_state (set_bookmark (tap_stream_id ce) BATCH_IDS ids
                          (set_bookmark (tap_stream_id ce) JHBS (VStr (strftime env cur')) p1)))))"
  using assms by (cases failure) (simp_all add: resume_batch_def Let_def)

lemma resume_batch_Inr:
  assumes "resume_batch env ce job_id version cur b p = (Inr cur', p')"
  obtains recs rs xs where "get_batch_results env job_id b = (recs, None)"
    "map Inr rs = map (process_record env ce) recs"
    "out p' = out p @ map (record_message env ce version) rs @ [StateMessage (bm p')]"
    "count p' = count p + length recs"
    "cur \<le> cur'" "cur' = cur \<or> parsed_before_start env cur'"
    "get_bookmark (bm p) (tap_stream_id ce) BATCH_IDS = VList xs" "b \<in> set xs"
    "bm p' = write_bookmark (write_bookmark (bm p) (tap_stream_id ce) JHBS (VStr (strftime env cur')))
               (tap_stream_id ce) BATCH_IDS (VList (remove1 b xs))"
proof -
  obtain recs failure where g: "get_batch_results env job_id b = (recs, failure)" by fastforce
  obtain res1 p1 where r: "resume_records env ce version recs cur p = (res1, p1)" by fastforce
  note eq = resume_batch_eq [OF g, of ce version cur p]
  from assms eq r obtain c1 where res1: "res1 = Inr c1" and f: "failure = None"
    by (cases res1; cases failure) auto
  from eq r res1 f have eq2: "resume_batch env ce job_id version cur b p =
      (case batch_ids_remove (get_bookmark (bm p1) (tap_stream_id ce) BATCH_IDS) b of
         Inl e \<Rightarrow> (Inl e, set_bookmark (tap_stream_id ce) JHBS (VStr (strftime env c1)) p1)
       | Inr ids \<Rightarrow> (Inr c1, write_state (set_bookmark (tap_stream_id ce) BATCH_IDS ids
                      (set_bookmark (tap_stream_id ce) JHBS (VStr (strftime env c1)) p1))))"
    by simp
  obtain ids where
    rm: "batch_ids_remove (get_bookmark (bm p1) (tap_stream_id ce) BATCH_IDS) b = Inr ids" and
    p': "p' = write_state (set_bookmark (tap_stream_id ce) BATCH_IDS ids
                (set_bookmark (tap_stream_id ce) JHBS (VStr (strftime env c1)) p1))" and
    c: "cur' = c1"
  proof (cases "batch_ids_remove (get_bookmark (bm p1) (tap_stream_id ce) BATCH_IDS) b")
    case (Inl e)
    with assms eq2 show ?thesis by simp
  next
    case (Inr ids)
    with assms eq2 have "p' = write_state (set_bookmark (tap_stream_id ce) BATCH_IDS ids
                (set_bookmark (tap_stream_id ce) JHBS (VStr (strftime env c1)) p1))" "cur' = c1"
      by auto
    with Inr show ?thesis by (rule that)
  qed
  from resume_records_frame [OF r] res1 obtain rs where
    "bm p1 = bm p" "out p1 = out p @ map (record_message env ce version) rs"
    "map Inr rs = map (process_record env ce) recs" "count p1 = count p + length recs"
    "cur \<le> c1" "c1 = cur \<or> parsed_before_start env c1"
    by blast
  moreover from rm obtain xs where "get_bookmark (bm p1) (tap_stream_id ce) BATCH_IDS = VList xs"
    "b \<in> set xs" "ids = VList (remove1 b xs)"
    by (cases "get_bookmark (bm p1) (tap_stream_id ce) BATCH_IDS") (auto split: if_splits)
  ultimately show ?thesis using that g f p' c by simp
qed

lemma resume_batch_Inl:
  assumes "resume_batch env ce job_id version cur b p = (Inl e, p')"
  shows "(\<forall>sid k. (sid, k) \<noteq> (tap_stream_id ce, JHBS) \<longrightarrow> get_bookmark (bm p') sid k = get_bookmark (bm p) sid k) \<and>
    (\<exists>rs. out p' = out p @ map (record_message env ce version) rs \<and>
       prefix (map Inr rs) (map (process_record env ce) (fst (get_batch_results env job_id b))))"
proof -
  obtain recs failure where g: "get_batch_results env job_id b = (recs, failure)" by fastforce
  obtain res1 p1 where r: "resume_records env ce version recs cur p = (res1, p1)" by fastforce
  from resume_records_frame [OF r] obtain rs where
    b1: "bm p1 = bm p" and o1: "out p1 = out p @ map (record_message env ce version) rs" and
    pre: "prefix (map Inr rs) (map (process_record env ce) recs)"
    by blast
  from assms resume_batch_eq [OF g, of ce version cur p] r have
    "out p' = out p1 \<and>
     (\<forall>sid k. (sid, k) \<noteq> (tap_stream_id ce, JHBS) \<longrightarrow> get_bookmark (bm p') sid k = get_bookmark (bm p1) sid k)"
    by (cases res1; cases failure;
        cases "batch_ids_remove (get_bookmark (bm p1) (tap_stream_id ce) BATCH_IDS) b")
       (auto simp: get_write_bookmark)
  with b1 o1 pre g show ?thesis by auto
qed

lemma resume_batches_Inr:
  "get_bookmark (bm p) (tap_stream_id ce) BATCH_IDS = VList bs \<Longrightarrow>
   resume_batches env ce job_id version bs cur p = (Inr cur', p') \<Longrightarrow>
   get_bookmark (bm p') (tap_stream_id ce) BATCH_IDS = VList [] \<and>
   (\<exists>ms. out p' = out p @ ms \<and>
      map Inr (records_of ms) = map (process_record env ce) (pending_records env job_id bs)) \<and>
   count p' = count p + length (pending_records env job_id bs)"
proof (induction bs arbitrary: cur p)
  case Nil
  then show ?case by simp
next
  case (Cons b bs)
  from Cons.prems(2) obtain c1 p1 where
    step: "resume_batch env ce job_id version cur b p = (Inr c1, p1)" and
    rest: "resume_batches env ce job_id version bs c1 p1 = (Inr cur', p')"
    by (auto simp: exc_bind_Inr_iff)
  from step obtain recs rs xs where
    g: "get_batch_results env job_id b = (recs, None)" and
    rs: "map Inr rs = map (process_record env ce) recs" and
    o1: "out p1 = out p @ map (record_message env ce version) rs @ [StateMessage (bm p1)]" and
    c1: "count p1 = count p + length recs" and
    x: "get_bookmark (bm p) (tap_stream_id ce) BATCH_IDS = VList xs" and
    b1: "bm p1 = write_bookmark (write_bookmark (bm p) (tap_stream_id ce) JHBS (VStr (strftime env c1)))
               (tap_stream_id ce) BATCH_IDS (VList (remove1 b xs))"
    by (rule resume_batch_Inr)
  from x Cons.prems(1) have "xs = b # bs" by simp
  with b1 have "get_bookmark (bm p1) (tap_stream_id ce) BATCH_IDS = VList bs" by simp
  from Cons.IH [OF this rest] o1 c1 rs g show ?case
    by (auto simp: comp_def)
qed

lemma resume_batches_flushes:
  "get_bookmark (bm p) (tap_stream_id ce) BATCH_IDS = VList bs \<Longrightarrow>
   resume_batches env ce job_id version bs cur p = (res, p') \<Longrightarrow>
   \<exists>ms. out p' = out p @ ms \<and>
     (\<forall>i < length ms. \<forall>st. ms ! i = StateMessage st \<longrightarrow>
        (\<exists>k. 0 < k \<and> k \<le> length bs \<and> get_bookmark st (tap_stream_id ce) BATCH_IDS = VList (drop k bs) \<and>
           map Inr (records_of (take i ms)) = map (process_record env ce) (pending_records env job_id (take k bs))))"
proof (induction bs arbitrary: cur p)
  case Nil
  then show ?case by simp
next
  case (Cons b bs)
  obtain res1 p1 where step: "resume_batch env ce job_id version cur b p = (res1, p1)"
    by fastforce
  show ?case
  proof (cases res1)
    case (Inl e)
    with step Cons.prems(2) have "resume_batch env ce job_id version cur b p = (Inl e, p')"
      by simp
    from resume_batch_Inl [OF this] obtain rs where
      "out p' = out p @ map (record_message env ce version) rs"
      by blast
    then show ?thesis
      by (intro exI [of _ "map (record_message env ce version) rs"]) simp
  next
    case (Inr c1)
    with step Cons.prems(2) have rest: "resume_batches env ce job_id version bs c1 p1 = (res, p')"
      by simp
    from step Inr obtain recs rs xs where
      g: "get_batch_results env job_id b = (recs, None)" and
      rs: "map Inr rs = map (process_record env ce) recs" and
      o1: "out p1 = out p @ map (record_message env ce version) rs @ [StateMessage (bm p1)]" and
      x: "get_bookmark (bm p) (tap_stream_id ce) BATCH_IDS = VList xs" and
      b1: "bm p1 = write_bookmark (write_bookmark (bm p) (tap_stream_id ce) JHBS (VStr (strftime env c1)))
                 (tap_stream_id ce) BATCH_IDS (VList (remove1 b xs))"
      by (blast elim: resume_batch_Inr)
    from x Cons.prems(1) have "xs = b # bs" by simp
    with b1 have bb: "get_bookmark (bm p1) (tap_stream_id ce) BATCH_IDS = VList bs" by simp
    from Cons.IH [OF bb rest] obtain ms where
      o2: "out p' = out p1 @ ms" and
      ih: "\<forall>i < length ms. \<forall>st. ms ! i = StateMessage st \<longrightarrow>
        (\<exists>k. 0 < k \<and> k \<le> length bs \<and> get_bookmark st (tap_stream_id ce) BATCH_IDS = VList (drop k bs) \<and>
           map Inr (records_of (take i ms)) = map (process_record env ce) (pending_records env job_id (take k bs)))"
      by blast
    let ?ms1 = "map (record_message env ce version) rs @ [StateMessage (bm p1)]"
    have "\<forall>i < length (?ms1 @ ms). \<forall>st. (?ms1 @ ms) ! i = StateMessage st \<longrightarrow>
        (\<exists>k. 0 < k \<and> k \<le> length (b # bs) \<and>
           get_bookmark st (tap_stream_id ce) BATCH_IDS = VList (drop k (b # bs)) \<and>
           map Inr (records_of (take i (?ms1 @ ms))) =
             map (process_record env ce) (pending_records env job_id (take k (b # bs))))"
    proof (intro allI impI)
      fix i st
      assume i: "i < length (?ms1 @ ms)" and m: "(?ms1 @ ms) ! i = StateMessage st"
      show "\<exists>k. 0 < k \<and> k \<le> length (b # bs) \<and>
           get_bookmark st (tap_stream_id ce) BATCH_IDS = VList (drop k (b # bs)) \<and>
           map Inr (records_of (take i (?ms1 @ ms))) =
             map (process_record env ce) (pending_records env job_id (take k (b # bs)))"
      proof (cases "i < length ?ms1")
        case True
        with m have "i = length rs" and "st = bm p1"
          by (auto simp: nth_append split: if_splits)
        with bb rs g show ?thesis
          by (intro exI [of _ 1]) (simp add: comp_def)
      next
        case False
        let ?j = "i - length ?ms1"
        from False i m have "?j < length ms" and "ms ! ?j = StateMessage st"
          by (auto simp: nth_append)
        with ih obtain k where "0 < k" "k \<le> length bs"
          "get_bookmark st (tap_stream_id ce) BATCH_IDS = VList (drop k bs)"
          "map Inr (records_of (take ?j ms)) = map (process_record env ce) (pending_records env job_id (take k bs))"
          by blast
        moreover from False have "take (i - length rs) (StateMessage (bm p1) # ms) =
            StateMessage (bm p1) # take (i - Suc (length rs)) ms"
          by (cases "i - length rs") (auto simp: Suc_diff_Suc [symmetric])
        ultimately show ?thesis using False rs g
          by (intro exI [of _ "Suc k"]) (simp add: comp_def)
      qed
    qed
    with o1 o2 show ?thesis by (intro exI [of _ "?ms1 @ ms"]) simp
  qed
qed

lemma resume_batches_bookmarks:
  "resume_batches env ce job_id version bs cur p = (res, p') \<Longrightarrow>
   \<exists>ms ts. out p' = out p @ ms \<and>
     (\<forall>sid k. (sid, k) \<noteq> (tap_stream_id ce, JHBS) \<and> (sid, k) \<noteq> (tap_stream_id ce, BATCH_IDS) \<longrightarrow>
        get_bookmark (bm p') sid k = get_bookmark (bm p) sid k \<and>
        (\<forall>st \<in> set (states_of ms). get_bookmark st sid k = get_bookmark (bm p) sid k)) \<and>
     map (\<lambda>st. get_bookmark st (tap_stream_id ce) JHBS) (states_of ms) = map (\<lambda>t. VStr (strftime env t)) ts \<and>
     sorted (cur # ts) \<and> (\<forall>t \<in> set ts. t = cur \<or> parsed_before_start env t)"
proof (induction bs arbitrary: cur p)
  case Nil
  then show ?case by (intro exI [of _ "[]"]) auto
next
  case (Cons b bs)
  obtain res1 p1 where step: "resume_batch env ce job_id version cur b p = (res1, p1)"
    by fastforce
  show ?case
  proof (cases res1)
    case (Inl e)
    with step Cons.prems have "resume_batch env ce job_id version cur b p = (Inl e, p')"
      by simp
    from resume_batch_Inl [OF this] obtain rs where
      "\<forall>sid k. (sid, k) \<noteq> (tap_stream_id ce, JHBS) \<longrightarrow> get_bookmark (bm p') sid k = get_bookmark (bm p) sid k"
      "out p' = out p @ map (record_message env ce version) rs"
      by blast
    then show ?thesis
      by (intro exI [of _ "map (record_message env ce version) rs"] exI [of _ "[]"]) simp
  next
    case (Inr c1)
    with step Cons.prems have rest: "resume_batches env ce job_id version bs c1 p1 = (res, p')"
      by simp
    from step Inr obtain rs xs where
      o1: "out p1 = out p @ map (record_message env ce version) rs @ [StateMessage (bm p1)]" and
      w1: "cur \<le> c1" "c1 = cur \<or> parsed_before_start env c1" and
      b1: "bm p1 = write_bookmark (write_bookmark (bm p) (tap_stream_id ce) JHBS (VStr (strftime env c1)))
                 (tap_stream_id ce) BATCH_IDS (VList (remove1 b xs))"
      by (blast elim: resume_batch_Inr)
    from Cons.IH [OF rest] obtain ms ts where
      o2: "out p' = out p1 @ ms" and
      f2: "\<forall>sid k. (sid, k) \<noteq> (tap_stream_id ce, JHBS) \<and> (sid, k) \<noteq> (tap_stream_id ce, BATCH_IDS) \<longrightarrow>
        get_bookmark (bm p') sid k = get_bookmark (bm p1) sid k \<and>
        (\<forall>st \<in> set (states_of ms). get_bookmark st sid k = get_bookmark (bm p1) sid k)" and
      w2: "map (\<lambda>st. get_bookmark st (tap_stream_id ce) JHBS) (states_of ms) = map (\<lambda>t. VStr (strftime env t)) ts"
        "sorted (c1 # ts)" "\<forall>t \<in> set ts. t = c1 \<or> parsed_before_start env t"
      by (elim exE conjE) (rule that)
    have "sorted (cur # c1 # ts)" using w1(1) w2(2) by auto
    moreover have "\<forall>t \<in> set (c1 # ts). t = cur \<or> parsed_before_start env t" using w1(2) w2(3) by auto
    moreover have "\<forall>sid k. (sid, k) \<noteq> (tap_stream_id ce, JHBS) \<and> (sid, k) \<noteq> (tap_stream_id ce, BATCH_IDS) \<longrightarrow>
        get_bookmark (bm p1) sid k = get_bookmark (bm p) sid k"
      using b1 by (auto simp: get_write_bookmark)
    ultimately show ?thesis using o1 o2 f2 w2(1) b1
      by (intro exI [of _ "map (record_message env ce version) rs @ StateMessage (bm p1) # ms"]
                exI [of _ "c1 # ts"]) auto
  qed
qed


subsection \<open>The whole pass\<close>

lemma resume_syncing_bulk_query_run:
  assumes "resume_syncing_bulk_query env ce job_id p = (res, p')"
  obtains (start_failed) e where "res = Inl e" "p' = p"
  | (looped) cur bids r where "parse_ts env (resume_seed env ce (bm p)) = Inr cur"
      "batch_ids_copy (get_bookmark (bm p) (tap_stream_id ce) BATCH_IDS) = Inr bids"
      "resume_batches env ce job_id (get_stream_version env ce (bm p)) bids cur p = (r, p')"
      "res = (case r of Inl e \<Rightarrow> Inl e | Inr _ \<Rightarrow> Inr (count p'))"
proof (cases "parse_ts env (resume_seed env ce (bm p))")
  case (Inl e)
  with assms show ?thesis by (auto simp: resume_syncing_bulk_query_def intro: that(1))
next
  case (Inr cur)
  show ?thesis
  proof (cases "batch_ids_copy (get_bookmark (bm p) (tap_stream_id ce) BATCH_IDS)")
    case (Inl e)
    with assms Inr show ?thesis by (auto simp: resume_syncing_bulk_query_def intro: that(1))
  next
    case (Inr bids)
    obtain r p1 where l: "resume_batches env ce job_id (get_stream_version env ce (bm p)) bids cur p = (r, p1)"
      by fastforce
    with assms Inr \<open>parse_ts env (resume_seed env ce (bm p)) = Inr cur\<close>
    have "p1 = p'" "res = (case r of Inl e \<Rightarrow> Inl e | Inr _ \<Rightarrow> Inr (count p'))"
      by (cases r; simp add: resume_syncing_bulk_query_def)+
    with l Inr \<open>parse_ts env (resume_seed env ce (bm p)) = Inr cur\<close> show ?thesis
      by (intro that(2)) simp_all
  qed
qed

lemma pending_records_append [simp]:
  "pending_records env job_id (xs @ ys) = pending_records env job_id xs @ pending_records env job_id ys"
  by (simp add: pending_records_def)

text \<open>Two passes against the same job and transformer see the same records.\<close>

lemma resume_same_source:
  assumes "get_batch_results env' job_id = get_batch_results env job_id" and "transform env' = transform env"
  shows "pending_records env' job_id = pending_records env job_id" "process_record env' = process_record env"
  using assms by (simp_all add: pending_records_def process_record_def fun_eq_iff)

lemma resume_records_total:
  "\<forall>r \<in> set recs. record_ok env ce r \<Longrightarrow>
   \<exists>cur' p'. resume_records env ce version recs cur p = (Inr cur', p') \<and> bm p' = bm p"
proof (induction recs arbitrary: cur p)
  case Nil
  then show ?case by simp
next
  case (Cons r recs)
  then obtain r' rkv where "process_record env ce r = Inr r'" "replication_key_value env ce r' = Inr rkv"
    by (auto simp: record_ok_def split: sum.splits)
  then obtain c1 p1 where s: "resume_record_step env ce version cur r p = (Inr c1, p1)" and "bm p1 = bm p"
    by (auto simp: resume_record_step_Inr)
  moreover have "\<forall>r \<in> set recs. record_ok env ce r" using Cons.prems by simp
  from Cons.IH [OF this, of c1 p1] obtain cur' p' where "resume_records env ce version recs c1 p1 = (Inr cur', p')"
    "bm p' = bm p1" by blast
  ultimately show ?case by auto
qed

lemma resume_batches_total:
  "get_bookmark (bm p) (tap_stream_id ce) BATCH_IDS = VList bids \<Longrightarrow>
   \<forall>b \<in> set bids. snd (get_batch_results env job_id b) = None \<Longrightarrow>
   \<forall>r \<in> set (pending_records env job_id bids). record_ok env ce r \<Longrightarrow>
   \<exists>cur' p'. resume_batches env ce job_id version bids cur p = (Inr cur', p')"
proof (induction bids arbitrary: cur p)
  case Nil
  then show ?case by simp
next
  case (Cons b bs)
  obtain recs where g: "get_batch_results env job_id b = (recs, None)"
    using Cons.prems(2) by (cases "get_batch_results env job_id b") auto
  with Cons.prems(3) have "\<forall>r \<in> set recs. record_ok env ce r" by simp
  from resume_records_total [OF this] obtain c1 p1 where
    r: "resume_records env ce version recs cur p = (Inr c1, p1)" and b1: "bm p1 = bm p" by blast
  let ?p2 = "write_state (set_bookmark (tap_stream_id ce) BATCH_IDS (VList bs)
               (set_bookmark (tap_stream_id ce) JHBS (VStr (strftime env c1)) p1))"
  from Cons.prems(1) b1 have "resume_batch env ce job_id version cur b p = (Inr c1, ?p2)"
    by (simp add: resume_batch_eq [OF g] r)
  moreover have "get_bookmark (bm ?p2) (tap_stream_id ce) BATCH_IDS = VList bs" by simp
  with Cons.IH Cons.prems(2,3) g obtain cur' p' where
    "resume_batches env ce job_id version bs c1 ?p2 = (Inr cur', p')" by fastforce
  ultimately show ?case by auto
qed

subsection \<open>Properties of the driver\<close>

text \<open>C10: when the persisted \<open>BatchIDs\<close> is the list \<open>bids\<close> and the driver returns,
  every pending batch has been drained in list order: the records of all batches are
  emitted, transformed and repaired, exactly once each; the persisted batch list is empty;
  and the returned counter counts every drained record.\<close>

theorem resume_drains_all:
  assumes "get_bookmark (bm p) (tap_stream_id ce) BATCH_IDS = VList bids"
    and "resume_syncing_bulk_query env ce job_id p = (Inr n, p')"
  shows "get_bookmark (bm p') (tap_stream_id ce) BATCH_IDS = VList [] \<and>
    (\<exists>ms. out p' = out p @ ms \<and>
       map Inr (records_of ms) = map (process_record env ce) (pending_records env job_id bids)) \<and>
    n = count p + length (pending_records env job_id bids)"
  using assms(2)
proof (cases rule: resume_syncing_bulk_query_run)
  case (looped cur bids' r)
  with assms(1) have "bids' = bids" by simp
  with looped assms(1) obtain c where "resume_batches env ce job_id (get_stream_version env ce (bm p)) bids cur p = (Inr c, p')"
    "n = count p'"
    by (cases r) auto
  with resume_batches_Inr [OF assms(1)] show ?thesis by blast
qed simp

text \<open>C11: every \<open>STATE\<close> message the driver flushes, at whatever point the process is
  later killed, records a completed prefix of the batch list: for some \<open>k > 0\<close>, the
  persisted \<open>BatchIDs\<close> is the list without its first \<open>k\<close> batches and the records
  emitted before that flush are exactly those of the first \<open>k\<close> batches, processed.\<close>

theorem resume_flushes_consistent:
  assumes "get_bookmark (bm p) (tap_stream_id ce) BATCH_IDS = VList bids"
    and "resume_syncing_bulk_query env ce job_id p = (res, p')"
  shows "\<exists>ms. out p' = out p @ ms \<and>
     (\<forall>i < length ms. \<forall>st. ms ! i = StateMessage st \<longrightarrow>
        (\<exists>k. 0 < k \<and> k \<le> length bids \<and>
           get_bookmark st (tap_stream_id ce) BATCH_IDS = VList (drop k bids) \<and>
           map Inr (records_of (take i ms)) = map (process_record env ce) (pending_records env job_id (take k bids))))"
  using assms(2)
proof (cases rule: resume_syncing_bulk_query_run)
  case (looped cur bids' r)
  with assms(1) have "bids' = bids" by simp
  with looped resume_batches_flushes [OF assms(1)] show ?thesis by blast
qed simp

text \<open>C12: the high-watermarks the driver flushes as \<open>JobHighestBookmarkSeen\<close> are
  formatted instants that never decrease from the resume point, and each of them is the
  resume point itself or an instant the parser read from a record, at or before the pass
  start.\<close>

theorem resume_watermark:
  assumes "parse_ts env (resume_seed env ce (bm p)) = Inr cur"
    and "resume_syncing_bulk_query env ce job_id p = (res, p')"
  shows "\<exists>ms ts. out p' = out p @ ms \<and>
     map (\<lambda>st. get_bookmark st (tap_stream_id ce) JHBS) (states_of ms) = map (\<lambda>t. VStr (strftime env t)) ts \<and>
     sorted (cur # ts) \<and> (\<forall>t \<in> set ts. t = cur \<or> parsed_before_start env t)"
  using assms(2)
proof (cases rule: resume_syncing_bulk_query_run)
  case (looped cur' bids r)
  with assms(1) have "cur' = cur" by simp
  with looped resume_batches_bookmarks show ?thesis by blast
qed (auto intro: exI [of _ "[]"])

text \<open>C13: the driver changes no bookmark but \<open>JobHighestBookmarkSeen\<close> and \<open>BatchIDs\<close>
  of its own stream: the cursor bookmark in particular is never written, in the final
  state or in any flushed \<open>STATE\<close> message.\<close>

theorem resume_frame:
  assumes "resume_syncing_bulk_query env ce job_id p = (res, p')"
    and "(sid, k) \<noteq> (tap_stream_id ce, JHBS)" and "(sid, k) \<noteq> (tap_stream_id ce, BATCH_IDS)"
  shows "get_bookmark (bm p') sid k = get_bookmark (bm p) sid k \<and>
    (\<exists>ms. out p' = out p @ ms \<and> (\<forall>st \<in> set (states_of ms). get_bookmark st sid k = get_bookmark (bm p) sid k))"
  using assms(1)
proof (cases rule: resume_syncing_bulk_query_run)
  case (looped cur bids r)
  from resume_batches_bookmarks [OF looped(3)] assms(2,3) show ?thesis by blast
qed auto

text \<open>C35: the resume driver completes normally whenever nothing it calls fails: the
  resume point parses, the persisted \<open>BatchIDs\<close> is a list, every batch of it is
  fetched without error and every record of them is accepted by the pipeline; this holds
  for any batch list, duplicates included, because the loop runs over a copy.\<close>

theorem resume_completes:
  assumes "get_bookmark (bm p) (tap_stream_id ce) BATCH_IDS = VList bids"
    and "parse_ts env (resume_seed env ce (bm p)) = Inr cur"
    and "\<forall>b \<in> set bids. snd (get_batch_results env job_id b) = None"
    and "\<forall>r \<in> set (pending_records env job_id bids). record_ok env ce r"
  shows "\<exists>p'. resume_syncing_bulk_query env ce job_id p = (Inr (count p'), p')"
proof -
  from resume_batches_total [OF assms(1,3,4)] obtain cur' p' where
    "resume_batches env ce job_id (get_stream_version env ce (bm p)) bids cur p = (Inr cur', p')" by blast
  with assms(1,2) show ?thesis by (auto simp: resume_syncing_bulk_query_def)
qed

text \<open>C36: when the resume point parses but the persisted \<open>BatchIDs\<close> is not a list, the
  driver fails on \<open>batch_ids[:]\<close> before emitting or writing anything: a missing entry or
  any other non-sequence raises \<open>TypeError\<close>, with the state and messages untouched.
  (A string would be sliced and iterated character by character.)\<close>

theorem resume_batch_ids_not_list:
  assumes "parse_ts env (resume_seed env ce (bm p)) = Inr cur"
    and "\<forall>xs. get_bookmark (bm p) (tap_stream_id ce) BATCH_IDS \<noteq> VList xs"
    and "\<forall>s. get_bookmark (bm p) (tap_stream_id ce) BATCH_IDS \<noteq> VStr s"
  shows "\<exists>msg. resume_syncing_bulk_query env ce job_id p = (Inl (raise TypeError msg), p)"
  using assms
  by (cases "get_bookmark (bm p) (tap_stream_id ce) BATCH_IDS") (auto simp: resume_syncing_bulk_query_def)

end
