(* ===== verification/Resumption.thy ===== *)
theory Resumption
  imports ResumeBulk
begin

text \<open>
  Repeated runs of the Resumable Batch-Job Driver against one bulk job, each killed at an
  arbitrary point and the next one started from the durable state the previous one left
  (the last \<open>STATE\<close> message it wrote, or the state it started from when it wrote none).
  \<open>resume_runs env0 ce job_id st0 ds st\<close> holds when such a sequence of runs, started
  from the state \<open>st0\<close>, has delivered the records \<open>ds\<close> up to the last flush of each run
  and left the durable state \<open>st\<close>. Each run may have its own clock and start time; they
  all fetch the batches of the same job and use the same transformer as \<open>env0\<close>.
\<close>

definition durable_state :: "bookmarks \<Rightarrow> 'ts message list \<Rightarrow> bookmarks" where
  "durable_state st ms = (case last_state ms of None \<Rightarrow> st | Some b \<Rightarrow> b)"

inductive resume_runs ::
  "'ts::linorder env \<Rightarrow> catalog_entry \<Rightarrow> string \<Rightarrow> bookmarks \<Rightarrow> dict list \<Rightarrow> bookmarks \<Rightarrow> bool"
  for env0 :: "'ts::linorder env" and ce :: catalog_entry and job_id :: string and st0 :: bookmarks where
  start: "resume_runs env0 ce job_id st0 [] st0"
| killed: "\<lbrakk>resume_runs env0 ce job_id st0 ds st;
            get_batch_results (env :: 'ts env) job_id = get_batch_results env0 job_id; transform env = transform env0;
            resume_syncing_bulk_query env ce job_id \<lparr>bm = st, out = [], count = 0\<rparr> = (res, p')\<rbrakk>
           \<Longrightarrow> resume_runs env0 ce job_id st0 (ds @ records_of (upto_last_state (take n (out p'))))
                 (durable_state st (take n (out p')))"

text \<open>A killed run that persisted progress: started from \<open>st\<close>, whose persisted
  \<open>BatchIDs\<close> is a list, it left the durable state \<open>st'\<close>, different from \<open>st\<close>. This
  is the step of an external retry layer that re-invokes the driver after every kill.\<close>

inductive progress_run ::
  "'ts::linorder env \<Rightarrow> catalog_entry \<Rightarrow> string \<Rightarrow> bookmarks \<Rightarrow> bookmarks \<Rightarrow> bool"
  for env0 :: "'ts::linorder env" and ce :: catalog_entry and job_id :: string where
  "\<lbrakk>get_bookmark st (tap_stream_id ce) BATCH_IDS = VList bs;
    get_batch_results (env :: 'ts env) job_id = get_batch_results env0 job_id; transform env = transform env0;
    resume_syncing_bulk_query env ce job_id \<lparr>bm = st, out = [], count = 0\<rparr> = (res, p');
    durable_state st (take n (out p')) \<noteq> st\<rbrakk>
   \<Longrightarrow> progress_run env0 ce job_id (durable_state st (take n (out p'))) st"

text \<open>The number of batches the persisted \<open>BatchIDs\<close> still lists.\<close>

definition pending_count :: "catalog_entry \<Rightarrow> bookmarks \<Rightarrow> nat" where
  "pending_count ce st = (case get_bookmark st (tap_stream_id ce) BATCH_IDS of VList xs \<Rightarrow> length xs | _ \<Rightarrow> 0)"

subsection \<open>One killed run\<close>

lemma resume_run_durable:
  assumes bs: "get_bookmark st (tap_stream_id ce) BATCH_IDS = VList bs"
    and run: "resume_syncing_bulk_query env ce job_id \<lparr>bm = st, out = [], count = 0\<rparr> = (res, p')"
  shows "(durable_state st (take n (out p')) = st \<and> records_of (upto_last_state (take n (out p'))) = []) \<or>
    (\<exists>k. 0 < k \<and> k \<le> length bs \<and>
       get_bookmark (durable_state st (take n (out p'))) (tap_stream_id ce) BATCH_IDS = VList (drop k bs) \<and>
       map Inr (records_of (upto_last_state (take n (out p')))) =
         map (process_record env ce) (pending_records env job_id (take k bs)) \<and>
       (\<forall>sid key. (sid, key) \<noteq> (tap_stream_id ce, JHBS) \<and> (sid, key) \<noteq> (tap_stream_id ce, BATCH_IDS) \<longrightarrow>
          get_bookmark (durable_state st (take n (out p'))) sid key = get_bookmark st sid key))"
proof (cases "last_state (take n (out p'))")
  case None
  then show ?thesis by (simp add: durable_state_def upto_last_state_None)
next
  case (Some b)
  then obtain i where i: "i < length (take n (out p'))" "take n (out p') ! i = StateMessage b"
    and up: "upto_last_state (take n (out p')) = take (Suc i) (take n (out p'))"
    by (blast dest: upto_last_state_Some)
  from i have i': "i < length (out p')" "out p' ! i = StateMessage b" by simp_all
  have recs: "records_of (upto_last_state (take n (out p'))) = records_of (take i (out p'))"
    using up i by (simp add: take_Suc_conv_app_nth)
  show ?thesis
    using run
  proof (cases rule: resume_syncing_bulk_query_run)
    case start_failed
    with i' show ?thesis by simp
  next
    case (looped cur bids r)
    with bs have b: "bids = bs" by simp
    from resume_batches_flushes [OF _ looped(3)] bs b obtain ms where
      "out p' = ms" and
      fl: "\<forall>i < length ms. \<forall>st. ms ! i = StateMessage st \<longrightarrow>
        (\<exists>k. 0 < k \<and> k \<le> length bs \<and> get_bookmark st (tap_stream_id ce) BATCH_IDS = VList (drop k bs) \<and>
           map Inr (records_of (take i ms)) = map (process_record env ce) (pending_records env job_id (take k bs)))"
      by auto
    with i' obtain k where k: "0 < k" "k \<le> length bs" "get_bookmark b (tap_stream_id ce) BATCH_IDS = VList (drop k bs)"
      "map Inr (records_of (take i (out p'))) = map (process_record env ce) (pending_records env job_id (take k bs))"
      by blast
    from resume_batches_bookmarks [OF looped(3)] obtain ms' where
      "out p' = ms'" and
      fr: "\<forall>sid key. (sid, key) \<noteq> (tap_stream_id ce, JHBS) \<and> (sid, key) \<noteq> (tap_stream_id ce, BATCH_IDS) \<longrightarrow>
        (\<forall>st' \<in> set (states_of ms'). get_bookmark st' sid key = get_bookmark st sid key)"
      by auto
    from i' have "StateMessage b \<in> set (out p')" by (metis nth_mem)
    then have "b \<in> set (states_of (out p'))" by (rule states_of_member)
    with fr \<open>out p' = ms'\<close> have "\<forall>sid key. (sid, key) \<noteq> (tap_stream_id ce, JHBS) \<and> (sid, key) \<noteq> (tap_stream_id ce, BATCH_IDS) \<longrightarrow>
        get_bookmark b sid key = get_bookmark st sid key"
      by blast
    with k Some recs show ?thesis by (intro disjI2 exI [of _ k]) (simp add: durable_state_def)
  qed
qed

subsection \<open>Properties of repeated runs\<close>

text \<open>C26: whatever sequence of killed runs of the resume driver has happened, the durable
  state lists as \<open>BatchIDs\<close> a suffix of the original batch list, the records delivered up
  to the flushes are exactly the processed records of the batches no longer listed, in
  order, and no bookmark other than the stream's \<open>JobHighestBookmarkSeen\<close> and
  \<open>BatchIDs\<close> has changed.\<close>

theorem resume_runs_invariant:
  assumes "resume_runs env0 ce job_id st0 ds st"
    and "get_bookmark st0 (tap_stream_id ce) BATCH_IDS = VList bids"
  shows "\<exists>k \<le> length bids. get_bookmark st (tap_stream_id ce) BATCH_IDS = VList (drop k bids) \<and>
    map Inr ds = map (process_record env0 ce) (pending_records env0 job_id (take k bids)) \<and>
    (\<forall>sid key. (sid, key) \<noteq> (tap_stream_id ce, JHBS) \<and> (sid, key) \<noteq> (tap_stream_id ce, BATCH_IDS) \<longrightarrow>
       get_bookmark st sid key = get_bookmark st0 sid key)"
  using assms(1)
proof (induction rule: resume_runs.induct)
  case start
  from assms(2) show ?case by (intro exI [of _ 0]) simp
next
  case (killed ds st env res p' n)
  from killed.IH obtain k where k: "k \<le> length bids"
    "get_bookmark st (tap_stream_id ce) BATCH_IDS = VList (drop k bids)"
    "map Inr ds = map (process_record env0 ce) (pending_records env0 job_id (take k bids))"
    and fr: "\<forall>sid key. (sid, key) \<noteq> (tap_stream_id ce, JHBS) \<and> (sid, key) \<noteq> (tap_stream_id ce, BATCH_IDS) \<longrightarrow>
       get_bookmark st sid key = get_bookmark st0 sid key"
    by blast
  note same = resume_same_source [OF killed.hyps(2,3)]
  from resume_run_durable [OF k(2) killed.hyps(4), of n] show ?case
  proof (elim disjE exE conjE)
    assume "durable_state st (take n (out p')) = st" "records_of (upto_last_state (take n (out p'))) = []"
    with k fr show ?thesis by (intro exI [of _ k]) simp
  next
    fix k'
    assume k': "0 < k'" "k' \<le> length (drop k bids)"
      "get_bookmark (durable_state st (take n (out p'))) (tap_stream_id ce) BATCH_IDS = VList (drop k' (drop k bids))"
      "map Inr (records_of (upto_last_state (take n (out p')))) =
         map (process_record env ce) (pending_records env job_id (take k' (drop k bids)))"
      and fr': "\<forall>sid key. (sid, key) \<noteq> (tap_stream_id ce, JHBS) \<and> (sid, key) \<noteq> (tap_stream_id ce, BATCH_IDS) \<longrightarrow>
          get_bookmark (durable_state st (take n (out p'))) sid key = get_bookmark st sid key"
    have "take (k + k') bids = take k bids @ take k' (drop k bids)" by (simp add: take_add)
    with k k' same fr fr' show ?thesis
      by (intro exI [of _ "k + k'"]) (simp add: add.commute)
  qed
qed

text \<open>C27: a sequence of killed runs followed by one run that returns delivers every record
  of the job exactly once: the records up to each killed run's last flush, followed by the
  records of the final run, are the processed records of all batches in order, and the
  final state lists no pending batch.\<close>

theorem resume_runs_complete:
  assumes "resume_runs env0 ce job_id st0 ds st"
    and "get_bookmark st0 (tap_stream_id ce) BATCH_IDS = VList bids"
    and "get_batch_results env job_id = get_batch_results env0 job_id" and "transform env = transform env0"
    and "resume_syncing_bulk_query env ce job_id \<lparr>bm = st, out = [], count = 0\<rparr> = (Inr m, p')"
  shows "map Inr (ds @ records_of (out p')) = map (process_record env0 ce) (pending_records env0 job_id bids) \<and>
    get_bookmark (bm p') (tap_stream_id ce) BATCH_IDS = VList []"
proof -
  from resume_runs_invariant [OF assms(1,2)] obtain k where
    k: "get_bookmark st (tap_stream_id ce) BATCH_IDS = VList (drop k bids)"
    "map Inr ds = map (process_record env0 ce) (pending_records env0 job_id (take k bids))"
    by blast
  note same = resume_same_source [OF assms(3,4)]
  from assms(5) show ?thesis
  proof (cases rule: resume_syncing_bulk_query_run)
    case (looped cur bs r)
    with k have bs: "bs = drop k bids" by simp
    from looped(4) obtain c where "r = Inr c" by (cases r) auto
    with looped(3) bs have "resume_batches env ce job_id (get_stream_version env ce st) (drop k bids) cur
        \<lparr>bm = st, out = [], count = 0\<rparr> = (Inr c, p')" by simp
    from resume_batches_Inr [OF _ this] k(1) obtain ms where
      "get_bookmark (bm p') (tap_stream_id ce) BATCH_IDS = VList []" "out p' = ms"
      "map Inr (records_of ms) = map (process_record env ce) (pending_records env job_id (drop k bids))"
      by auto
    moreover have "pending_records env0 job_id bids =
        pending_records env0 job_id (take k bids) @ pending_records env0 job_id (drop k bids)"
      by (metis append_take_drop_id pending_records_append)
    ultimately show ?thesis using k(2) same by simp
  qed simp
qed


subsection \<open>Retrying terminates\<close>

lemma progress_run_decreases:
  "progress_run env0 ce job_id st' st \<Longrightarrow> pending_count ce st' < pending_count ce st"
proof (induction rule: progress_run.induct)
  case (1 st bs env res p' n)
  from resume_run_durable [OF 1(1,4), of n] 1(5) obtain k where
    "0 < k" "k \<le> length bs"
    "get_bookmark (durable_state st (take n (out p'))) (tap_stream_id ce) BATCH_IDS = VList (drop k bs)"
    by blast
  with 1(1) show ?case by (simp add: pending_count_def)
qed


lemma progress_runs_decrease:
  "(progress_run env0 ce job_id ^^ m) st' st \<Longrightarrow> pending_count ce st' + m \<le> pending_count ce st"
proof (induction m arbitrary: st' st)
  case 0
  then show ?case by simp
next
  case (Suc m)
  then obtain st'' where "(progress_run env0 ce job_id ^^ m) st' st''" "progress_run env0 ce job_id st'' st"
    by auto
  with Suc.IH [of st' st''] progress_run_decreases [of env0 ce job_id st'' st] show ?case by simp
qed

text \<open>C38: an external retry layer that re-invokes the driver after every kill cannot go on
  forever making progress: the relation "a killed run left this durable state, different
  from the one it started from" is well-founded.\<close>

theorem resume_retry_terminates: "wfP (progress_run env0 ce job_id)"
  by (rule wfp_if_convertible_to_nat [where f = "pending_count ce"]) (rule progress_run_decreases)

text \<open>C39: starting from a persisted list of \<open>bids\<close>, at most \<open>length bids\<close> killed
  runs in a row can each persist progress: each one removes at least one batch.\<close>

theorem resume_retry_bound:
  assumes "(progress_run env0 ce job_id ^^ m) st' st"
    and "get_bookmark st (tap_stream_id ce) BATCH_IDS = VList bids"
  shows "m \<le> length bids"
  using progress_runs_decrease [OF assms(1)] assms(2) by (simp add: pending_count_def)

end
