(* ===== verification/ResumeSpec.thy ===== *)
theory ResumeSpec
  imports ResumeBulk
begin

text \<open>
  An abstract specification of the Resumable Batch-Job Driver, as the specification
  describes it (section 4.4): a job is a queue of pending batches, the records delivered so
  far and a high-watermark. One abstract step drains the first pending batch: its records,
  transformed and repaired, are delivered, the batch leaves the queue and the watermark
  becomes the largest of itself and the replication-key instants of those records that lie
  at or before the pass start. The concrete driver is shown to be a run of this machine
  (a simulation through \<open>job_of\<close>, which reads the queue from the persisted
  \<open>BatchIDs\<close>, the delivered records from the messages and the watermark from the loop).
\<close>

record 'ts job =
  pending :: "pyval list"
  delivered :: "dict list"
  mark :: 'ts

text \<open>The instant a delivered record may raise the watermark to.\<close>

definition key_instant :: "'ts::linorder env \<Rightarrow> catalog_entry \<Rightarrow> dict \<Rightarrow> 'ts option" where
  "key_instant env ce r =
     (case replication_key_value env ce r of
        Inr (Some (k, v, t)) \<Rightarrow> if t \<le> start_time env then Some t else None
      | _ \<Rightarrow> None)"

definition eligible :: "'ts::linorder env \<Rightarrow> catalog_entry \<Rightarrow> dict list \<Rightarrow> 'ts list" where
  "eligible env ce rs = List.map_filter (key_instant env ce) rs"

inductive job_step :: "'ts::linorder env \<Rightarrow> catalog_entry \<Rightarrow> string \<Rightarrow> 'ts job \<Rightarrow> 'ts job \<Rightarrow> bool"
  for env ce job_id where
  drain: "\<lbrakk>pending j = b # bs; get_batch_results env job_id b = (recs, None);
           map (process_record env ce) recs = map Inr rs;
           \<forall>r \<in> set rs. \<exists>x. replication_key_value env ce r = Inr x\<rbrakk>
          \<Longrightarrow> job_step env ce job_id j
                \<lparr>pending = bs, delivered = delivered j @ rs, mark = Max (set (mark j # eligible env ce rs))\<rparr>"

definition job_of :: "catalog_entry \<Rightarrow> 'ts \<Rightarrow> 'ts pass \<Rightarrow> 'ts job" where
  "job_of ce cur p =
     \<lparr>pending = (case get_bookmark (bm p) (tap_stream_id ce) BATCH_IDS of VList xs \<Rightarrow> xs | _ \<Rightarrow> []),
      delivered = records_of (out p), mark = cur\<rparr>"

inductive_cases job_stepE: "job_step env ce job_id j j'"

subsection \<open>Lemmas\<close>

lemma eligible_simps [simp]:
  "eligible env ce [] = []"
  "eligible env ce (r # rs) = (case key_instant env ce r of Some t \<Rightarrow> t # eligible env ce rs | None \<Rightarrow> eligible env ce rs)"
  "eligible env ce (rs @ rs') = eligible env ce rs @ eligible env ce rs'"
  by (simp_all add: eligible_def List.map_filter_def split: option.splits)

lemma Max_fold: "Max (insert x (set xs)) = fold max xs (x::'a::linorder)"
  using Max.set_eq_fold [of x xs] by simp

lemma Max_fold_append: "Max (insert m (set xs \<union> set ys)) = fold max ys (fold max xs (m::'a::linorder))"
  using Max_fold [of m "xs @ ys"] by simp

lemma resume_records_mark:
  "resume_records env ce version recs cur p = (Inr cur', p') \<Longrightarrow>
     \<exists>rs. map (process_record env ce) recs = map Inr rs \<and>
       (\<forall>r \<in> set rs. \<exists>x. replication_key_value env ce r = Inr x) \<and>
       cur' = fold max (eligible env ce rs) cur \<and> out p' = out p @ map (record_message env ce version) rs"
proof (induction recs arbitrary: cur p)
  case Nil
  then show ?case by simp
next
  case (Cons r0 recs)
  from Cons.prems obtain c1 p1 where
    step: "resume_record_step env ce version cur r0 p = (Inr c1, p1)" and
    rest: "resume_records env ce version recs c1 p1 = (Inr cur', p')"
    by (auto simp: exc_bind_Inr_iff)
  from step obtain r rkv where pr: "process_record env ce r0 = Inr r" and
    rk: "replication_key_value env ce r = Inr rkv" and
    c1: "c1 = (case rkv of Some (k, v, t) \<Rightarrow> if t \<le> start_time env \<and> cur < t then t else cur | None \<Rightarrow> cur)" and
    p1: "p1 = p\<lparr>count := Suc (count p), out := out p @ [record_message env ce version r]\<rparr>"
    by (auto simp: resume_record_step_Inr)
  have "c1 = (case key_instant env ce r of Some t \<Rightarrow> max t cur | None \<Rightarrow> cur)"
    using c1 rk by (auto simp: key_instant_def max_def split: option.splits)
  moreover from Cons.IH [OF rest] obtain rs where
    "map (process_record env ce) recs = map Inr rs" "\<forall>r \<in> set rs. \<exists>x. replication_key_value env ce r = Inr x"
    "cur' = fold max (eligible env ce rs) c1" "out p' = out p1 @ map (record_message env ce version) rs"
    by blast
  ultimately show ?case using pr rk p1
    by (intro exI [of _ "r # rs"]) (auto split: option.splits)
qed

lemma resume_batch_records:
  assumes "get_batch_results env job_id b = (recs, failure)"
    and "resume_batch env ce job_id version cur b p = (Inr cur', p')"
  shows "\<exists>p1. resume_records env ce version recs cur p = (Inr cur', p1)"
proof -
  obtain res1 p1 where r: "resume_records env ce version recs cur p = (res1, p1)" by fastforce
  with assms resume_batch_eq [OF assms(1), of ce version cur p] show ?thesis
    by (cases res1; cases failure;
        cases "batch_ids_remove (get_bookmark (bm p1) (tap_stream_id ce) BATCH_IDS) b") auto
qed

lemma resume_batch_sim:
  assumes ids: "get_bookmark (bm p) (tap_stream_id ce) BATCH_IDS = VList (b # bs)"
    and run: "resume_batch env ce job_id version cur b p = (Inr cur', p')"
  shows "job_step env ce job_id (job_of ce cur p) (job_of ce cur' p') \<and>
    get_bookmark (bm p') (tap_stream_id ce) BATCH_IDS = VList bs"
proof -
  from run obtain recs rs0 xs where g: "get_batch_results env job_id b = (recs, None)" and
    r0: "map Inr rs0 = map (process_record env ce) recs" and
    o: "out p' = out p @ map (record_message env ce version) rs0 @ [StateMessage (bm p')]" and
    x: "get_bookmark (bm p) (tap_stream_id ce) BATCH_IDS = VList xs" and
    b': "bm p' = write_bookmark (write_bookmark (bm p) (tap_stream_id ce) JHBS (VStr (strftime env cur')))
               (tap_stream_id ce) BATCH_IDS (VList (remove1 b xs))"
    by (rule resume_batch_Inr)
  from resume_batch_records [OF g run] obtain p1 where
    "resume_records env ce version recs cur p = (Inr cur', p1)" by blast
  from resume_records_mark [OF this] obtain rs where
    pr: "map (process_record env ce) recs = map Inr rs" and
    rk: "\<forall>r \<in> set rs. \<exists>x. replication_key_value env ce r = Inr x" and
    c: "cur' = fold max (eligible env ce rs) cur"
    by blast
  from r0 pr have "map Inr rs0 = map Inr rs" by simp
  then have "rs0 = rs" by simp
  with ids x b' o have bs: "get_bookmark (bm p') (tap_stream_id ce) BATCH_IDS = VList bs"
    and "records_of (out p') = records_of (out p) @ rs"
    by simp_all
  moreover have "job_step env ce job_id (job_of ce cur p)
      \<lparr>pending = bs, delivered = delivered (job_of ce cur p) @ rs,
       mark = Max (set (mark (job_of ce cur p) # eligible env ce rs))\<rparr>"
  proof -
    have "pending (job_of ce cur p) = b # bs" by (simp add: job_of_def ids)
    with g pr rk show ?thesis by (intro job_step.drain)
  qed
  ultimately show ?thesis using c by (simp add: job_of_def Max_fold)
qed

lemma resume_batches_sim:
  "get_bookmark (bm p) (tap_stream_id ce) BATCH_IDS = VList bids \<Longrightarrow>
   resume_batches env ce job_id version bids cur p = (Inr cur', p') \<Longrightarrow>
   (job_step env ce job_id)\<^sup>*\<^sup>* (job_of ce cur p) (job_of ce cur' p') \<and>
   get_bookmark (bm p') (tap_stream_id ce) BATCH_IDS = VList [] \<and>
   (bids \<noteq> [] \<longrightarrow> get_bookmark (bm p') (tap_stream_id ce) JHBS = VStr (strftime env cur'))"
proof (induction bids arbitrary: cur p)
  case Nil
  then show ?case by simp
next
  case (Cons b bs)
  from Cons.prems(2) obtain c1 p1 where
    step: "resume_batch env ce job_id version cur b p = (Inr c1, p1)" and
    rest: "resume_batches env ce job_id version bs c1 p1 = (Inr cur', p')"
    by (auto simp: exc_bind_Inr_iff)
  from resume_batch_sim [OF Cons.prems(1) step] have
    s1: "job_step env ce job_id (job_of ce cur p) (job_of ce c1 p1)" and
    b1: "get_bookmark (bm p1) (tap_stream_id ce) BATCH_IDS = VList bs" by blast+
  from step obtain xs where "bm p1 = write_bookmark (write_bookmark (bm p) (tap_stream_id ce) JHBS (VStr (strftime env c1)))
               (tap_stream_id ce) BATCH_IDS (VList (remove1 b xs))"
    by (rule resume_batch_Inr)
  then have j1: "get_bookmark (bm p1) (tap_stream_id ce) JHBS = VStr (strftime env c1)" by simp
  from Cons.IH [OF b1 rest] s1 show ?case
  proof (cases bs)
    case Nil
    with rest j1 Cons.IH [OF b1 rest] s1 show ?thesis by auto
  qed auto
qed

lemma job_steps_run:
  "(job_step env ce job_id)\<^sup>*\<^sup>* j j' \<Longrightarrow>
   \<exists>k rs. pending j' = drop k (pending j) \<and>
     map (process_record env ce) (pending_records env job_id (take k (pending j))) = map Inr rs \<and>
     delivered j' = delivered j @ rs \<and> mark j' = Max (set (mark j # eligible env ce rs))"
proof (induction rule: rtranclp_induct)
  case base
  then show ?case by (intro exI [of _ 0] exI [of _ "[]"]) simp
next
  case (step j1 j2)
  from step.IH obtain k rs where k: "pending j1 = drop k (pending j)"
    "map (process_record env ce) (pending_records env job_id (take k (pending j))) = map Inr rs"
    "delivered j1 = delivered j @ rs" "mark j1 = Max (set (mark j # eligible env ce rs))"
    by blast
  obtain b bs recs rs' where d: "pending j1 = b # bs" "get_batch_results env job_id b = (recs, None)"
    "map (process_record env ce) recs = map Inr rs'"
    "j2 = \<lparr>pending = bs, delivered = delivered j1 @ rs', mark = Max (insert (mark j1) (set (eligible env ce rs')))\<rparr>"
    using step.hyps(2) by (elim job_stepE) blast
  from d(1) k(1) have "take (Suc k) (pending j) = take k (pending j) @ [b]"
    by (metis drop_all list.distinct(1) not_less nth_via_drop take_Suc_conv_app_nth)
  moreover from d(1) k(1) have "drop (Suc k) (pending j) = bs"
    by (metis drop_Suc tl_drop list.sel(3))
  ultimately show ?case using k d
    by (intro exI [of _ "Suc k"] exI [of _ "rs @ rs'"]) (simp add: Max_fold Max_fold_append)
qed

lemma resume_pass_sim:
  assumes ids: "get_bookmark (bm p) (tap_stream_id ce) BATCH_IDS = VList bids"
    and seed: "parse_ts env (resume_seed env ce (bm p)) = Inr cur"
    and run: "resume_syncing_bulk_query env ce job_id p = (Inr n, p')"
  shows "\<exists>cur'. (job_step env ce job_id)\<^sup>*\<^sup>* (job_of ce cur p) (job_of ce cur' p') \<and>
    get_bookmark (bm p') (tap_stream_id ce) BATCH_IDS = VList [] \<and>
    (bids \<noteq> [] \<longrightarrow> get_bookmark (bm p') (tap_stream_id ce) JHBS = VStr (strftime env cur')) \<and>
    (\<exists>ms. out p' = out p @ ms)"
  using run
proof (cases rule: resume_syncing_bulk_query_run)
  case (looped cur0 bids' r)
  with ids seed have "cur0 = cur" "bids' = bids" by simp_all
  moreover from looped(4) obtain c where "r = Inr c" by (cases r) auto
  ultimately have l: "resume_batches env ce job_id (get_stream_version env ce (bm p)) bids cur p = (Inr c, p')"
    using looped(3) by simp
  from resume_batches_bookmarks [OF l] obtain ms where "out p' = out p @ ms" by blast
  with resume_batches_sim [OF ids l] show ?thesis by blast
qed simp

subsection \<open>The driver implements the specification\<close>

text \<open>C29: refinement. A run of \<open>resume_syncing_bulk_query\<close> that returns, started with
  the batch list \<open>bids\<close> persisted and the resume point \<open>cur\<close>, is seen through
  \<open>job_of\<close> as a run of the abstract job machine that empties the queue: every batch
  is drained by one abstract step, in list order.\<close>

theorem resume_refines_job_spec:
  assumes "get_bookmark (bm p) (tap_stream_id ce) BATCH_IDS = VList bids"
    and "parse_ts env (resume_seed env ce (bm p)) = Inr cur"
    and "resume_syncing_bulk_query env ce job_id p = (Inr n, p')"
  shows "\<exists>cur'. (job_step env ce job_id)\<^sup>*\<^sup>* (job_of ce cur p) (job_of ce cur' p') \<and>
    pending (job_of ce cur' p') = []"
  using resume_pass_sim [OF assms] by (auto simp: job_of_def)

text \<open>C30: the high-watermark a returning run of the resume driver leaves persisted is the
  largest of the resume point and the replication-key instants, at or before the pass
  start, of all the records it delivered (when there was a batch to drain); the order in
  which the records arrive does not matter.\<close>

theorem resume_final_watermark:
  assumes ids: "get_bookmark (bm p) (tap_stream_id ce) BATCH_IDS = VList bids" and ne: "bids \<noteq> []"
    and seed: "parse_ts env (resume_seed env ce (bm p)) = Inr cur"
    and run: "resume_syncing_bulk_query env ce job_id p = (Inr n, p')"
  shows "\<exists>rs. map (process_record env ce) (pending_records env job_id bids) = map Inr rs \<and>
    records_of (drop (length (out p)) (out p')) = rs \<and>
    get_bookmark (bm p') (tap_stream_id ce) JHBS = VStr (strftime env (Max (set (cur # eligible env ce rs))))"
proof -
  from resume_pass_sim [OF ids seed run] ne obtain cur' ms where
    steps: "(job_step env ce job_id)\<^sup>*\<^sup>* (job_of ce cur p) (job_of ce cur' p')" and
    e: "get_bookmark (bm p') (tap_stream_id ce) BATCH_IDS = VList []" and
    j: "get_bookmark (bm p') (tap_stream_id ce) JHBS = VStr (strftime env cur')" and
    o: "out p' = out p @ ms"
    by blast
  from job_steps_run [OF steps] ids e obtain k rs where
    "[] = drop k bids" "map (process_record env ce) (pending_records env job_id (take k bids)) = map Inr rs"
    "records_of (out p') = records_of (out p) @ rs" "cur' = Max (set (cur # eligible env ce rs))"
    by (auto simp: job_of_def)
  with j o show ?thesis by (intro exI [of _ rs]) simp
qed

end
