(* ===== verification/ResumeWorklist.thy ===== *)
theory ResumeWorklist
  imports ResumeBulk
begin

text \<open>
  The loop of \<open>resume_syncing_bulk_query\<close> read as a work-list algorithm: while the
  persisted \<open>BatchIDs\<close> still lists a batch, drain its head (\<open>resume_batch\<close>, which
  removes it from the persisted list). The code iterates over the copy \<open>batch_ids[:]\<close>
  instead; this reading takes the list from the state at every step, so nothing bounds
  its recursion syntactically: it is a \<open>partial_function (option)\<close>, where not
  returning is \<open>None\<close>, and the theorem below shows it returns, with the result of the
  code's loop.
\<close>

partial_function (option) drain_pending ::
  "'ts::linorder env \<Rightarrow> catalog_entry \<Rightarrow> string \<Rightarrow> pyval \<Rightarrow> 'ts \<Rightarrow> 'ts pass \<Rightarrow> (exn, 'ts, 'ts pass) exc option" where
  "drain_pending env ce job_id version cur p =
     (case get_bookmark (bm p) (tap_stream_id ce) BATCH_IDS of
        VList (b # bs) \<Rightarrow>
          (case resume_batch env ce job_id version cur b p of
             (Inr cur', p') \<Rightarrow> drain_pending env ce job_id version cur' p'
           | (Inl e, p') \<Rightarrow> Some (Inl e, p'))
      | _ \<Rightarrow> Some (Inr cur, p))"

lemma resume_batch_head_removed:
  assumes "get_bookmark (bm p) (tap_stream_id ce) BATCH_IDS = VList (b # bs)"
    and "resume_batch env ce job_id version cur b p = (Inr cur', p')"
  shows "get_bookmark (bm p') (tap_stream_id ce) BATCH_IDS = VList bs"
  using assms by (elim resume_batch_Inr) auto

text \<open>C37: draining the persisted work-list terminates on every state whose \<open>BatchIDs\<close>
  is a list, because each drained batch removes the list's head, and it computes what the
  code's iteration over the copy \<open>batch_ids[:]\<close> computes, failures included.\<close>

theorem drain_pending_terminates:
  assumes "get_bookmark (bm p) (tap_stream_id ce) BATCH_IDS = VList bids"
  shows "drain_pending env ce job_id version cur p = Some (resume_batches env ce job_id version bids cur p)"
  using assms
proof (induction bids arbitrary: cur p)
  case Nil
  then show ?case by (simp add: drain_pending.simps)
next
  case (Cons b bs)
  obtain res p' where r: "resume_batch env ce job_id version cur b p = (res, p')" by fastforce
  show ?case
  proof (cases res)
    case (Inl e)
    with r Cons.prems show ?thesis by (simp add: drain_pending.simps)
  next
    case (Inr c)
    with r Cons.prems have "get_bookmark (bm p') (tap_stream_id ce) BATCH_IDS = VList bs"
      by (auto intro: resume_batch_head_removed)
    with Cons.IH r Inr Cons.prems show ?thesis by (simp add: drain_pending.simps)
  qed
qed

end
