(* ===== verification/SyncStream.thy ===== *)
theory SyncStream
  imports SyncRecords
begin

text \<open>
  The Sync Orchestrator, \<open>sync_stream\<close> (\<open>sync.py\<close> lines 82--97): a fresh record
  counter, one pass of \<open>sync_records\<close>, a final flush of the state, and the translation
  of whatever the pass raises. A domain error (\<open>TapSalesforceException\<close> or a subclass)
  is raised again as an exception of the same class whose message is prefixed with the
  stream; any other exception is wrapped in a bare \<open>Exception\<close> with the stream in its
  message and the original as its cause (\<open>raise ... from ex\<close>). The implicit context
  Python attaches to the first kind is not a cause and is not modelled.
\<close>

text \<open>\<open>str(ex)\<close>: the message, except that a \<open>KeyError\<close> shows the repr of its key, in
  quotes.\<close>

definition exn_str :: "exn \<Rightarrow> string" where
  "exn_str ex =
     (if exn_class ex = KeyError then [CHR 0x27] @ exn_msg ex @ [CHR 0x27] else exn_msg ex)"

text \<open>The two \<open>except\<close> clauses of lines 89--95.\<close>

definition sync_stream_error :: "string \<Rightarrow> exn \<Rightarrow> exn" where
  "sync_stream_error stream_nm ex =
     (if is_tap_exception (exn_class ex) then
        Exn (exn_class ex) (''Error syncing '' @ stream_nm @ '': '' @ exn_str ex) None
      else Exn PlainException (''Unexpected error syncing '' @ stream_nm @ '': '' @ exn_str ex) (Some ex))"

definition sync_stream :: "'ts::linorder env \<Rightarrow> catalog_entry \<Rightarrow> 'ts pass \<Rightarrow> (exn, nat, 'ts pass) exc" where
  "sync_stream env ce p =
     (case sync_records env ce (p\<lparr>count := 0\<rparr>) of
        (Inl ex, p1) \<Rightarrow> (Inl (sync_stream_error (stream ce) ex), p1)
      | (Inr _, p1) \<Rightarrow> (let p2 = write_state p1 in (Inr (count p2), p2)))"

declare exn_str_def [eval_defs] sync_stream_error_def [eval_defs] sync_stream_def [eval_defs]

subsection \<open>Lemmas\<close>

lemma sync_stream_cases:
  "sync_stream env ce p = (res, p') \<longleftrightarrow>
     (\<exists>ex. sync_records env ce (p\<lparr>count := 0\<rparr>) = (Inl ex, p') \<and> res = Inl (sync_stream_error (stream ce) ex)) \<or>
     (\<exists>p1. sync_records env ce (p\<lparr>count := 0\<rparr>) = (Inr (), p1) \<and> p' = write_state p1 \<and> res = Inr (count p1))"
proof (cases "sync_records env ce (p\<lparr>count := 0\<rparr>)")
  case (Pair r p1)
  then show ?thesis by (cases r) (auto simp: sync_stream_def Let_def)
qed

text \<open>C14: when \<open>sync_stream\<close> returns, the counter it returns counts exactly the
  records the query yielded, each of them was emitted processed, in order, and the last
  message written is a flush of the final state.\<close>

theorem sync_stream_success:
  assumes "sync_stream env ce p = (Inr n, p')"
  shows "n = length (fst (query env (bm p))) \<and>
    map Inr (records_of (drop (length (out p)) (out p'))) = map (process_record env ce) (fst (query env (bm p))) \<and>
    last (out p') = StateMessage (bm p')"
proof -
  from assms obtain p1 where run: "sync_records env ce (p\<lparr>count := 0\<rparr>) = (Inr (), p1)"
    and p': "p' = write_state p1" and n: "n = count p1"
    by (auto simp: sync_stream_cases)
  from sync_records_Inr_records [OF run] p' n show ?thesis by simp
qed

text \<open>C15: when \<open>sync_stream\<close> raises, it raises for the exception \<open>ex\<close> of the pass,
  after no further flush: a domain error keeps its class and gets the stream in its
  message, so callers can still tell the kinds apart; any other error becomes a bare
  \<open>Exception\<close> with the stream in its message that keeps \<open>ex\<close> as its cause.\<close>

theorem sync_stream_error_kinds:
  assumes "sync_stream env ce p = (Inl e', p')"
  shows "\<exists>ex. sync_records env ce (p\<lparr>count := 0\<rparr>) = (Inl ex, p') \<and>
    (is_tap_exception (exn_class e') \<longleftrightarrow> is_tap_exception (exn_class ex)) \<and>
    (if is_tap_exception (exn_class ex)
     then exn_class e' = exn_class ex \<and> exn_msg e' = ''Error syncing '' @ stream ce @ '': '' @ exn_str ex
     else exn_class e' = PlainException \<and> exn_cause e' = Some ex \<and>
          exn_msg e' = ''Unexpected error syncing '' @ stream ce @ '': '' @ exn_str ex)"
  using assms by (auto simp: sync_stream_cases sync_stream_error_def)

text \<open>C16: with primary-key chunking, a pass whose start date parses, whose query ends
  normally and whose loop emits every record still fails at line 161, and the caller
  of \<open>sync_stream\<close> sees it as an unexpected error of the stream caused by the
  \<open>TypeError\<close>, with no final flush.\<close>

theorem sync_stream_chunked_unexpected:
  assumes "pk_chunking env"
    and "parse_ts env (get_start_date env (bm p) ce) = Inr cb"
    and "query env (bm p) = (recs, None)"
    and "sync_loop env ce (get_stream_version env ce (bm p)) recs cb (p\<lparr>count := 0\<rparr>) = (Inr cb', pl)"
  shows "fst (sync_stream env ce p) =
    Inl (Exn PlainException
          (''Unexpected error syncing '' @ stream ce @ '': strptime() argument 1 must be str, not datetime.datetime'')
          (Some (raise TypeError ''strptime() argument 1 must be str, not datetime.datetime'')))"
  using assms
  by (simp add: sync_stream_def sync_records_def sync_records_finish_def sync_stream_error_def
      exn_str_def raise_def Let_def)

end
