(* ===== verification/Timestamps.thy ===== *)
theory Timestamps
  imports SyncEnv "HOL-Library.Product_Lexorder"
begin

text \<open>
  singer's canonical timestamp format (modelled from the specification, since singer is
  not part of this repository): \<open>singer.utils.strftime\<close> writes a UTC \<open>datetime\<close> with
  \<open>DATETIME_FMT = "%04Y-%m-%dT%H:%M:%S.%fZ"\<close>, and \<open>strptime_with_tz\<close> reads such a
  string back. A \<open>datetime\<close> is the tuple of its fields, within the ranges Python's
  \<open>datetime\<close> enforces, ordered lexicographically as Python compares them. The parser
  is modelled on the canonical format only, which is the format the drivers write.
\<close>

datatype instant = Instant (inst_year: nat) (inst_month: nat) (inst_day: nat)
  (inst_hour: nat) (inst_minute: nat) (inst_second: nat) (inst_micro: nat)

definition inst_key :: "instant \<Rightarrow> nat \<times> nat \<times> nat \<times> nat \<times> nat \<times> nat \<times> nat" where
  "inst_key t = (inst_year t, inst_month t, inst_day t, inst_hour t, inst_minute t, inst_second t, inst_micro t)"

instantiation instant :: linorder
begin

definition less_eq_instant :: "instant \<Rightarrow> instant \<Rightarrow> bool" where
  "t \<le> u \<longleftrightarrow> inst_key t \<le> inst_key u"

definition less_instant :: "instant \<Rightarrow> instant \<Rightarrow> bool" where
  "t < u \<longleftrightarrow> inst_key t < inst_key u"

instance
proof
  fix t u v :: instant
  have inj: "inst_key t = inst_key u \<Longrightarrow> t = u" for t u
    by (cases t; cases u) (simp add: inst_key_def)
  show "t < u \<longleftrightarrow> t \<le> u \<and> \<not> u \<le> t" by (auto simp: less_eq_instant_def less_instant_def)
  show "t \<le> t" by (simp add: less_eq_instant_def)
  show "t \<le> u \<Longrightarrow> u \<le> v \<Longrightarrow> t \<le> v" by (auto simp: less_eq_instant_def)
  show "t \<le> u \<Longrightarrow> u \<le> t \<Longrightarrow> t = u" by (auto simp: less_eq_instant_def intro: inj)
  show "t \<le> u \<or> u \<le> t" by (auto simp: less_eq_instant_def)
qed

end

definition is_leap :: "nat \<Rightarrow> bool" where
  "is_leap y \<longleftrightarrow> y mod 4 = 0 \<and> (y mod 100 \<noteq> 0 \<or> y mod 400 = 0)"

definition days_in_month :: "nat \<Rightarrow> nat \<Rightarrow> nat" where
  "days_in_month y m =
     (if m = 2 then (if is_leap y then 29 else 28)
      else if m \<in> {4, 6, 9, 11} then 30 else 31)"

text \<open>The ranges of the fields of a Python \<open>datetime\<close> (\<open>MINYEAR = 1\<close>, \<open>MAXYEAR = 9999\<close>).\<close>

definition valid_instant :: "instant \<Rightarrow> bool" where
  "valid_instant t \<longleftrightarrow>
     1 \<le> inst_year t \<and> inst_year t \<le> 9999 \<and> 1 \<le> inst_month t \<and> inst_month t \<le> 12 \<and>
     1 \<le> inst_day t \<and> inst_day t \<le> days_in_month (inst_year t) (inst_month t) \<and>
     inst_hour t < 24 \<and> inst_minute t < 60 \<and> inst_second t < 60 \<and> inst_micro t < 1000000"

text \<open>\<open>%0wd\<close>: the last \<open>w\<close> decimal digits of a number, zero-padded.\<close>

fun pad :: "nat \<Rightarrow> nat \<Rightarrow> string" where
  "pad 0 n = []"
| "pad (Suc w) n = pad w (n div 10) @ [char_of (48 + n mod 10)]"

definition strftime_canon :: "instant \<Rightarrow> string" where
  "strftime_canon t =
     pad 4 (inst_year t) @ ''-'' @ pad 2 (inst_month t) @ ''-'' @ pad 2 (inst_day t) @ ''T'' @
     pad 2 (inst_hour t) @ '':'' @ pad 2 (inst_minute t) @ '':'' @ pad 2 (inst_second t) @ ''.'' @
     pad 6 (inst_micro t) @ ''Z''"

definition field :: "string \<Rightarrow> nat \<Rightarrow> nat \<Rightarrow> string" where
  "field s i w = take w (drop i s)"

definition strptime_canon :: "string \<Rightarrow> instant option" where
  "strptime_canon s =
     (if length s = 27 \<and> s ! 4 = CHR ''-'' \<and> s ! 7 = CHR ''-'' \<and> s ! 10 = CHR ''T'' \<and>
         s ! 13 = CHR '':'' \<and> s ! 16 = CHR '':'' \<and> s ! 19 = CHR ''.'' \<and> s ! 26 = CHR ''Z'' \<and>
         list_all is_digit (field s 0 4 @ field s 5 2 @ field s 8 2 @ field s 11 2 @ field s 14 2 @
                            field s 17 2 @ field s 20 6)
      then (let t = Instant (digits_nat (field s 0 4)) (digits_nat (field s 5 2)) (digits_nat (field s 8 2))
                      (digits_nat (field s 11 2)) (digits_nat (field s 14 2)) (digits_nat (field s 17 2))
                      (digits_nat (field s 20 6))
            in if valid_instant t then Some t else None)
      else None)"

declare inst_key_def [eval_defs] less_eq_instant_def [eval_defs] less_instant_def [eval_defs] is_leap_def [eval_defs] days_in_month_def [eval_defs]
  valid_instant_def [eval_defs] strftime_canon_def [eval_defs] field_def [eval_defs]
  strptime_canon_def [eval_defs]

subsection \<open>Lemmas\<close>

lemma digit_codes: "map of_char ''0123456789'' = [48..<58::nat]"
  by (simp add: upt_rec)

lemma is_digit_iff: "is_digit c \<longleftrightarrow> 48 \<le> (of_char c :: nat) \<and> (of_char c :: nat) < 58"
proof -
  have "is_digit c \<longleftrightarrow> (of_char c :: nat) \<in> set (map of_char ''0123456789'')"
  proof
    assume "is_digit c" then show "(of_char c :: nat) \<in> set (map of_char ''0123456789'')"
      unfolding is_digit_def set_map by (rule imageI)
  next
    assume "(of_char c :: nat) \<in> set (map of_char ''0123456789'')"
    then have "(of_char c :: nat) \<in> of_char ` set ''0123456789''" by (simp only: set_map)
    then obtain x where x: "x \<in> set ''0123456789''" and eq: "(of_char c :: nat) = of_char x"
      by (rule imageE)
    have "c = char_of (of_char c :: nat)" by (simp only: char_of_char)
    also have "\<dots> = char_of (of_char x :: nat)" by (simp only: eq)
    also have "\<dots> = x" by (simp only: char_of_char)
    finally show "is_digit c" using x by (simp only: is_digit_def)
  qed
  then show ?thesis by (simp only: digit_codes set_upt atLeastLessThan_iff)
qed

lemma length_pad [simp]: "length (pad w n) = w"
  by (induction w arbitrary: n) auto

lemma is_digit_char_of: "(d::nat) < 10 \<Longrightarrow> is_digit (char_of (48 + d))"
  by (simp add: is_digit_iff)

lemma pad_all_digits [simp]: "list_all is_digit (pad w n)"
  by (induction w arbitrary: n) (auto intro: is_digit_char_of)

lemma digits_nat_snoc:
  "is_digit c \<Longrightarrow> digits_nat (xs @ [c]) = 10 * digits_nat xs + (of_char c - 48)"
  by (simp add: digits_nat_def)

lemma of_char_digit: "(d::nat) < 10 \<Longrightarrow> of_char (char_of (48 + d) :: char) = 48 + d"
  by simp

lemma digits_nat_pad [simp]: "digits_nat (pad w n) = n mod 10 ^ w"
proof (induction w arbitrary: n)
  case 0
  then show ?case by (simp add: digits_nat_def)
next
  case (Suc w)
  have "n mod 10 ^ Suc w = 10 * (n div 10 mod 10 ^ w) + n mod 10"
    by (simp add: mod_mult2_eq)
  with Suc show ?case
    by (simp add: digits_nat_snoc is_digit_char_of of_char_digit)
qed

lemma digit_of_char: "is_digit c \<Longrightarrow> of_char c - 48 < (10::nat) \<and> char_of (48 + (of_char c - 48 :: nat)) = c"
proof -
  assume "is_digit c"
  then have "48 \<le> (of_char c :: nat)" "(of_char c :: nat) < 58" by (simp_all add: is_digit_iff)
  then have "48 + (of_char c - 48) = (of_char c :: nat)" by simp
  with \<open>(of_char c :: nat) < 58\<close> show ?thesis by simp
qed

lemma pad_digits_nat: "list_all is_digit s \<Longrightarrow> pad (length s) (digits_nat s) = s"
proof (induction s rule: rev_induct)
  case Nil
  then show ?case by simp
next
  case (snoc c xs)
  then have c: "is_digit c" and xs: "list_all is_digit xs" by simp_all
  from digit_of_char [OF c] have "(10 * digits_nat xs + (of_char c - 48)) div 10 = digits_nat xs"
    "(10 * digits_nat xs + (of_char c - 48)) mod 10 = of_char c - 48" by simp_all
  with snoc.IH [OF xs] c digit_of_char [OF c] show ?case
    by (simp add: digits_nat_snoc)
qed

lemma length_field: "i + w \<le> length s \<Longrightarrow> length (field s i w) = w"
  by (simp add: field_def)

lemma drop_split_field:
  "k + w < length s \<Longrightarrow> drop k s = field s k w @ s ! (k + w) # drop (k + w + 1) s"
  using id_take_nth_drop [of w "drop k s"] by (simp add: field_def add.commute)

lemma canon_split:
  assumes "length s = 27"
  shows "s = field s 0 4 @ s ! 4 # field s 5 2 @ s ! 7 # field s 8 2 @ s ! 10 # field s 11 2 @ s ! 13 #
             field s 14 2 @ s ! 16 # field s 17 2 @ s ! 19 # field s 20 6 @ [s ! 26]"
proof -
  have "drop 27 s = []" using assms by simp
  with assms show ?thesis
    using drop_split_field [of 0 4 s] drop_split_field [of 5 2 s] drop_split_field [of 8 2 s]
      drop_split_field [of 11 2 s] drop_split_field [of 14 2 s] drop_split_field [of 17 2 s]
      drop_split_field [of 20 6 s]
    by simp
qed

lemma strptime_canon_valid: "strptime_canon s = Some t \<Longrightarrow> valid_instant t"
  by (auto simp: strptime_canon_def Let_def split: if_splits)

lemma field_strftime_canon:
  "field (strftime_canon t) 0 4 = pad 4 (inst_year t)" "field (strftime_canon t) 5 2 = pad 2 (inst_month t)"
  "field (strftime_canon t) 8 2 = pad 2 (inst_day t)" "field (strftime_canon t) 11 2 = pad 2 (inst_hour t)"
  "field (strftime_canon t) 14 2 = pad 2 (inst_minute t)" "field (strftime_canon t) 17 2 = pad 2 (inst_second t)"
  "field (strftime_canon t) 20 6 = pad 6 (inst_micro t)"
  by (simp_all add: field_def strftime_canon_def)

lemma strptime_strftime_canon_Some: "valid_instant t \<Longrightarrow> strptime_canon (strftime_canon t) = Some t"
proof -
  assume v: "valid_instant t"
  then have "inst_year t mod 10 ^ 4 = inst_year t" "inst_month t mod 10 ^ 2 = inst_month t"
    "inst_day t mod 10 ^ 2 = inst_day t" "inst_hour t mod 10 ^ 2 = inst_hour t"
    "inst_minute t mod 10 ^ 2 = inst_minute t" "inst_second t mod 10 ^ 2 = inst_second t"
    "inst_micro t mod 10 ^ 6 = inst_micro t"
    by (auto simp: valid_instant_def days_in_month_def split: if_splits)
  with v show ?thesis
    by (cases t) (simp add: strptime_canon_def field_strftime_canon, simp add: strftime_canon_def nth_append)
qed

lemma strftime_canon_nonempty [simp]: "strftime_canon t \<noteq> []"
  by (simp add: strftime_canon_def)

subsection \<open>Round trips\<close>

text \<open>Reading back what \<open>strftime\<close> wrote gives the same instant exactly when the
  instant lies within the ranges of a Python \<open>datetime\<close>; outside them the fixed-width
  fields cannot hold it.\<close>

theorem strptime_strftime_canon: "strptime_canon (strftime_canon t) = Some t \<longleftrightarrow> valid_instant t"
  using strptime_canon_valid strptime_strftime_canon_Some by blast

text \<open>Every string the parser accepts is exactly the canonical rendering of the
  instant it reads.\<close>

theorem strftime_strptime_canon: "strptime_canon s = Some t \<Longrightarrow> strftime_canon t = s"
proof -
  assume p: "strptime_canon s = Some t"
  then have l: "length s = 27" and sep: "s ! 4 = CHR ''-''" "s ! 7 = CHR ''-''" "s ! 10 = CHR ''T''"
    "s ! 13 = CHR '':''" "s ! 16 = CHR '':''" "s ! 19 = CHR ''.''" "s ! 26 = CHR ''Z''"
    and d: "list_all is_digit (field s 0 4 @ field s 5 2 @ field s 8 2 @ field s 11 2 @ field s 14 2 @
                            field s 17 2 @ field s 20 6)"
    and t: "t = Instant (digits_nat (field s 0 4)) (digits_nat (field s 5 2)) (digits_nat (field s 8 2))
                      (digits_nat (field s 11 2)) (digits_nat (field s 14 2)) (digits_nat (field s 17 2))
                      (digits_nat (field s 20 6))"
    by (auto simp: strptime_canon_def Let_def split: if_splits)
  have "pad w (digits_nat (field s i w)) = field s i w" if "list_all is_digit (field s i w)" "i + w \<le> 27" for i w
    using pad_digits_nat [OF that(1)] that(2) l by (simp add: length_field)
  with d have "strftime_canon t = field s 0 4 @ s ! 4 # field s 5 2 @ s ! 7 # field s 8 2 @ s ! 10 # field s 11 2 @ s ! 13 #
             field s 14 2 @ s ! 16 # field s 17 2 @ s ! 19 # field s 20 6 @ [s ! 26]"
    by (simp add: t strftime_canon_def sep)
  also have "\<dots> = s" using canon_split [OF l] by simp
  finally show ?thesis .
qed

end
