(* ===== verification/Examples.thy ===== *)
theory Examples
  imports Resumption ResumeSpec ResumeWorklist SyncStream Timestamps "HOL-Library.List_Lexorder" "HOL-Library.Char_ord"
begin

text \<open>
  A concrete stream and pass on which the theorems of the development are instantiated.
  Instants are fixed-width ISO-8601 strings, which sort lexicographically in time order,
  so singer's parser is \<open>Some\<close> and its formatter the identity. The transformer drops
  the blacklisted \<open>attributes\<close> field, as the pre-hook does for a record.
\<close>

definition ex_schema :: pyval where
  "ex_schema = VObj [(''properties'', VObj
     [(''Id'', VObj [(''type'', VList [VStr ''null'', VStr ''string''])]),
      (''SystemModstamp'', VObj [(''type'', VList [VStr ''null'', VStr ''string''])]),
      (''Amount'', VObj [])])]"

definition ex_ce :: catalog_entry where
  "ex_ce = \<lparr>tap_stream_id = ''Account'', stream = ''Account'', stream_alias = None,
            replication_key = Some ''SystemModstamp'', schema = ex_schema\<rparr>"

definition ex_records :: "dict list" where
  "ex_records =
     [[(''attributes'', VObj [(''type'', VStr ''Account'')]), (''Id'', VStr ''001''),
       (''SystemModstamp'', VStr ''2023-05''), (''Amount'', VStr ''42'')],
      [(''Id'', VStr ''002''), (''SystemModstamp'', VStr ''2023-09''), (''Amount'', VStr '''')],
      [(''Id'', VStr ''003''), (''SystemModstamp'', VStr ''2024-06''), (''Amount'', VStr ''true'')]]"

definition ex_env :: "string env" where
  "ex_env = \<lparr>start_time = ''2024-01'', now_ms = 1700000000000, pk_chunking = False,
     default_start_date = ''2000-01'', strptime_with_tz = Some, strftime = id,
     transform = (\<lambda>r s. Inr (remove_blacklisted_fields r)),
     query = (\<lambda>_. (ex_records, None)),
     get_batch_results = (\<lambda>job b. if b = VStr ''B1'' then (take 2 ex_records, None)
                                 else (drop 2 ex_records, None))\<rparr>"

definition ex_p0 :: "string pass" where
  "ex_p0 = \<lparr>bm = Map.empty, out = [], count = 0\<rparr>"

definition ex_chunked :: "string env" where
  "ex_chunked = ex_env\<lparr>pk_chunking := True\<rparr>"

definition ex_out1 :: dict where
  "ex_out1 = [(''Id'', VStr ''001''), (''SystemModstamp'', VStr ''2023-05''), (''Amount'', VFloat (Fin 42))]"

definition ex_out2 :: dict where
  "ex_out2 = [(''Id'', VStr ''002''), (''SystemModstamp'', VStr ''2023-09''), (''Amount'', VNull)]"

definition ex_out3 :: dict where
  "ex_out3 = [(''Id'', VStr ''003''), (''SystemModstamp'', VStr ''2024-06''), (''Amount'', VBool True)]"

definition ex_msg :: "dict \<Rightarrow> string message" where
  "ex_msg r = RecordMessage ''Account'' r (VInt 1700000000000) ''2024-01''"

definition ex_pass1 :: "string pass" where
  "ex_pass1 = \<lparr>bm = [''Account'' \<mapsto> [''SystemModstamp'' \<mapsto> VStr ''2023-09'']],
     out = [ex_msg ex_out1, StateMessage [''Account'' \<mapsto> [''SystemModstamp'' \<mapsto> VStr ''2023-05'']],
            ex_msg ex_out2, StateMessage [''Account'' \<mapsto> [''SystemModstamp'' \<mapsto> VStr ''2023-09'']],
            ex_msg ex_out3],
     count = 3\<rparr>"

definition ex_pass2 :: "string pass" where
  "ex_pass2 = \<lparr>bm = [''Account'' \<mapsto> [''JobHighestBookmarkSeen'' \<mapsto> VStr ''2023-09'']],
     out = [ex_msg ex_out1, StateMessage [''Account'' \<mapsto> [''JobHighestBookmarkSeen'' \<mapsto> VStr ''2023-05'']],
            ex_msg ex_out2, StateMessage [''Account'' \<mapsto> [''JobHighestBookmarkSeen'' \<mapsto> VStr ''2023-09'']],
            ex_msg ex_out3],
     count = 3\<rparr>"

definition ex_ce_full :: catalog_entry where
  "ex_ce_full = ex_ce\<lparr>replication_key := None\<rparr>"

definition ex_pass3 :: "string pass" where
  "ex_pass3 = \<lparr>bm = [''Account'' \<mapsto> [''version'' \<mapsto> VNull]],
     out = [ex_msg ex_out1, ex_msg ex_out2, ex_msg ex_out3,
            ActivateVersionMessage ''Account'' (VInt 1700000000000)],
     count = 3\<rparr>"

text \<open>A resumed bulk job with two pending batches: \<open>B1\<close> holds the first two records,
  \<open>B2\<close> the third.\<close>

definition ex_rp0 :: "string pass" where
  "ex_rp0 = \<lparr>bm = [''Account'' \<mapsto> [''BatchIDs'' \<mapsto> VList [VStr ''B1'', VStr ''B2'']]], out = [], count = 0\<rparr>"

definition ex_rst1 :: bookmarks where
  "ex_rst1 = [''Account'' \<mapsto> [''JobHighestBookmarkSeen'' \<mapsto> VStr ''2023-09'', ''BatchIDs'' \<mapsto> VList [VStr ''B2'']]]"

definition ex_rpass :: "string pass" where
  "ex_rpass = \<lparr>bm = [''Account'' \<mapsto> [''JobHighestBookmarkSeen'' \<mapsto> VStr ''2023-09'', ''BatchIDs'' \<mapsto> VList []]],
     out = [ex_msg ex_out1, ex_msg ex_out2, StateMessage ex_rst1, ex_msg ex_out3,
            StateMessage [''Account'' \<mapsto> [''JobHighestBookmarkSeen'' \<mapsto> VStr ''2023-09'', ''BatchIDs'' \<mapsto> VList []]]],
     count = 3\<rparr>"

text \<open>The pass that resumes from the state flushed after the first batch, and a clock
  one minute later.\<close>

definition ex_rp2 :: "string pass" where
  "ex_rp2 = \<lparr>bm = ex_rst1, out = [], count = 0\<rparr>"

definition ex_later :: "string env" where
  "ex_later = ex_env\<lparr>now_ms := 1700000060000\<rparr>"

text \<open>A query that yields one record and then fails on the API quota.\<close>

definition ex_quota :: "string env" where
  "ex_quota = ex_env\<lparr>query := (\<lambda>_. (take 1 ex_records,
     Some (raise TapSalesforceQuotaExceededException ''Quota exceeded'')))\<rparr>"

text \<open>The same job with singer's canonical timestamps as instants.\<close>

definition ex_crecords :: "dict list" where
  "ex_crecords =
     [[(''Id'', VStr ''001''), (''SystemModstamp'', VStr ''2023-05-01T00:00:00.000000Z''), (''Amount'', VStr ''42'')],
      [(''Id'', VStr ''002''), (''SystemModstamp'', VStr ''2023-09-01T00:00:00.000000Z''), (''Amount'', VStr '''')],
      [(''Id'', VStr ''003''), (''SystemModstamp'', VStr ''2024-06-01T00:00:00.000000Z''), (''Amount'', VStr ''true'')]]"

definition ex_canon :: "instant env" where
  "ex_canon = \<lparr>start_time = Instant 2024 1 1 0 0 0 0, now_ms = 1700000000000, pk_chunking = False,
     default_start_date = ''2000-01-01T00:00:00.000000Z'', strptime_with_tz = strptime_canon,
     strftime = strftime_canon, transform = (\<lambda>r s. Inr (remove_blacklisted_fields r)),
     query = (\<lambda>_. (ex_crecords, None)),
     get_batch_results = (\<lambda>job b. if b = VStr ''B1'' then (take 2 ex_crecords, None)
                                 else (drop 2 ex_crecords, None))\<rparr>"

definition ex_cp0 :: "instant pass" where
  "ex_cp0 = \<lparr>bm = [''Account'' \<mapsto> [''BatchIDs'' \<mapsto> VList [VStr ''B1'', VStr ''B2'']]], out = [], count = 0\<rparr>"

text \<open>A query that yields the later record first, and a pass that starts from a cursor.\<close>

definition ex_unsorted :: "string env" where
  "ex_unsorted = ex_env\<lparr>query := (\<lambda>_. ([ex_records ! 1, ex_records ! 0], None))\<rparr>"

definition ex_pc :: "string pass" where
  "ex_pc = \<lparr>bm = [''Account'' \<mapsto> [''SystemModstamp'' \<mapsto> VStr ''2000-01'']], out = [], count = 0\<rparr>"

definition ex_st2 :: bookmarks where
  "ex_st2 = durable_state ex_rst1 (take 2 (out (snd (resume_syncing_bulk_query ex_env ex_ce ''J'' ex_rp2))))"

lemmas ex_defs = ex_schema_def ex_ce_def ex_records_def ex_env_def ex_p0_def ex_chunked_def
  ex_out1_def ex_out2_def ex_out3_def ex_msg_def ex_pass1_def ex_pass2_def ex_ce_full_def ex_pass3_def
  ex_rp0_def ex_rst1_def ex_rpass_def ex_quota_def
  ex_rp2_def ex_later_def ex_crecords_def ex_canon_def ex_cp0_def
  ex_unsorted_def ex_pc_def

lemma ex_run_keyed: "sync_records ex_env ex_ce ex_p0 = (Inr (), ex_pass1)"
  by (simp add: eval_defs ex_defs)

lemma ex_run_chunked:
  "sync_records ex_chunked ex_ce ex_p0 =
     (Inl (raise TypeError ''strptime() argument 1 must be str, not datetime.datetime''), ex_pass2)"
  by (simp add: eval_defs ex_defs)

lemma ex_run_full: "sync_records ex_env ex_ce_full ex_p0 = (Inr (), ex_pass3)"
  by (simp add: eval_defs ex_defs)

lemma ex_run_resume: "resume_syncing_bulk_query ex_env ex_ce ''J'' ex_rp0 = (Inr 3, ex_rpass)"
  by (simp add: eval_defs ex_defs)

theorem sync_records_cursor_last_witness:
  "\<not> pk_chunking ex_env \<and> rep_key ex_ce = Some ''SystemModstamp'' \<and>
   sync_records ex_env ex_ce ex_p0 = (Inr (), ex_pass1) \<and>
   get_bookmark (bm ex_pass1) ''Account'' ''SystemModstamp'' = VStr ''2023-09''"
  using sync_records_cursor_last [where env = ex_env and ce = ex_ce and k = "''SystemModstamp''"
      and p = ex_p0 and p' = ex_pass1] ex_run_keyed
  by (simp add: eval_defs ex_defs cursor_value_def)

theorem sync_records_crash_safe_witness:
  "rep_key ex_ce = Some ''SystemModstamp'' \<and> ''SystemModstamp'' \<noteq> JHBS \<and> out ex_p0 = [] \<and>
   sync_records ex_env ex_ce ex_p0 = (Inr (), ex_pass1) \<and>
   last_state (take 2 (out ex_pass1)) = Some [''Account'' \<mapsto> [''SystemModstamp'' \<mapsto> VStr ''2023-05'']] \<and>
   VStr ''2023-05'' \<in> set (VNull # List.map_filter (cursor_value ex_env ''SystemModstamp'') [ex_out1])"
  using sync_records_crash_safe [where env = ex_env and ce = ex_ce and k = "''SystemModstamp''"
      and p = ex_p0 and res = "Inr ()" and p' = ex_pass1 and n = 2
      and b = "[''Account'' \<mapsto> [''SystemModstamp'' \<mapsto> VStr ''2023-05'']]"] ex_run_keyed
  by (simp add: eval_defs ex_defs cursor_value_def)

theorem sync_records_chunked_frame_witness:
  "pk_chunking ex_chunked \<and> rep_key ex_ce \<noteq> None \<and>
   (''Account'', ''SystemModstamp'') \<noteq> (tap_stream_id ex_ce, JHBS) \<and>
   sync_records ex_chunked ex_ce ex_p0 =
     (Inl (raise TypeError ''strptime() argument 1 must be str, not datetime.datetime''), ex_pass2) \<and>
   get_bookmark (bm ex_pass2) ''Account'' ''SystemModstamp'' = VNull"
  using sync_records_chunked_frame [where env = ex_chunked and ce = ex_ce and sid = "''Account''"
      and k = "''SystemModstamp''" and p = ex_p0 and p' = ex_pass2
      and res = "Inl (raise TypeError ''strptime() argument 1 must be str, not datetime.datetime'')"]
    ex_run_chunked
  by (simp add: eval_defs ex_defs)

theorem sync_records_chunked_watermark_witness:
  "pk_chunking ex_chunked \<and> parse_ts ex_chunked (get_start_date ex_chunked (bm ex_p0) ex_ce) = Inr ''2000-01'' \<and>
   sync_records ex_chunked ex_ce ex_p0 =
     (Inl (raise TypeError ''strptime() argument 1 must be str, not datetime.datetime''), ex_pass2) \<and>
   (\<exists>ts. [VStr ''2023-05'', VStr ''2023-09''] = map VStr ts \<and> sorted_wrt (<) (''2000-01'' # ts) \<and>
        (\<forall>t \<in> set ts. t \<le> ''2024-01''))"
  using sync_records_chunked_watermark [where env = ex_chunked and ce = ex_ce and p = ex_p0
      and seed = "''2000-01''" and p' = ex_pass2
      and res = "Inl (raise TypeError ''strptime() argument 1 must be str, not datetime.datetime'')"]
    ex_run_chunked
  by (simp add: eval_defs ex_defs)

theorem sync_records_chunked_never_completes_witness:
  "pk_chunking ex_chunked \<and> fst (sync_records ex_chunked ex_ce ex_p0) \<noteq> Inr ()"
  using sync_records_chunked_never_completes [where env = ex_chunked and ce = ex_ce and p = ex_p0]
  by (simp add: ex_chunked_def ex_env_def)

theorem sync_records_emits_processed_witness:
  "sync_records ex_env ex_ce ex_p0 = (Inr (), ex_pass1) \<and>
   map (process_record ex_env ex_ce) ex_records = [Inr ex_out1, Inr ex_out2, Inr ex_out3]"
  using sync_records_emits_processed [where env = ex_env and ce = ex_ce and p = ex_p0 and p' = ex_pass1]
    ex_run_keyed
  by (simp add: ex_defs)

theorem sync_records_count_witness:
  "sync_records ex_env ex_ce ex_p0 = (Inr (), ex_pass1) \<and> count ex_pass1 = 3"
  using sync_records_count [where env = ex_env and ce = ex_ce and p = ex_p0 and p' = ex_pass1]
    ex_run_keyed
  by (simp add: ex_defs)

theorem sync_records_tags_witness:
  "sync_records ex_env ex_ce ex_p0 = (Inr (), ex_pass1) \<and>
   RecordMessage ''Account'' ex_out2 (VInt 1700000000000) ''2024-01'' \<in> set (drop 0 (out ex_pass1)) \<and>
   get_stream_version ex_env ex_ce (bm ex_p0) = VInt 1700000000000"
  using sync_records_tags [where env = ex_env and ce = ex_ce and p = ex_p0 and p' = ex_pass1 and res = "Inr ()"
      and s = "''Account''" and r = ex_out2 and v = "VInt 1700000000000" and t = "''2024-01''"]
    ex_run_keyed
  by (simp add: ex_defs)

theorem sync_records_keyless_activates_witness:
  "rep_key ex_ce_full = None \<and> sync_records ex_env ex_ce_full ex_p0 = (Inr (), ex_pass3) \<and>
   last (out ex_pass3) = ActivateVersionMessage ''Account'' (VInt 1700000000000)"
  using sync_records_keyless_activates [where env = ex_env and ce = ex_ce_full and p = ex_p0 and p' = ex_pass3]
    ex_run_full
  by (simp add: eval_defs ex_defs)

theorem resume_drains_all_witness:
  "get_bookmark (bm ex_rp0) ''Account'' BATCH_IDS = VList [VStr ''B1'', VStr ''B2''] \<and>
   resume_syncing_bulk_query ex_env ex_ce ''J'' ex_rp0 = (Inr 3, ex_rpass) \<and>
   get_bookmark (bm ex_rpass) ''Account'' BATCH_IDS = VList [] \<and>
   3 = length (pending_records ex_env ''J'' [VStr ''B1'', VStr ''B2''])"
  using resume_drains_all [where env = ex_env and ce = ex_ce and job_id = "''J''" and p = ex_rp0
      and bids = "[VStr ''B1'', VStr ''B2'']" and n = 3 and p' = ex_rpass] ex_run_resume
  by (simp add: eval_defs ex_defs)

theorem resume_flushes_consistent_witness:
  "get_bookmark (bm ex_rp0) ''Account'' BATCH_IDS = VList [VStr ''B1'', VStr ''B2''] \<and>
   resume_syncing_bulk_query ex_env ex_ce ''J'' ex_rp0 = (Inr 3, ex_rpass) \<and>
   out ex_rpass ! 2 = StateMessage ex_rst1 \<and>
   get_bookmark ex_rst1 ''Account'' BATCH_IDS = VList (drop 1 [VStr ''B1'', VStr ''B2''])"
  using resume_flushes_consistent [where env = ex_env and ce = ex_ce and job_id = "''J''" and p = ex_rp0
      and bids = "[VStr ''B1'', VStr ''B2'']" and res = "Inr 3" and p' = ex_rpass] ex_run_resume
  by (simp add: eval_defs ex_defs)

theorem resume_watermark_witness:
  "parse_ts ex_env (resume_seed ex_env ex_ce (bm ex_rp0)) = Inr ''2000-01'' \<and>
   resume_syncing_bulk_query ex_env ex_ce ''J'' ex_rp0 = (Inr 3, ex_rpass) \<and>
   map (\<lambda>st. get_bookmark st ''Account'' JHBS) (states_of (out ex_rpass)) = [VStr ''2023-09'', VStr ''2023-09'']"
  using resume_watermark [where env = ex_env and ce = ex_ce and job_id = "''J''" and p = ex_rp0
      and cur = "''2000-01''" and res = "Inr 3" and p' = ex_rpass] ex_run_resume
  by (simp add: eval_defs ex_defs)

theorem resume_frame_witness:
  "resume_syncing_bulk_query ex_env ex_ce ''J'' ex_rp0 = (Inr 3, ex_rpass) \<and>
   (''Account'', ''SystemModstamp'') \<noteq> (tap_stream_id ex_ce, JHBS) \<and>
   (''Account'', ''SystemModstamp'') \<noteq> (tap_stream_id ex_ce, BATCH_IDS) \<and>
   get_bookmark (bm ex_rpass) ''Account'' ''SystemModstamp'' = VNull"
  using resume_frame [where env = ex_env and ce = ex_ce and job_id = "''J''" and p = ex_rp0
      and res = "Inr 3" and p' = ex_rpass and sid = "''Account''" and k = "''SystemModstamp''"] ex_run_resume
  by (simp add: eval_defs ex_defs)

theorem sync_stream_success_witness:
  "sync_stream ex_env ex_ce ex_p0 = (Inr 3, write_state ex_pass1) \<and> length (fst (query ex_env (bm ex_p0))) = 3"
  using sync_stream_success [where env = ex_env and ce = ex_ce and p = ex_p0 and n = 3
      and p' = "write_state ex_pass1"] ex_run_keyed
  by (simp add: sync_stream_def ex_defs)

theorem sync_stream_error_kinds_witness:
  "sync_stream ex_quota ex_ce ex_p0 =
     (Inl (Exn TapSalesforceQuotaExceededException ''Error syncing Account: Quota exceeded'' None),
      snd (sync_stream ex_quota ex_ce ex_p0)) \<and>
   is_tap_exception TapSalesforceQuotaExceededException"
  using sync_stream_error_kinds [where env = ex_quota and ce = ex_ce and p = ex_p0
      and e' = "Exn TapSalesforceQuotaExceededException ''Error syncing Account: Quota exceeded'' None"
      and p' = "snd (sync_stream ex_quota ex_ce ex_p0)"]
  by (simp add: eval_defs ex_defs)

theorem sync_stream_chunked_unexpected_witness:
  "pk_chunking ex_chunked \<and> parse_ts ex_chunked (get_start_date ex_chunked (bm ex_p0) ex_ce) = Inr ''2000-01'' \<and>
   query ex_chunked (bm ex_p0) = (ex_records, None) \<and>
   fst (sync_loop ex_chunked ex_ce (get_stream_version ex_chunked ex_ce (bm ex_p0)) ex_records ''2000-01''
          (ex_p0\<lparr>count := 0\<rparr>)) = Inr ''2023-09'' \<and>
   fst (sync_stream ex_chunked ex_ce ex_p0) =
     Inl (Exn PlainException
          (''Unexpected error syncing Account: strptime() argument 1 must be str, not datetime.datetime'')
          (Some (raise TypeError ''strptime() argument 1 must be str, not datetime.datetime'')))"
  using sync_stream_chunked_unexpected [where env = ex_chunked and ce = ex_ce and p = ex_p0
      and cb = "''2000-01''" and recs = ex_records and cb' = "''2023-09''"
      and pl = "snd (sync_loop ex_chunked ex_ce (get_stream_version ex_chunked ex_ce (bm ex_p0)) ex_records ''2000-01''
          (ex_p0\<lparr>count := 0\<rparr>))"]
  by (simp add: eval_defs ex_defs)

theorem fix_record_anytype_raises_iff_witness:
  "fix_record_anytype [(''Id'', VStr ''001''), (''Extra'', VStr ''1'')] ex_schema =
     Inl (raise KeyError ''Extra'') \<and>
   field_untyped ex_schema ''Extra'' = Inl (raise KeyError ''Extra'')"
  using fix_record_anytype_raises_iff [of "[(''Id'', VStr ''001''), (''Extra'', VStr ''1'')]" ex_schema]
  by (simp add: eval_defs ex_defs)

theorem fix_record_anytype_shape_witness:
  "fix_record_anytype [(''Id'', VStr ''001''), (''Amount'', VStr ''42'')] ex_schema =
     Inr [(''Id'', VStr ''001''), (''Amount'', VFloat (Fin 42))] \<and>
   field_untyped ex_schema ''Id'' = Inr False \<and> field_untyped ex_schema ''Amount'' = Inr True"
  using fix_record_anytype_shape [of "[(''Id'', VStr ''001''), (''Amount'', VStr ''42'')]" ex_schema
      "[(''Id'', VStr ''001''), (''Amount'', VFloat (Fin 42))]"]
  by (simp add: eval_defs ex_defs)

theorem transform_bulk_data_hook_spec_witness:
  "transform_bulk_data_hook (VObj [(''attributes'', VObj [(''type'', VStr ''Account'')]), (''Id'', VStr ''001'')])
      ''object'' ex_schema = Inr (VObj [(''Id'', VStr ''001'')]) \<and>
   transform_bulk_data_hook (VStr ''001'') ''string'' ex_schema = Inr (VStr ''001'')"
  using transform_bulk_data_hook_spec [where d = "[(''attributes'', VObj [(''type'', VStr ''Account'')]), (''Id'', VStr ''001'')]"
      and tp = "''object''" and sch = ex_schema and ts = "[]" and v = "VStr ''001''"]
  by (simp add: eval_defs ex_defs)

theorem get_stream_version_keyed_witness:
  "get_bookmark [''Account'' \<mapsto> [''version'' \<mapsto> VInt 0]] ''Account'' ''version'' = VInt 0 \<and>
   get_stream_version ex_env ex_ce [''Account'' \<mapsto> [''version'' \<mapsto> VInt 0]] = VInt 1700000000000"
  using get_stream_version_keyed [where st = "[''Account'' \<mapsto> [''version'' \<mapsto> VInt 0]]" and ce = ex_ce
      and v = 0 and env = ex_env]
  by (simp add: eval_defs ex_defs)

lemma ex_resume_runs:
  "resume_runs ex_env ex_ce ''J'' (bm ex_rp0) [ex_out1, ex_out2] ex_rst1"
proof -
  have "resume_runs ex_env ex_ce ''J'' (bm ex_rp0) ([] @ records_of (upto_last_state (take 3 (out ex_rpass))))
      (durable_state (bm ex_rp0) (take 3 (out ex_rpass)))"
    using ex_run_resume by (intro resume_runs.killed [OF resume_runs.start]) (simp_all add: ex_rp0_def)
  moreover have "[] @ records_of (upto_last_state (take 3 (out ex_rpass))) = [ex_out1, ex_out2]"
    "durable_state (bm ex_rp0) (take 3 (out ex_rpass)) = ex_rst1"
    by (simp_all add: ex_rpass_def ex_msg_def durable_state_def)
  ultimately show ?thesis by simp
qed

theorem resume_runs_invariant_witness:
  "resume_runs ex_env ex_ce ''J'' (bm ex_rp0) [ex_out1, ex_out2] ex_rst1 \<and>
   get_bookmark (bm ex_rp0) ''Account'' BATCH_IDS = VList [VStr ''B1'', VStr ''B2''] \<and>
   get_bookmark ex_rst1 ''Account'' BATCH_IDS = VList (drop 1 [VStr ''B1'', VStr ''B2''])"
  using resume_runs_invariant [OF ex_resume_runs, of "[VStr ''B1'', VStr ''B2'']"] ex_resume_runs
  by (simp add: eval_defs ex_defs)

theorem resume_runs_complete_witness:
  "resume_runs ex_env ex_ce ''J'' (bm ex_rp0) [ex_out1, ex_out2] ex_rst1 \<and>
   get_bookmark (bm ex_rp0) ''Account'' BATCH_IDS = VList [VStr ''B1'', VStr ''B2''] \<and>
   resume_syncing_bulk_query ex_env ex_ce ''J'' \<lparr>bm = ex_rst1, out = [], count = 0\<rparr> =
     (Inr 1, snd (resume_syncing_bulk_query ex_env ex_ce ''J'' \<lparr>bm = ex_rst1, out = [], count = 0\<rparr>)) \<and>
   [ex_out1, ex_out2] @ records_of (out (snd (resume_syncing_bulk_query ex_env ex_ce ''J'' \<lparr>bm = ex_rst1, out = [], count = 0\<rparr>)))
     = [ex_out1, ex_out2, ex_out3]"
  using resume_runs_complete [OF ex_resume_runs, of "[VStr ''B1'', VStr ''B2'']" ex_env 1
      "snd (resume_syncing_bulk_query ex_env ex_ce ''J'' \<lparr>bm = ex_rst1, out = [], count = 0\<rparr>)"] ex_resume_runs
  by (simp add: eval_defs ex_defs)

theorem strptime_strftime_canon_witness:
  "valid_instant (Instant 2024 2 29 13 7 9 42) \<and>
   strptime_canon (strftime_canon (Instant 2024 2 29 13 7 9 42)) = Some (Instant 2024 2 29 13 7 9 42)"
  using strptime_strftime_canon [of "Instant 2024 2 29 13 7 9 42"]
  by (simp add: eval_defs)

theorem strftime_strptime_canon_witness:
  "strptime_canon ''2024-01-05T13:07:09.000042Z'' = Some (Instant 2024 1 5 13 7 9 42) \<and>
   strftime_canon (Instant 2024 1 5 13 7 9 42) = ''2024-01-05T13:07:09.000042Z''"
  using strftime_strptime_canon [of "''2024-01-05T13:07:09.000042Z''" "Instant 2024 1 5 13 7 9 42"]
  by (simp add: eval_defs)

theorem resume_refines_job_spec_witness:
  "get_bookmark (bm ex_rp0) ''Account'' BATCH_IDS = VList [VStr ''B1'', VStr ''B2''] \<and>
   parse_ts ex_env (resume_seed ex_env ex_ce (bm ex_rp0)) = Inr ''2000-01'' \<and>
   resume_syncing_bulk_query ex_env ex_ce ''J'' ex_rp0 = (Inr 3, ex_rpass) \<and>
   pending (job_of ex_ce ''2000-01'' ex_rp0) = [VStr ''B1'', VStr ''B2'']"
  using resume_refines_job_spec [where env = ex_env and ce = ex_ce and job_id = "''J''" and p = ex_rp0
      and bids = "[VStr ''B1'', VStr ''B2'']" and cur = "''2000-01''" and n = 3 and p' = ex_rpass] ex_run_resume
  by (simp add: eval_defs ex_defs job_of_def)

theorem resume_final_watermark_witness:
  "get_bookmark (bm ex_rp0) ''Account'' BATCH_IDS = VList [VStr ''B1'', VStr ''B2''] \<and>
   [VStr ''B1'', VStr ''B2''] \<noteq> [] \<and>
   parse_ts ex_env (resume_seed ex_env ex_ce (bm ex_rp0)) = Inr ''2000-01'' \<and>
   resume_syncing_bulk_query ex_env ex_ce ''J'' ex_rp0 = (Inr 3, ex_rpass) \<and>
   get_bookmark (bm ex_rpass) ''Account'' JHBS = VStr ''2023-09''"
  using resume_final_watermark [where env = ex_env and ce = ex_ce and job_id = "''J''" and p = ex_rp0
      and bids = "[VStr ''B1'', VStr ''B2'']" and cur = "''2000-01''" and n = 3 and p' = ex_rpass] ex_run_resume
  by (simp add: eval_defs ex_defs)

theorem sync_records_cursor_max_witness:
  "\<not> pk_chunking ex_env \<and> rep_key ex_ce = Some ''SystemModstamp'' \<and>
   sync_records ex_env ex_ce ex_pc = (Inr (), snd (sync_records ex_env ex_ce ex_pc)) \<and>
   parse_ts ex_env (get_bookmark (bm ex_pc) ''Account'' ''SystemModstamp'') = Inr ''2000-01'' \<and>
   List.map_filter (cursor_instant ex_env ''SystemModstamp'')
     (records_of (drop 0 (out (snd (sync_records ex_env ex_ce ex_pc))))) = [''2023-05'', ''2023-09''] \<and>
   get_bookmark (bm (snd (sync_records ex_env ex_ce ex_pc))) ''Account'' ''SystemModstamp'' = VStr ''2023-09''"
  using sync_records_cursor_max [where env = ex_env and ce = ex_ce and k = "''SystemModstamp''" and p = ex_pc
      and p' = "snd (sync_records ex_env ex_ce ex_pc)" and tc = "''2000-01''"]
  by (simp add: eval_defs ex_defs cursor_value_def List.map_filter_def)

theorem sync_records_cursor_flushes_witness:
  "\<not> pk_chunking ex_unsorted \<and> rep_key ex_ce = Some ''SystemModstamp'' \<and>
   sync_records ex_unsorted ex_ce ex_p0 = (Inr (), snd (sync_records ex_unsorted ex_ce ex_p0)) \<and>
   map (\<lambda>b. get_bookmark b ''Account'' ''SystemModstamp'')
     (states_of (out (snd (sync_records ex_unsorted ex_ce ex_p0)))) = [VStr ''2023-09'', VStr ''2023-05''] \<and>
   List.map_filter (cursor_value ex_unsorted ''SystemModstamp'')
     (records_of (out (snd (sync_records ex_unsorted ex_ce ex_p0)))) = [VStr ''2023-09'', VStr ''2023-05'']"
  using sync_records_cursor_flushes [where env = ex_unsorted and ce = ex_ce and k = "''SystemModstamp''"
      and p = ex_p0 and res = "Inr ()" and p' = "snd (sync_records ex_unsorted ex_ce ex_p0)"]
  by (simp add: eval_defs ex_defs cursor_value_def List.map_filter_def)

theorem fix_record_anytype_twice_witness:
  "fix_record_anytype [(''Id'', VStr ''001''), (''Amount'', VStr ''true'')] ex_schema =
     Inr [(''Id'', VStr ''001''), (''Amount'', VBool True)] \<and>
   fix_record_anytype [(''Id'', VStr ''001''), (''Amount'', VBool True)] ex_schema =
     Inr [(''Id'', VStr ''001''), (''Amount'', VFloat (Fin 1))]"
  using fix_record_anytype_twice [where rec = "[(''Id'', VStr ''001''), (''Amount'', VStr ''true'')]"
      and sch = ex_schema and rec' = "[(''Id'', VStr ''001''), (''Amount'', VBool True)]"]
  by (simp add: eval_defs ex_defs)

theorem sync_records_completes_witness:
  "\<not> pk_chunking ex_env \<and> parse_ts ex_env (get_start_date ex_env (bm ex_p0) ex_ce) = Inr ''2000-01'' \<and>
   snd (query ex_env (bm ex_p0)) = None \<and> list_all (record_ok ex_env ex_ce) (fst (query ex_env (bm ex_p0))) \<and>
   fst (sync_records ex_env ex_ce ex_p0) = Inr ()"
  using sync_records_completes [where env = ex_env and ce = ex_ce and p = ex_p0 and cb = "''2000-01''"]
  by (simp add: eval_defs ex_defs)

theorem sync_records_count_bounds_witness:
  "sync_records ex_chunked ex_ce ex_p0 =
     (Inl (raise TypeError ''strptime() argument 1 must be str, not datetime.datetime''), ex_pass2) \<and>
   count ex_pass2 \<le> count ex_p0 + length (fst (query ex_chunked (bm ex_p0)))"
  using sync_records_count_bounds [where env = ex_chunked and ce = ex_ce and p = ex_p0 and p' = ex_pass2
      and res = "Inl (raise TypeError ''strptime() argument 1 must be str, not datetime.datetime'')"] ex_run_chunked
  by (simp add: ex_defs)

theorem resume_completes_witness:
  "get_bookmark (bm ex_rp0) ''Account'' BATCH_IDS = VList [VStr ''B1'', VStr ''B2''] \<and>
   parse_ts ex_env (resume_seed ex_env ex_ce (bm ex_rp0)) = Inr ''2000-01'' \<and>
   list_all (\<lambda>b. snd (get_batch_results ex_env ''J'' b) = None) [VStr ''B1'', VStr ''B2''] \<and>
   list_all (record_ok ex_env ex_ce) (pending_records ex_env ''J'' [VStr ''B1'', VStr ''B2'']) \<and>
   fst (resume_syncing_bulk_query ex_env ex_ce ''J'' ex_rp0) = Inr 3"
  using resume_completes [where env = ex_env and ce = ex_ce and job_id = "''J''" and p = ex_rp0
      and bids = "[VStr ''B1'', VStr ''B2'']" and cur = "''2000-01''"] ex_run_resume
  by (simp add: eval_defs ex_defs)

theorem resume_batch_ids_not_list_witness:
  "parse_ts ex_env (resume_seed ex_env ex_ce (bm ex_p0)) = Inr ''2000-01'' \<and>
   get_bookmark (bm ex_p0) ''Account'' BATCH_IDS = VNull \<and>
   resume_syncing_bulk_query ex_env ex_ce ''J'' ex_p0 =
     (Inl (raise TypeError ''object is not subscriptable''), ex_p0)"
  using resume_batch_ids_not_list [where env = ex_env and ce = ex_ce and p = ex_p0 and cur = "''2000-01''"
      and job_id = "''J''"]
  by (simp add: eval_defs ex_defs)


lemma ex_progress:
  "(progress_run ex_env ex_ce ''J'' ^^ 2) ex_st2 (bm ex_rp0)"
proof -
  have ne1: "ex_rst1 \<noteq> bm ex_rp0"
  proof
    assume "ex_rst1 = bm ex_rp0"
    then have "get_bookmark ex_rst1 ''Account'' JHBS = get_bookmark (bm ex_rp0) ''Account'' JHBS" by simp
    then show False by (simp add: eval_defs ex_defs)
  qed
  have ne2: "ex_st2 \<noteq> ex_rst1"
  proof
    assume "ex_st2 = ex_rst1"
    then have "get_bookmark ex_st2 ''Account'' BATCH_IDS = get_bookmark ex_rst1 ''Account'' BATCH_IDS" by simp
    then show False by (simp add: eval_defs ex_defs ex_st2_def durable_state_def)
  qed
  have c: "durable_state (bm ex_rp0) (take 3 (out ex_rpass)) = ex_rst1"
    by (simp add: ex_rpass_def ex_msg_def durable_state_def)
  have a: "progress_run ex_env ex_ce ''J'' (durable_state (bm ex_rp0) (take 3 (out ex_rpass))) (bm ex_rp0)"
    using ex_run_resume
    by (intro progress_run.intros [where bs = "[VStr ''B1'', VStr ''B2'']"])
       (simp_all only: c ne1, simp_all add: eval_defs ex_defs)
  have b: "progress_run ex_env ex_ce ''J'' ex_st2 ex_rst1"
    using ne2 unfolding ex_st2_def
    by (intro progress_run.intros [where bs = "[VStr ''B2'']" and res = "Inr 1" and env = ex_env])
       (simp_all add: eval_defs ex_defs)
  from a b c show ?thesis by (auto simp: numeral_2_eq_2)
qed

theorem resume_retry_bound_witness:
  "(progress_run ex_env ex_ce ''J'' ^^ 2) ex_st2 (bm ex_rp0) \<and>
   get_bookmark (bm ex_rp0) ''Account'' BATCH_IDS = VList [VStr ''B1'', VStr ''B2''] \<and>
   get_bookmark ex_st2 ''Account'' BATCH_IDS = VList [] \<and> (2::nat) \<le> length [VStr ''B1'', VStr ''B2'']"
  using resume_retry_bound [OF ex_progress, of "[VStr ''B1'', VStr ''B2'']"] ex_progress
  by (simp add: eval_defs ex_defs ex_st2_def durable_state_def)

theorem drain_pending_terminates_witness:
  "get_bookmark (bm ex_rp0) ''Account'' BATCH_IDS = VList [VStr ''B1'', VStr ''B2''] \<and>
   drain_pending ex_env ex_ce ''J'' (get_stream_version ex_env ex_ce (bm ex_rp0)) ''2000-01'' ex_rp0 =
     Some (resume_batches ex_env ex_ce ''J'' (get_stream_version ex_env ex_ce (bm ex_rp0))
             [VStr ''B1'', VStr ''B2''] ''2000-01'' ex_rp0)"
  using drain_pending_terminates [where env = ex_env and ce = ex_ce and job_id = "''J''" and p = ex_rp0
      and bids = "[VStr ''B1'', VStr ''B2'']" and cur = "''2000-01''"
      and version = "get_stream_version ex_env ex_ce (bm ex_rp0)"]
  by (simp add: eval_defs ex_defs)

end
