(* ===== verification/Spec2Isabelle.thy ===== *)
theory Spec2Isabelle
  imports Examples Timestamps
begin

text \<open>
  Verification development of \<open>src/tap_salesforce/sync.py\<close> of pipelinewise-tap-salesforce,
  the incremental sync core of a singer tap: it reads records of a Salesforce object,
  repairs them, writes them as \<open>RECORD\<close> messages and checkpoints its progress in
  bookmarks flushed as \<open>STATE\<close> messages, so that a killed run can be resumed.

  \<^bold>\<open>Parts of the program and their theories.\<close>
  \<^item> \<open>Prelude\<close>: statements as functions from a world to a result that is an exception
    (\<open>Inl\<close>) or a value (\<open>Inr\<close>) together with the world after the statement
    (\<open>exc_bind\<close> sequences them as Python does); list lemmas the loop proofs share
    (\<open>list.remove\<close> as \<open>remove1\<close>).
  \<^item> \<open>Values\<close>: Python values (\<open>pyval\<close>), dicts as association lists in insertion order,
    truthiness, subscripts and \<open>dict.get\<close> with their errors, exceptions by class with
    message and cause.
  \<^item> \<open>Bookmarks\<close> (the Bookmark Store, singer's \<open>get_bookmark\<close>/\<open>write_bookmark\<close>/
    \<open>write_state\<close>/\<open>write_message\<close>, modelled from the specification since singer is not
    in \<open>src/\<close>): the state \<open>state['bookmarks'][stream][key]\<close> is a nested map, a pass is
    the record \<open>pass\<close> of the state, the messages written so far and the record counter.
    A crash after the first \<open>n\<close> messages leaves \<open>last_state (take n ms)\<close> as the
    durable state and \<open>records_of (take n ms)\<close> as the delivered records.
  \<^item> \<open>PostProcess\<close> (Record Post-Processor, lines 11--28 and 163--185):
    \<open>remove_blacklisted_fields\<close>, \<open>transform_bulk_data_hook\<close>, and \<open>fix_record_anytype\<close>
    with its \<open>try_cast\<close> over Python's \<open>int()\<close> and \<open>float()\<close> string grammars
    (\<open>py_int_str\<close>, \<open>py_float_str\<close>), each assignment of the loop body in source order.
  \<^item> \<open>SyncEnv\<close>: the catalog entry, the collaborators of a pass as the fields of an
    \<open>env\<close> record (clock, \<open>sf.pk_chunking\<close>, configured start date, singer's timestamp
    parser and formatter over any linear order of instants, the \<open>Transformer\<close>,
    \<open>sf.query\<close> and \<open>Bulk.get_batch_results\<close> as finite record lists followed by an
    optional exception), \<open>get_start_date\<close> (from the specification), and the record
    pipeline both drivers share (\<open>emit_record\<close>: count, transform, repair, emit).
  \<^item> \<open>StreamVersion\<close> (Stream Version Assigner, lines 30--38): \<open>get_stream_version\<close>.
  \<^item> \<open>SyncRecords\<close> (Simple Sync Driver, lines 99--161): \<open>sync_record_bookmark\<close> (the
    bookmark update of lines 127--145), \<open>sync_record_step\<close> (one loop iteration),
    \<open>sync_loop\<close> (the loop over \<open>sf.query\<close>), \<open>sync_records_finish\<close> (lines 147--161)
    and \<open>sync_records\<close>.
  \<^item> \<open>ResumeBulk\<close> (Resumable Batch-Job Driver, lines 40--80): \<open>resume_seed\<close>,
    \<open>batch_ids_copy\<close> (\<open>batch_ids[:]\<close>), \<open>resume_record_step\<close>, \<open>resume_records\<close>,
    \<open>resume_batch\<close> (drain, write watermark, \<open>batch_ids_remove\<close>, flush),
    \<open>resume_batches\<close> and \<open>resume_syncing_bulk_query\<close>.
  \<^item> \<open>ResumeSpec\<close>: the abstract job machine of section 4.4 of the specification
    (\<open>job_step\<close>: drain the first pending batch, deliver its records, raise the
    watermark to the largest eligible instant) and the abstraction \<open>job_of\<close> from a
    pass of the concrete driver.
  \<^item> \<open>Resumption\<close>: the process-level behaviour of the resume driver, as the inductive
    relation \<open>resume_runs\<close> over sequences of runs each killed at an arbitrary message
    and restarted from the durable state (\<open>durable_state\<close>, the last flushed state) with
    its own clock; \<open>progress_run\<close>, one such killed run that changed the durable
    state, is the step of an external retry layer, measured by \<open>pending_count\<close>.
  \<^item> \<open>ResumeWorklist\<close>: the loop of the resume driver read as a work-list drain of the
    persisted \<open>BatchIDs\<close> (\<open>drain_pending\<close>, a \<open>partial_function (option)\<close>).
  \<^item> \<open>SyncStream\<close> (Sync Orchestrator, lines 82--97): \<open>sync_stream\<close> with a fresh
    counter, the final flush and the error translation \<open>sync_stream_error\<close>.
  \<^item> \<open>Timestamps\<close> (singer's timestamp format, from the specification): \<open>instant\<close>
    is a \<open>datetime\<close> with its field ranges (\<open>valid_instant\<close>) and a \<open>linorder\<close>
    instance, so the drivers apply to it; \<open>strftime_canon\<close> writes \<open>DATETIME_FMT\<close> and
    \<open>strptime_canon\<close> reads that format back.
  \<^item> \<open>Examples\<close>: one concrete stream, job and clock on which every theorem with a
    hypothesis is instantiated (the witnesses), by evaluation with \<open>simp\<close>.

  \<^bold>\<open>Correspondence.\<close> Each Python statement that changes the state, writes a
  message or increments the counter is a step of the model on the \<open>pass\<close> record, in
  source order; every \<open>raise\<close> of the code or of a collaborator is an \<open>Inl\<close> result
  that keeps the world as it was at the raise (messages already written stay written).
  The state dict that the caller shares with the drivers and mutates in place is the
  \<open>bm\<close> field threaded through every step, so the caller sees every write.

  \<^bold>\<open>What is proved.\<close> Claims C1--C9 (\<open>SyncRecords\<close>): the cursor after a non-chunked
  pass is the last emitted value at or before the pass start; every flushed cursor is
  backed by a record emitted before it (crash safety); a chunked pass changes only the
  watermark, which strictly increases; a chunked pass never completes (line 161
  applies \<open>strptime\<close> to a \<open>datetime\<close>); records are emitted processed, in order, once,
  counted and tagged; a keyless pass ends with \<open>ACTIVATE_VERSION\<close>. C10--C13
  (\<open>ResumeBulk\<close>): the resume driver drains every batch once and empties \<open>BatchIDs\<close>;
  each flush records a completed prefix of the batch list with exactly its records; the
  flushed watermark never decreases and stays at or before the pass start; no other
  bookmark is written. C14--C16 (\<open>SyncStream\<close>): counter and final flush of a
  successful pass; error kinds kept or wrapped with cause; a chunked pass surfaces as an
  unexpected error. C17--C22 (\<open>PostProcess\<close>): the repair never yields an integer and
  equals a decision table (the int cast is dead); the repair is not idempotent, a second
  repair turning exactly the booleans it produced into floats; the repair raises exactly
  on fields missing from the schema; shape of a repaired record;
  the pre-hook. C23 (\<open>StreamVersion\<close>): version reuse for keyed streams, except
  version 0. C24--C25 (this theory): resuming after a crash at any point delivers every
  record of the job exactly once up to the records after the last flush; two keyless
  passes at different clocks rotate the version. C26--C27 (\<open>Resumption\<close>, by rule
  induction over \<open>resume_runs\<close>): after any number of killed runs the durable
  \<open>BatchIDs\<close> is a suffix of the original list and the records delivered up to the
  flushes are exactly those of the removed batches; one run that then returns completes
  the job with every record delivered exactly once. The lemmas of \<open>Timestamps\<close> show
  the canonical writer and reader inverse on valid instants and on accepted strings;
  C28 (this theory): with that format, the next run resumes at exactly the watermark
  the previous run flushed. C12 also records that each flushed watermark is an instant
  the parser produced. C29--C30 (\<open>ResumeSpec\<close>): refinement, a returning run of the
  resume driver is a run of the abstract job machine that empties the queue, so its final
  watermark is the maximum of the resume point and the eligible instants of all delivered
  records. C31--C32: under the ordering the specification assumes, the cursor of a
  non-chunked pass is the maximum eligible value; whatever the order, the cursors a
  non-chunked pass flushes are exactly the eligible values in arrival order, so without
  that ordering the cursor moves backwards (a concrete run in \<open>Examples\<close>). C33 and C35: both drivers return normally when no
  collaborator fails (the chunked pass excepted, C5). C34: the counter of a pass grows by
  at least the records emitted and at most the records queried, whatever the outcome.
  C36: a resume point without a persisted \<open>BatchIDs\<close> list fails with \<open>TypeError\<close>
  on \<open>batch_ids[:]\<close> before any message or state change. C37 (\<open>ResumeWorklist\<close>):
  the work-list drain returns on every list and equals the code's iteration over the copy.
  C38--C39 (\<open>Resumption\<close>): retrying after kills terminates, at most \<open>length bids\<close>
  killed runs in a row changing the durable state.

  \<^bold>\<open>Bounds and termination.\<close> Every loop of the code runs over a finite list
  (the records a collaborator yields, the copied batch list, the items of a record), so
  every loop is a structurally recursive \<open>fun\<close> and every operation is total; no fuel
  is needed. What a termination argument would say of the code, that a pass returns, is
  stated as normal completion under non-failing collaborators (C33, C35). Two loops are
  not structural: the work-list reading of the resume loop, which takes the batch list
  from the state at every step, is a \<open>partial_function (option)\<close> proved to return
  Some (C37); and a retry layer that re-invokes the driver after every kill, whose
  progress relation is well-founded with the length of the persisted \<open>BatchIDs\<close> as
  measure (C38) and whose chains of progressing runs are bounded by that length (C39). Integers are Python's unbounded ints (\<open>int\<close>); the clock is a
  parameter, so no overflow arises.

  \<^bold>\<open>Not modelled.\<close> The singer library (the \<open>Transformer\<close> beyond its pre-hook,
  message serialisation, and dateutil's parsing of formats other than singer's
  canonical one; the drivers take the parser and formatter as parameters over any linear
  order of instants), the Salesforce client (\<open>sf.query\<close>,
  \<open>Bulk.get_batch_results\<close>, \<open>sf.get_start_date\<close> apart from its specified result),
  the metrics counter beyond its count, logging, CLI and configuration (none of them under
  \<open>src/\<close>). Floats are exact rationals of their decimal literal: IEEE rounding is not
  modelled, so the repair is exact on the values it produces. The implicit exception
  context Python attaches to a re-raised domain error is not a cause and is omitted.
  The choice between the two drivers is made by callers outside \<open>src/\<close>.
  The collaborators are fixed for a pass: \<open>sf.pk_chunking\<close>, read on lines 127 and
  155, is one field of \<open>env\<close>, and one clock reading serves both \<open>time.time()\<close> calls of
  \<open>get_stream_version\<close>; singer's \<open>strftime\<close> is total here, whereas the library
  raises on a datetime that is not in UTC.
\<close>

section \<open>Properties across components\<close>

text \<open>C24: resumption after a crash delivers every record of the job exactly once, up to
  the records emitted after the last flush. If a run of the resume driver over the batch
  list \<open>bids\<close> is killed after any prefix of its messages, and a later run resumes from
  the state of the last \<open>STATE\<close> message of that prefix against the same job, then the
  records the first run emitted up to that flush, followed by all the records of the second
  run, are exactly the processed records of all batches of \<open>bids\<close>, in order: no batch
  already removed from \<open>BatchIDs\<close> is requested again and none is skipped.\<close>

theorem resume_after_crash_exactly_once:
  assumes bids: "get_bookmark (bm p) (tap_stream_id ce) BATCH_IDS = VList bids"
    and run1: "resume_syncing_bulk_query env ce job_id p = (res, p')"
    and crash: "last_state (take j (drop (length (out p)) (out p'))) = Some st"
    and st: "bm q = st"
    and run2: "resume_syncing_bulk_query env' ce job_id q = (Inr n, q')"
    and same: "get_batch_results env' job_id = get_batch_results env job_id" "transform env' = transform env"
  shows "\<exists>i \<le> j. map Inr (records_of (take i (drop (length (out p)) (out p'))) @ records_of (drop (length (out q)) (out q')))
           = map (process_record env ce) (pending_records env job_id bids)"
proof -
  have "\<exists>ms. out p' = out p @ ms \<and>
     (\<forall>i < length ms. \<forall>st. ms ! i = StateMessage st \<longrightarrow>
        (\<exists>k. 0 < k \<and> k \<le> length bids \<and> get_bookmark st (tap_stream_id ce) BATCH_IDS = VList (drop k bids) \<and>
           map Inr (records_of (take i ms)) = map (process_record env ce) (pending_records env job_id (take k bids))))"
    using run1
  proof (cases rule: resume_syncing_bulk_query_run)
    case start_failed
    then show ?thesis by (intro exI [of _ "[]"]) simp
  next
    case (looped cur bids' r)
    with bids have "bids' = bids" by simp
    with looped(3) show ?thesis by (rule_tac resume_batches_flushes [OF bids]) simp
  qed
  then obtain ms where o1: "out p' = out p @ ms" and
    fl: "\<forall>i < length ms. \<forall>st. ms ! i = StateMessage st \<longrightarrow>
        (\<exists>k. 0 < k \<and> k \<le> length bids \<and> get_bookmark st (tap_stream_id ce) BATCH_IDS = VList (drop k bids) \<and>
           map Inr (records_of (take i ms)) = map (process_record env ce) (pending_records env job_id (take k bids)))"
    by blast
  from crash o1 have "last_state (take j ms) = Some st" by simp
  then obtain i where "i < length (take j ms)" "take j ms ! i = StateMessage st"
    by (blast dest: last_state_Some_nth)
  then have i: "i < j" "i < length ms" "ms ! i = StateMessage st" by simp_all
  with fl obtain k where k: "get_bookmark st (tap_stream_id ce) BATCH_IDS = VList (drop k bids)"
    "map Inr (records_of (take i ms)) = map (process_record env ce) (pending_records env job_id (take k bids))"
    by blast
  have "\<exists>ms3. out q' = out q @ ms3 \<and>
      map Inr (records_of ms3) = map (process_record env' ce) (pending_records env' job_id (drop k bids))"
    using run2
  proof (cases rule: resume_syncing_bulk_query_run)
    case (looped cur bids' r)
    from k st looped(2) have b2: "bids' = drop k bids" by simp
    from k st have bb: "get_bookmark (bm q) (tap_stream_id ce) BATCH_IDS = VList (drop k bids)" by simp
    from looped(4) obtain c where "r = Inr c" by (cases r) auto
    with looped(3) b2 have "resume_batches env' ce job_id (get_stream_version env' ce (bm q)) (drop k bids) cur q = (Inr c, q')"
      by simp
    from resume_batches_Inr [OF bb this] show ?thesis by blast
  qed simp
  then obtain ms3 where o3: "out q' = out q @ ms3" and
    r3: "map Inr (records_of ms3) = map (process_record env' ce) (pending_records env' job_id (drop k bids))"
    by blast
  have "pending_records env job_id (take k bids) @ pending_records env job_id (drop k bids) =
      pending_records env job_id bids"
    by (metis append_take_drop_id pending_records_append)
  then have "map (process_record env ce) (pending_records env job_id bids) =
      map (process_record env ce) (pending_records env job_id (take k bids)) @
      map (process_record env ce) (pending_records env job_id (drop k bids))"
    by (metis map_append)
  with k(2) r3 o1 o3 i(1) show ?thesis
    by (intro exI [of _ i]) (simp add: resume_same_source [OF same])
qed

text \<open>C25: version rotation. Two successful passes over a stream without a replication key,
  run at different clock readings, tag their records with two different versions, and each
  ends with an \<open>ACTIVATE_VERSION\<close> message for its own version and a cleared version
  bookmark.\<close>

theorem keyless_version_rotation:
  assumes "rep_key ce = None"
    and "sync_records env_a ce p = (Inr (), pa)" and "sync_records env_b ce q = (Inr (), qa)"
    and "now_ms env_a \<noteq> now_ms env_b"
  shows "\<exists>v1 v2 rs1 rs2. v1 \<noteq> v2 \<and>
    out pa = out p @ map (record_message env_a ce v1) rs1 @ [ActivateVersionMessage (stream_name ce) v1] \<and>
    out qa = out q @ map (record_message env_b ce v2) rs2 @ [ActivateVersionMessage (stream_name ce) v2] \<and>
    get_bookmark (bm pa) (tap_stream_id ce) ''version'' = VNull \<and>
    get_bookmark (bm qa) (tap_stream_id ce) ''version'' = VNull"
  using sync_records_keyless_Inr [OF assms(1,2)] sync_records_keyless_Inr [OF assms(1,3)] assms(4)
  by blast

text \<open>C28: with singer's canonical timestamp format, every high-watermark the resume
  driver flushes is read back by the next run, whatever its clock, as exactly the instant
  that was saved, which is at or after the resume point of the run that saved it.\<close>

theorem resume_watermark_read_back:
  assumes canon: "strptime_with_tz env = strptime_canon" "strftime env = strftime_canon"
    and seed: "parse_ts env (resume_seed env ce (bm p)) = Inr cur"
    and run: "resume_syncing_bulk_query env ce job_id p = (res, p')"
    and st: "st \<in> set (states_of (drop (length (out p)) (out p')))"
    and nxt: "strptime_with_tz env' = strptime_canon"
  shows "\<exists>t. get_bookmark st (tap_stream_id ce) JHBS = VStr (strftime_canon t) \<and> cur \<le> t \<and>
    parse_ts env' (resume_seed env' ce st) = Inr t"
proof -
  obtain ms ts where o: "out p' = out p @ ms" and
    j: "map (\<lambda>st. get_bookmark st (tap_stream_id ce) JHBS) (states_of ms) = map (\<lambda>t. VStr (strftime env t)) ts" and
    so: "sorted (cur # ts)" and pv: "\<forall>t \<in> set ts. t = cur \<or> parsed_before_start env t"
    using run
  proof (cases rule: resume_syncing_bulk_query_run)
    case start_failed
    with st show ?thesis by simp
  next
    case (looped cur' bids r)
    with seed have "cur' = cur" by simp
    with looped(3) resume_batches_bookmarks that show ?thesis by blast
  qed
  from st o have "st \<in> set (states_of ms)" by simp
  then obtain i where i: "i < length (states_of ms)" "states_of ms ! i = st"
    by (auto simp: in_set_conv_nth)
  from j have len: "length ts = length (states_of ms)" by (metis length_map)
  from j i have jh: "get_bookmark st (tap_stream_id ce) JHBS = VStr (strftime env (ts ! i))"
    by (metis (no_types, lifting) len nth_map)
  from i len have mem: "ts ! i \<in> set ts" by simp
  with so have le: "cur \<le> ts ! i" by simp
  from seed obtain s0 where "strptime_with_tz env s0 = Some cur" by (blast dest: parse_ts_Inr)
  with canon(1) have "valid_instant cur" by (simp add: strptime_canon_valid)
  moreover from mem pv obtain s where "ts ! i = cur \<or> strptime_with_tz env s = Some (ts ! i)" by blast
  ultimately have "valid_instant (ts ! i)" using canon(1) by (auto simp: strptime_canon_valid)
  then have "parse_ts env' (resume_seed env' ce st) = Inr (ts ! i)"
    using jh canon(2) nxt by (simp add: resume_seed_def parse_ts_def strptime_strftime_canon_Some)
  with jh le canon(2) show ?thesis by auto
qed

theorem resume_after_crash_exactly_once_witness:
  "get_bookmark (bm ex_rp0) ''Account'' BATCH_IDS = VList [VStr ''B1'', VStr ''B2''] \<and>
   resume_syncing_bulk_query ex_env ex_ce ''J'' ex_rp0 = (Inr 3, ex_rpass) \<and>
   last_state (take 3 (drop 0 (out ex_rpass))) = Some ex_rst1 \<and>
   resume_syncing_bulk_query ex_env ex_ce ''J'' ex_rp2 = (Inr 1, snd (resume_syncing_bulk_query ex_env ex_ce ''J'' ex_rp2)) \<and>
   records_of (take 2 (out ex_rpass)) @ records_of (out (snd (resume_syncing_bulk_query ex_env ex_ce ''J'' ex_rp2))) =
     [ex_out1, ex_out2, ex_out3]"
  using resume_after_crash_exactly_once [where env = ex_env and ce = ex_ce and job_id = "''J''" and p = ex_rp0
      and bids = "[VStr ''B1'', VStr ''B2'']" and res = "Inr 3" and p' = ex_rpass and j = 3 and st = ex_rst1
      and q = ex_rp2 and env' = ex_env and n = 1 and q' = "snd (resume_syncing_bulk_query ex_env ex_ce ''J'' ex_rp2)"]
    ex_run_resume
  by (simp add: eval_defs ex_defs)

theorem keyless_version_rotation_witness:
  "rep_key ex_ce_full = None \<and> sync_records ex_env ex_ce_full ex_p0 = (Inr (), ex_pass3) \<and>
   sync_records ex_later ex_ce_full ex_pass3 = (Inr (), snd (sync_records ex_later ex_ce_full ex_pass3)) \<and>
   now_ms ex_env \<noteq> now_ms ex_later"
  using keyless_version_rotation [where ce = ex_ce_full and env_a = ex_env and p = ex_p0 and pa = ex_pass3
      and env_b = ex_later and q = ex_pass3 and qa = "snd (sync_records ex_later ex_ce_full ex_pass3)"]
    ex_run_full
  by (simp add: eval_defs ex_defs)

theorem resume_watermark_read_back_witness:
  "strptime_with_tz ex_canon = strptime_canon \<and> strftime ex_canon = strftime_canon \<and>
   parse_ts ex_canon (resume_seed ex_canon ex_ce (bm ex_cp0)) = Inr (Instant 2000 1 1 0 0 0 0) \<and>
   [''Account'' \<mapsto> [''JobHighestBookmarkSeen'' \<mapsto> VStr (strftime_canon (Instant 2023 9 1 0 0 0 0)),
                   ''BatchIDs'' \<mapsto> VList [VStr ''B2'']]]
     \<in> set (states_of (drop 0 (out (snd (resume_syncing_bulk_query ex_canon ex_ce ''J'' ex_cp0)))))"
  using resume_watermark_read_back [where env = ex_canon and ce = ex_ce and p = ex_cp0 and cur = "Instant 2000 1 1 0 0 0 0"
      and job_id = "''J''" and res = "fst (resume_syncing_bulk_query ex_canon ex_ce ''J'' ex_cp0)"
      and p' = "snd (resume_syncing_bulk_query ex_canon ex_ce ''J'' ex_cp0)" and env' = ex_canon
      and st = "[''Account'' \<mapsto> [''JobHighestBookmarkSeen'' \<mapsto> VStr (strftime_canon (Instant 2023 9 1 0 0 0 0)),
                   ''BatchIDs'' \<mapsto> VList [VStr ''B2'']]]"]
  by (simp add: eval_defs ex_defs less_prod_def less_eq_prod_def)

end
